(* ===== verification/Prelude.thy ===== *)
theory Prelude
  imports Main "HOL-Library.AList" "HOL-Library.Sublist" "HOL-Library.Char_ord"
    "HOL-Library.List_Lexorder"
begin

text \<open>
  Shared vocabulary of the LogPilot development.

  \<^item> Go errors are values: \<open>gerr\<close> is the message, a result \<open>(T, error)\<close> whose value is only used
    when the error is nil is \<open>gerr + 'a\<close>, an \<open>error\<close> result is \<open>gerr option\<close>.
  \<^item> A Go map is an association list with distinct keys (\<open>gm_wf\<close>), read with \<open>gm_get\<close>, written
    with \<open>gm_put\<close>, \<open>gm_del\<close> and \<open>gm_copy\<close> (\<open>maps.Copy\<close>). The interface locale \<open>go_map\<close> states what
    clients of a map rely on; the association lists interpret it.
  \<^item> \<open>strconv\<close>/\<open>fmt\<close> decimal rendering and reading of integers, with their round trips.
  \<^item> A few generic facts on lists and subsequences that several components share.
\<close>

type_synonym gerr = string
type_synonym ('k, 'v) gomap = "('k \<times> 'v) list"

named_theorems gomap_simps "reading a Go map after an update"
named_theorems frame_simps "what an operation leaves unchanged"

section \<open>Go maps\<close>

definition gm_wf :: "('k, 'v) gomap \<Rightarrow> bool" where
  "gm_wf m = distinct (map fst m)"

definition gm_get :: "('k, 'v) gomap \<Rightarrow> 'k \<Rightarrow> 'v option" where
  "gm_get m k = map_of m k"

definition gm_put :: "'k \<Rightarrow> 'v \<Rightarrow> ('k, 'v) gomap \<Rightarrow> ('k, 'v) gomap" where
  "gm_put k v m = AList.update k v m"

definition gm_del :: "'k \<Rightarrow> ('k, 'v) gomap \<Rightarrow> ('k, 'v) gomap" where
  "gm_del k m = AList.delete k m"

text \<open>\<open>maps.Copy(dst, src)\<close>: every entry of \<open>src\<close> is stored into \<open>dst\<close>.\<close>

fun gm_copy :: "('k, 'v) gomap \<Rightarrow> ('k, 'v) gomap \<Rightarrow> ('k, 'v) gomap" where
  "gm_copy dst [] = dst"
| "gm_copy dst ((k, v) # src) = gm_copy (gm_put k v dst) src"

text \<open>Reading a key of type string from a \<open>map[string]string\<close>: the zero value when it is absent.\<close>

definition gm_str :: "(string, string) gomap \<Rightarrow> string \<Rightarrow> string" where
  "gm_str m k = (case gm_get m k of None \<Rightarrow> [] | Some v \<Rightarrow> v)"

lemma gm_wf_Nil [simp, intro]: "gm_wf []"
  by (simp add: gm_wf_def)

lemma gm_get_Nil [simp]: "gm_get [] k = None"
  by (simp add: gm_get_def)

lemma gm_get_Cons: "gm_get ((k, v) # m) k' = (if k' = k then Some v else gm_get m k')"
  by (simp add: gm_get_def)

lemma gm_get_put [gomap_simps]: "gm_get (gm_put k v m) k' = (if k' = k then Some v else gm_get m k')"
  by (simp add: gm_get_def gm_put_def update_conv')

lemma gm_get_del [gomap_simps]: "gm_get (gm_del k m) k' = (if k' = k then None else gm_get m k')"
  by (simp add: gm_get_def gm_del_def delete_conv')

lemma gm_wf_put [simp, intro]: "gm_wf m \<Longrightarrow> gm_wf (gm_put k v m)"
  by (simp add: gm_wf_def gm_put_def distinct_update)

lemma gm_wf_del [simp, intro]: "gm_wf m \<Longrightarrow> gm_wf (gm_del k m)"
  by (simp add: gm_wf_def gm_del_def distinct_delete)

lemma gm_wf_filter: "gm_wf m \<Longrightarrow> gm_wf (filter P m)"
  by (simp add: gm_wf_def distinct_map_filter)

lemma gm_wf_copy [simp, intro]: "gm_wf dst \<Longrightarrow> gm_wf (gm_copy dst src)"
  by (induction dst src rule: gm_copy.induct) auto

lemma gm_get_in_set: "gm_wf m \<Longrightarrow> gm_get m k = Some v \<longleftrightarrow> (k, v) \<in> set m"
  by (simp add: gm_wf_def gm_get_def)

lemma gm_get_SomeD: "gm_get m k = Some v \<Longrightarrow> (k, v) \<in> set m"
  by (simp add: gm_get_def map_of_SomeD)

lemma gm_get_None_iff: "gm_get m k = None \<longleftrightarrow> k \<notin> fst ` set m"
  by (simp add: gm_get_def map_of_eq_None_iff)

lemma set_map_gm_put: "fst ` set (gm_put k v m) = insert k (fst ` set m)"
  by (simp add: gm_put_def dom_update)

lemma set_map_gm_del: "fst ` set (gm_del k m) = fst ` set m - {k}"
  by (auto simp: gm_del_def AList.delete_eq)

lemma gm_get_copy [gomap_simps]:
  "gm_wf src \<Longrightarrow>
     gm_get (gm_copy dst src) k = (case gm_get src k of None \<Rightarrow> gm_get dst k | Some v \<Rightarrow> Some v)"
proof (induction dst src rule: gm_copy.induct)
  case (1 dst)
  then show ?case by simp
next
  case (2 dst k' v src)
  then have "gm_wf src" and "gm_get src k' = None"
    by (auto simp: gm_wf_def gm_get_None_iff)
  with "2.IH" show ?case
    by (auto simp: gomap_simps gm_get_Cons split: option.splits)
qed

lemma gm_put_new: "k \<notin> fst ` set m \<Longrightarrow> gm_put k v m = m @ [(k, v)]"
  unfolding gm_put_def by (induction m) auto

lemma gm_str_Nil [simp]: "gm_str [] k = []"
  by (simp add: gm_str_def)

text \<open>
  The contract a client of a map relies on, and what follows from it: writes to different keys
  do not disturb each other, and the last write to a key is the one read.
\<close>

locale go_map =
  fixes get :: "'m \<Rightarrow> 'k \<Rightarrow> 'v option"
    and put :: "'k \<Rightarrow> 'v \<Rightarrow> 'm \<Rightarrow> 'm"
    and del :: "'k \<Rightarrow> 'm \<Rightarrow> 'm"
    and wf :: "'m \<Rightarrow> bool"
  assumes get_put: "get (put k v m) k' = (if k' = k then Some v else get m k')"
    and get_del: "get (del k m) k' = (if k' = k then None else get m k')"
    and wf_put: "wf m \<Longrightarrow> wf (put k v m)"
    and wf_del: "wf m \<Longrightarrow> wf (del k m)"
begin

lemma put_put_get: "get (put k v (put k w m)) = get (put k v m)"
  by (simp add: fun_eq_iff get_put)

lemma put_commute_get: "k \<noteq> l \<Longrightarrow> get (put k v (put l w m)) = get (put l w (put k v m))"
  by (simp add: fun_eq_iff get_put)

lemma del_put_get: "get (del k (put k v m)) = get (del k m)"
  by (simp add: fun_eq_iff get_put get_del)

lemma dels_get: "get (fold del ks m) k = (if k \<in> set ks then None else get m k)"
  by (induction ks arbitrary: m) (auto simp: get_del)

lemma dels_wf: "wf m \<Longrightarrow> wf (fold del ks m)"
  by (induction ks arbitrary: m) (auto intro: wf_del)

end

interpretation gm: go_map gm_get gm_put gm_del gm_wf
  by unfold_locales (auto simp: gomap_simps)

section \<open>Decimal rendering of integers (strconv.FormatInt, fmt's \%d)\<close>

definition digit_char :: "nat \<Rightarrow> char" where
  "digit_char d = char_of (48 + d)"

definition is_digit :: "char \<Rightarrow> bool" where
  "is_digit c = (48 \<le> (of_char c :: nat) \<and> (of_char c :: nat) \<le> 57)"

definition digit_val :: "char \<Rightarrow> nat" where
  "digit_val c = of_char c - 48"

fun show_nat :: "nat \<Rightarrow> string" where
  "show_nat n = (if n < 10 then [digit_char n] else show_nat (n div 10) @ [digit_char (n mod 10)])"

declare show_nat.simps [simp del]

definition show_int :: "int \<Rightarrow> string" where
  "show_int i = (if i < 0 then CHR ''-'' # show_nat (nat (- i)) else show_nat (nat i))"

definition read_digits :: "string \<Rightarrow> nat" where
  "read_digits s = foldl (\<lambda>n c. 10 * n + digit_val c) 0 s"

lemma digit_char_simps [simp]:
  assumes "d < 10"
  shows "is_digit (digit_char d)" "digit_val (digit_char d) = d"
  using assms by (simp_all add: digit_char_def is_digit_def digit_val_def)

lemma show_nat_digits: "\<forall>c \<in> set (show_nat n). is_digit c"
proof (induction n rule: show_nat.induct)
  case (1 n)
  then show ?case by (subst show_nat.simps) auto
qed

lemma show_nat_not_Nil [simp]: "show_nat n \<noteq> []"
  by (subst show_nat.simps) simp

lemma read_show_nat [simp]: "read_digits (show_nat n) = n"
proof (induction n rule: show_nat.induct)
  case (1 n)
  show ?case
  proof (cases "n < 10")
    case True
    then show ?thesis by (subst show_nat.simps) (simp add: read_digits_def)
  next
    case False
    then show ?thesis using "1"
      by (subst show_nat.simps) (simp add: read_digits_def)
  qed
qed

lemma show_nat_inj: "show_nat m = show_nat n \<Longrightarrow> m = n"
  by (metis read_show_nat)

lemma is_digit_not_minus [simp]: "\<not> is_digit CHR ''-''"
  by (simp add: is_digit_def)

lemma show_nat_hd_digit: "is_digit (hd (show_nat n))"
  by (metis hd_in_set show_nat_digits show_nat_not_Nil)

lemma show_int_inj: "show_int i = show_int j \<Longrightarrow> i = j"
proof -
  assume eq: "show_int i = show_int j"
  have "show_nat n \<noteq> CHR ''-'' # s" for n s
    using show_nat_hd_digit[of n] by auto
  then have "show_nat n = CHR ''-'' # s \<longleftrightarrow> False" "CHR ''-'' # s = show_nat n \<longleftrightarrow> False" for n s
    by metis+
  with eq show ?thesis
    by (auto simp: show_int_def dest: show_nat_inj split: if_splits)
qed

lemma show_nat_hd_zero: "hd (show_nat n) = CHR ''0'' \<Longrightarrow> length (show_nat n) = 1"
proof (induction n rule: show_nat.induct)
  case (1 n)
  show ?case
  proof (cases "n < 10")
    case True
    then show ?thesis by (subst show_nat.simps) simp
  next
    case False
    then have eq: "show_nat n = show_nat (n div 10) @ [digit_char (n mod 10)]"
      by (subst show_nat.simps) simp
    with "1.prems" have hd0: "hd (show_nat (n div 10)) = CHR ''0''"
      by simp
    with "1.IH" False have "length (show_nat (n div 10)) = 1" by simp
    with hd0 have "show_nat (n div 10) = ''0''"
      by (cases "show_nat (n div 10)") auto
    then have "read_digits (show_nat (n div 10)) = 0"
      by (simp add: read_digits_def digit_val_def)
    then have "n div 10 = 0" by simp
    with False show ?thesis by simp
  qed
qed

text \<open>\<open>strings.Join\<close>.\<close>

fun str_join :: "string \<Rightarrow> string list \<Rightarrow> string" where
  "str_join sep [] = []"
| "str_join sep [x] = x"
| "str_join sep (x # y # xs) = x @ sep @ str_join sep (y # xs)"

section \<open>Lists and subsequences\<close>

lemma subseq_appendI: "subseq xs ys \<Longrightarrow> subseq xs (ys @ zs)"
  by (simp add: subseq_rev_drop_many)

lemma subseq_append_both: "subseq xs ys \<Longrightarrow> subseq us vs \<Longrightarrow> subseq (xs @ us) (ys @ vs)"
  by (rule list_emb_append_mono)

lemma subseq_append_right: "subseq xs ys \<Longrightarrow> subseq (xs @ us) (ys @ vs @ us)"
  by (metis subseq_append_both subseq_order.refl append.assoc subseq_appendI)

lemma subseq_set: "subseq xs ys \<Longrightarrow> set xs \<subseteq> set ys"
  by (metis subseq_conv_nths set_nths_subset)

lemma set_map_filter: "set (List.map_filter f xs) = {y. \<exists>x\<in>set xs. f x = Some y}"
  by (induction xs) (auto simp: List.map_filter_simps split: option.splits)

lemma set_split_prefix: "x \<in> set xs \<Longrightarrow> \<exists>us vs. xs = us @ x # vs"
  by (rule split_list)

end
