(* ===== verification/Json.thy ===== *)
theory Json
  imports Prelude "HOL-Library.Monad_Syntax"
begin

text \<open>
  The part of Go's \<open>encoding/json\<close> the program uses. A document is a \<open>json\<close> value; a number
  keeps its literal text, as Go's decoder does until it knows the target type. \<open>json_parse\<close> reads
  a byte string (\<open>json.Unmarshal\<close>'s scanner, white space and escapes included), \<open>json_print\<close> writes
  one (\<open>json.Marshal\<close>, compact, with the HTML-safe escapes). Bytes from 128 on are passed through,
  which is what Go does on valid UTF-8. The decoders \<open>dec_string\<close>, \<open>dec_bool\<close>, \<open>dec_string_map\<close>,
  \<open>dec_string_list\<close>, \<open>dec_int64\<close> are \<open>json.Unmarshal\<close> into a fresh variable of the Go type:
  \<open>None\<close> is the decoding error, and the JSON value null leaves the zero value.
  The main lemma, \<open>json_parse_print\<close>, says a printed document is read back as itself.
\<close>

datatype json =
    JNull
  | JBool bool
  | JNum string
  | JStr string
  | JArr "json list"
  | JObj "(string \<times> json) list"

section \<open>Reading\<close>

definition is_ws :: "char \<Rightarrow> bool" where
  "is_ws c = (of_char c \<in> {32, 9, 10, 13 :: nat})"

definition skip_ws :: "string \<Rightarrow> string" where
  "skip_ws s = dropWhile is_ws s"

definition hex_val :: "char \<Rightarrow> nat option" where
  "hex_val c = (let n = of_char c :: nat in
     if 48 \<le> n \<and> n \<le> 57 then Some (n - 48)
     else if 97 \<le> n \<and> n \<le> 102 then Some (n - 87)
     else if 65 \<le> n \<and> n \<le> 70 then Some (n - 55)
     else None)"

fun hex4 :: "string \<Rightarrow> nat option" where
  "hex4 (a # b # c # d # s) = do {
     w \<leftarrow> hex_val a; x \<leftarrow> hex_val b; y \<leftarrow> hex_val c; z \<leftarrow> hex_val d;
     Some (((w * 16 + x) * 16 + y) * 16 + z) }"
| "hex4 _ = None"

definition utf8 :: "nat \<Rightarrow> string" where
  "utf8 n =
     (if n < 128 then [char_of n]
      else if n < 2048 then [char_of (192 + n div 64), char_of (128 + n mod 64)]
      else if n < 65536 then
        [char_of (224 + n div 4096), char_of (128 + n div 64 mod 64), char_of (128 + n mod 64)]
      else [char_of (240 + n div 262144), char_of (128 + n div 4096 mod 64),
        char_of (128 + n div 64 mod 64), char_of (128 + n mod 64)])"

definition unesc :: "char \<Rightarrow> char option" where
  "unesc e =
     (if e = CHR 0x22 \<or> e = CHR 0x5C \<or> e = CHR 0x2F then Some e
      else if e = CHR ''b'' then Some (CHR 0x08)
      else if e = CHR ''f'' then Some (CHR 0x0C)
      else if e = CHR ''n'' then Some (CHR 0x0A)
      else if e = CHR ''r'' then Some (CHR 0x0D)
      else if e = CHR ''t'' then Some (CHR 0x09)
      else None)"

definition is_hi :: "nat \<Rightarrow> bool" where
  "is_hi n = (55296 \<le> n \<and> n < 56320)"

definition is_lo :: "nat \<Rightarrow> bool" where
  "is_lo n = (56320 \<le> n \<and> n < 57344)"

text \<open>A lone surrogate decodes to U+FFFD.\<close>

definition rune_bytes :: "nat \<Rightarrow> string" where
  "rune_bytes n = (if is_hi n \<or> is_lo n then utf8 65533 else utf8 n)"

definition low_surrogate :: "string \<Rightarrow> nat option" where
  "low_surrogate s =
     (if take 2 s = [CHR 0x5C, CHR ''u''] then
        (case hex4 (drop 2 s) of None \<Rightarrow> None | Some n \<Rightarrow> (if is_lo n then Some n else None))
      else None)"

text \<open>The body of a string, after its opening quote: its bytes and what follows the closing quote.\<close>

fun p_str :: "string \<Rightarrow> (string \<times> string) option" where
  "p_str [] = None"
| "p_str (c # s) =
     (if c = CHR 0x22 then Some ([], s)
      else if c = CHR 0x5C then
        (case s of
           [] \<Rightarrow> None
         | e # s' \<Rightarrow>
             (if e = CHR ''u'' then
                (case hex4 s' of
                   None \<Rightarrow> None
                 | Some n \<Rightarrow>
                     (case (if is_hi n then low_surrogate (drop 4 s') else None) of
                        Some m \<Rightarrow>
                          map_option (\<lambda>(t, r). (utf8 (65536 + (n - 55296) * 1024 + (m - 56320)) @ t, r))
                            (p_str (drop 10 s'))
                      | None \<Rightarrow> map_option (\<lambda>(t, r). (rune_bytes n @ t, r)) (p_str (drop 4 s'))))
              else
                (case unesc e of
                   None \<Rightarrow> None
                 | Some d \<Rightarrow> map_option (\<lambda>(t, r). (d # t, r)) (p_str s'))))
      else if (of_char c :: nat) < 32 then None
      else map_option (\<lambda>(t, r). (c # t, r)) (p_str s))"

definition p_sign :: "string \<Rightarrow> string \<times> string" where
  "p_sign s = (case s of [] \<Rightarrow> ([], []) | c # r \<Rightarrow> (if c = CHR ''-'' then ([c], r) else ([], s)))"

definition p_frac :: "string \<Rightarrow> (string \<times> string) option" where
  "p_frac s = (case s of [] \<Rightarrow> Some ([], s) | c # r \<Rightarrow>
     (if c = CHR ''.'' then
        (if takeWhile is_digit r = [] then None
         else Some (c # takeWhile is_digit r, dropWhile is_digit r))
      else Some ([], s)))"

definition p_exp :: "string \<Rightarrow> (string \<times> string) option" where
  "p_exp s = (case s of [] \<Rightarrow> Some ([], s) | c # r \<Rightarrow>
     (if c = CHR ''e'' \<or> c = CHR ''E'' then
        (let (sg, r1) = (case r of [] \<Rightarrow> ([], []) | d # r' \<Rightarrow>
               (if d = CHR ''+'' \<or> d = CHR ''-'' then ([d], r') else ([], r)))
         in if takeWhile is_digit r1 = [] then None
            else Some (c # sg @ takeWhile is_digit r1, dropWhile is_digit r1))
      else Some ([], s)))"

definition p_num :: "string \<Rightarrow> (string \<times> string) option" where
  "p_num s = do {
     let (sg, s1) = p_sign s;
     let ds = takeWhile is_digit s1;
     if ds = [] \<or> (1 < length ds \<and> hd ds = CHR ''0'') then None else do {
       (fr, s2) \<leftarrow> p_frac (dropWhile is_digit s1);
       (ex, s3) \<leftarrow> p_exp s2;
       Some (sg @ ds @ fr @ ex, s3) } }"

definition strip_lit :: "string \<Rightarrow> string \<Rightarrow> string option" where
  "strip_lit p s = (if take (length p) s = p then Some (drop (length p) s) else None)"

text \<open>
  Values, array elements and object members. The first argument is fuel, one unit for each
  value or separator; \<open>json_parse\<close> gives one unit for each byte of the text and one more.
\<close>

fun p_val :: "nat \<Rightarrow> string \<Rightarrow> (json \<times> string) option"
  and p_elems :: "nat \<Rightarrow> string \<Rightarrow> (json list \<times> string) option"
  and p_membs :: "nat \<Rightarrow> string \<Rightarrow> ((string \<times> json) list \<times> string) option"
where
  "p_val 0 s = None"
| "p_val (Suc n) [] = None"
| "p_val (Suc n) (c # r) =
     (if c = CHR 0x22 then map_option (\<lambda>(t, r'). (JStr t, r')) (p_str r)
      else if c = CHR ''['' then
        (if take 1 (skip_ws r) = '']'' then Some (JArr [], drop 1 (skip_ws r))
         else map_option (\<lambda>(vs, r'). (JArr vs, r')) (p_elems n (skip_ws r)))
      else if c = CHR ''{'' then
        (if take 1 (skip_ws r) = ''}'' then Some (JObj [], drop 1 (skip_ws r))
         else map_option (\<lambda>(ms, r'). (JObj ms, r')) (p_membs n (skip_ws r)))
      else if c = CHR ''t'' then map_option (\<lambda>r'. (JBool True, r')) (strip_lit ''rue'' r)
      else if c = CHR ''f'' then map_option (\<lambda>r'. (JBool False, r')) (strip_lit ''alse'' r)
      else if c = CHR ''n'' then map_option (\<lambda>r'. (JNull, r')) (strip_lit ''ull'' r)
      else map_option (\<lambda>(t, r'). (JNum t, r')) (p_num (c # r)))"
| "p_elems 0 s = None"
| "p_elems (Suc n) s =
     (case p_val n s of
        None \<Rightarrow> None
      | Some (v, r) \<Rightarrow>
          (case skip_ws r of
             [] \<Rightarrow> None
           | c # r' \<Rightarrow>
               (if c = CHR '','' then map_option (\<lambda>(vs, r''). (v # vs, r'')) (p_elems n (skip_ws r'))
                else if c = CHR '']'' then Some ([v], r')
                else None)))"
| "p_membs 0 s = None"
| "p_membs (Suc n) s =
     (case s of
        [] \<Rightarrow> None
      | q # r \<Rightarrow>
          (if q \<noteq> CHR 0x22 then None
           else (case p_str r of
              None \<Rightarrow> None
            | Some (k, r1) \<Rightarrow>
                (case skip_ws r1 of
                   [] \<Rightarrow> None
                 | c # r2 \<Rightarrow>
                     (if c \<noteq> CHR '':'' then None
                      else (case p_val n (skip_ws r2) of
                         None \<Rightarrow> None
                       | Some (v, r3) \<Rightarrow>
                           (case skip_ws r3 of
                              [] \<Rightarrow> None
                            | d # r4 \<Rightarrow>
                                (if d = CHR '','' then
                                   map_option (\<lambda>(ms, r5). ((k, v) # ms, r5)) (p_membs n (skip_ws r4))
                                 else if d = CHR ''}'' then Some ([(k, v)], r4)
                                 else None))))))))"

definition json_parse :: "string \<Rightarrow> json option" where
  "json_parse s =
     (case p_val (Suc (length s)) (skip_ws s) of
        None \<Rightarrow> None
      | Some (j, r) \<Rightarrow> (if skip_ws r = [] then Some j else None))"

section \<open>Writing\<close>

definition hex_digit :: "nat \<Rightarrow> char" where
  "hex_digit d = (if d < 10 then char_of (48 + d) else char_of (87 + d))"

definition esc_char :: "char \<Rightarrow> string" where
  "esc_char c =
     (if c = CHR 0x22 \<or> c = CHR 0x5C then [CHR 0x5C, c]
      else if c = CHR 0x08 then [CHR 0x5C, CHR ''b'']
      else if c = CHR 0x0C then [CHR 0x5C, CHR ''f'']
      else if c = CHR 0x0A then [CHR 0x5C, CHR ''n'']
      else if c = CHR 0x0D then [CHR 0x5C, CHR ''r'']
      else if c = CHR 0x09 then [CHR 0x5C, CHR ''t'']
      else if (of_char c :: nat) < 32 \<or> c = CHR ''<'' \<or> c = CHR ''>'' \<or> c = CHR ''&'' then
        [CHR 0x5C, CHR ''u'', CHR ''0'', CHR ''0'',
         hex_digit (of_char c div 16), hex_digit (of_char c mod 16)]
      else [c])"

definition str_print :: "string \<Rightarrow> string" where
  "str_print s = [CHR 0x22] @ concat (map esc_char s) @ [CHR 0x22]"

fun json_print :: "json \<Rightarrow> string" where
  "json_print JNull = ''null''"
| "json_print (JBool b) = (if b then ''true'' else ''false'')"
| "json_print (JNum t) = t"
| "json_print (JStr s) = str_print s"
| "json_print (JArr xs) = ''['' @ str_join '','' (map json_print xs) @ '']''"
| "json_print (JObj ms) =
     ''{'' @ str_join '','' (map (\<lambda>(k, v). str_print k @ '':'' @ json_print v) ms) @ ''}''"

section \<open>Decoding into Go types\<close>

fun dec_string :: "json \<Rightarrow> string option" where
  "dec_string (JStr s) = Some s"
| "dec_string JNull = Some []"
| "dec_string _ = None"

fun dec_bool :: "json \<Rightarrow> bool option" where
  "dec_bool (JBool b) = Some b"
| "dec_bool JNull = Some False"
| "dec_bool _ = None"

fun dec_all :: "(json \<Rightarrow> 'a option) \<Rightarrow> json list \<Rightarrow> 'a list option" where
  "dec_all f [] = Some []"
| "dec_all f (j # js) = do { x \<leftarrow> f j; xs \<leftarrow> dec_all f js; Some (x # xs) }"

text \<open>Members are stored in the order of the text, so the last of two equal keys wins.\<close>

fun dec_members ::
    "(json \<Rightarrow> 'a option) \<Rightarrow> (string, 'a) gomap \<Rightarrow> (string \<times> json) list \<Rightarrow> (string, 'a) gomap option" where
  "dec_members f m [] = Some m"
| "dec_members f m ((k, j) # ms) = do { x \<leftarrow> f j; dec_members f (gm_put k x m) ms }"

text \<open>Into \<open>map[string]T\<close>: null gives the nil map, an object a map.\<close>

fun dec_map :: "(json \<Rightarrow> 'a option) \<Rightarrow> json \<Rightarrow> (string, 'a) gomap option option" where
  "dec_map f (JObj ms) = map_option Some (dec_members f [] ms)"
| "dec_map f JNull = Some None"
| "dec_map f _ = None"

definition dec_string_map :: "json \<Rightarrow> (string, string) gomap option option" where
  "dec_string_map = dec_map dec_string"

fun dec_list :: "(json \<Rightarrow> 'a option) \<Rightarrow> json \<Rightarrow> 'a list option" where
  "dec_list f (JArr js) = dec_all f js"
| "dec_list f JNull = Some []"
| "dec_list f _ = None"

definition int64_ok :: "int \<Rightarrow> bool" where
  "int64_ok i = (- (2 ^ 63) \<le> i \<and> i < 2 ^ 63)"

text \<open>\<open>strconv.ParseInt\<close> on a number literal: a fraction or an exponent is an error, as is overflow.\<close>

definition read_int :: "string \<Rightarrow> int option" where
  "read_int t =
     (let (sg, ds) = p_sign t; i = int (read_digits ds); v = (if sg = [] then i else - i)
      in if ds \<noteq> [] \<and> list_all is_digit ds \<and> int64_ok v then Some v else None)"

fun dec_int64 :: "json \<Rightarrow> int option" where
  "dec_int64 (JNum t) = read_int t"
| "dec_int64 JNull = Some 0"
| "dec_int64 _ = None"

text \<open>
  Decoding into a struct looks each member's name up among the field tags, an exact match first and
  an ASCII case-insensitive one otherwise; the last member that sets a field wins.
\<close>

definition ascii_lower :: "char \<Rightarrow> char" where
  "ascii_lower c = (let n = of_char c :: nat in if 65 \<le> n \<and> n \<le> 90 then char_of (n + 32) else c)"

definition field_match :: "string list \<Rightarrow> string \<Rightarrow> string \<Rightarrow> bool" where
  "field_match tags tag k = (k = tag \<or> (k \<notin> set tags \<and> map ascii_lower k = map ascii_lower tag))"

definition field_vals :: "string list \<Rightarrow> string \<Rightarrow> (string \<times> json) list \<Rightarrow> json list" where
  "field_vals tags tag ms = map snd (filter (\<lambda>(k, _). field_match tags tag k) ms)"

text \<open>Each value is decoded in turn over the last; null leaves the field as it is.\<close>

fun dec_field :: "(json \<Rightarrow> 'a option) \<Rightarrow> 'a \<Rightarrow> json list \<Rightarrow> 'a option" where
  "dec_field f x [] = Some x"
| "dec_field f x (j # js) = (if j = JNull then dec_field f x js else do { y \<leftarrow> f j; dec_field f y js })"

section \<open>Round trips\<close>

lemma hex_val_digit [simp]: "d < 16 \<Longrightarrow> hex_val (hex_digit d) = Some d"
proof -
  assume d: "d < 16"
  then have "of_char (char_of (48 + d) :: char) = 48 + d" "of_char (char_of (87 + d) :: char) = 87 + d"
    by simp_all
  with d show ?thesis by (simp add: hex_val_def hex_digit_def Let_def)
qed

lemma hex4_low [simp]:
  "n < 256 \<Longrightarrow> hex4 (CHR ''0'' # CHR ''0'' # hex_digit (n div 16) # hex_digit (n mod 16) # s) = Some n"
proof -
  assume n: "n < 256"
  have zero: "hex_val CHR ''0'' = Some 0" by (simp add: hex_val_def Let_def)
  from n have "n div 16 < 16" "n mod 16 < 16" by auto
  then show ?thesis by (simp add: zero)
qed

lemma p_str_esc_char: "p_str (esc_char c @ s) = map_option (\<lambda>(t, r). (c # t, r)) (p_str s)"
proof (cases "c = CHR 0x22 \<or> c = CHR 0x5C")
  case True
  then show ?thesis by (elim disjE) (simp_all add: esc_char_def unesc_def)
next
  case quote: False
  show ?thesis
  proof (cases "c \<in> {CHR 0x08, CHR 0x0C, CHR 0x0A, CHR 0x0D, CHR 0x09}")
    case True
    then show ?thesis by (elim insertE emptyE) (simp_all add: esc_char_def unesc_def)
  next
    case short: False
    show ?thesis
    proof (cases "(of_char c :: nat) < 32 \<or> c = CHR ''<'' \<or> c = CHR ''>'' \<or> c = CHR ''&''")
      case True
      then have lt: "(of_char c :: nat) < 128" by auto
      then have "rune_bytes (of_char c) = [c]"
        by (simp add: rune_bytes_def is_hi_def is_lo_def utf8_def)
      moreover have "\<not> is_hi (of_char c)" using lt by (simp add: is_hi_def)
      moreover have "esc_char c = [CHR 0x5C, CHR ''u'', CHR ''0'', CHR ''0'',
         hex_digit (of_char c div 16), hex_digit (of_char c mod 16)]"
        using quote short True by (simp add: esc_char_def)
      ultimately show ?thesis using lt hex4_low[of "of_char c" s] by (simp del: hex4.simps)
    next
      case False
      then have "esc_char c = [c]" using quote short by (simp add: esc_char_def)
      with quote False show ?thesis by simp
    qed
  qed
qed

lemma p_str_print: "p_str (concat (map esc_char s) @ CHR 0x22 # rest) = Some (s, rest)"
  by (induction s) (simp_all add: p_str_esc_char)

definition num_stop :: "string \<Rightarrow> bool" where
  "num_stop rest = (rest = [] \<or> (\<not> is_digit (hd rest) \<and> hd rest \<notin> {CHR ''.'', CHR ''e'', CHR ''E''}))"

lemma num_stop_Cons [simp]:
  "num_stop (c # s) \<longleftrightarrow> \<not> is_digit c \<and> c \<noteq> CHR ''.'' \<and> c \<noteq> CHR ''e'' \<and> c \<noteq> CHR ''E''"
  by (auto simp: num_stop_def)

lemma num_stop_Nil [simp]: "num_stop []"
  by (simp add: num_stop_def)

lemma takeWhile_digits:
  assumes "\<forall>c \<in> set ds. is_digit c" and "num_stop rest"
  shows "takeWhile is_digit (ds @ rest) = ds" "dropWhile is_digit (ds @ rest) = rest"
  using assms by (cases rest; simp add: takeWhile_append2 dropWhile_append2)+

lemma p_num_stop: "num_stop s \<Longrightarrow> p_frac s = Some ([], s)" "num_stop s \<Longrightarrow> p_exp s = Some ([], s)"
  by (auto simp: p_frac_def p_exp_def split: list.splits)

lemma p_sign_digits: "p_sign (show_nat n @ rest) = ([], show_nat n @ rest)"
proof (cases "show_nat n")
  case Nil
  then show ?thesis by simp
next
  case (Cons a list)
  with show_nat_hd_digit[of n] show ?thesis
    by (auto simp: p_sign_def)
qed

lemma p_num_show_int: "num_stop rest \<Longrightarrow> p_num (show_int i @ rest) = Some (show_int i, rest)"
proof -
  assume stop: "num_stop rest"
  have ds: "takeWhile is_digit (show_nat n @ rest) = show_nat n"
    "dropWhile is_digit (show_nat n @ rest) = rest" for n
    using takeWhile_digits[OF show_nat_digits stop] by auto
  have "\<not> (1 < length (show_nat n) \<and> hd (show_nat n) = CHR ''0'')" for n
    using show_nat_hd_zero[of n] by auto
  then show ?thesis
    using p_sign_digits
    by (auto simp: p_num_def show_int_def ds p_num_stop[OF stop] Let_def) (simp_all add: p_sign_def ds p_num_stop[OF stop])
qed

lemma read_int_show_int: "int64_ok i \<Longrightarrow> read_int (show_int i) = Some i"
proof -
  assume ok: "int64_ok i"
  have all: "list_all is_digit (show_nat n)" for n
    using show_nat_digits by (simp add: list_all_iff)
  show ?thesis
  proof (cases "i < 0")
    case True
    then show ?thesis using ok all by (simp add: show_int_def read_int_def p_sign_def)
  next
    case False
    then show ?thesis using ok all p_sign_digits[of "nat i" "[]"] by (simp add: show_int_def read_int_def)
  qed
qed

text \<open>Documents whose numbers are integer literals, which is all this program writes.\<close>

fun int_nums :: "json \<Rightarrow> bool" where
  "int_nums (JNum t) = (\<exists>i. t = show_int i)"
| "int_nums (JArr xs) = (\<forall>x \<in> set xs. int_nums x)"
| "int_nums (JObj ms) = (\<forall>(k, v) \<in> set ms. int_nums v)"
| "int_nums _ = True"

lemma skip_ws_Cons [simp]: "skip_ws (c # s) = (if is_ws c then skip_ws s else c # s)"
  by (simp add: skip_ws_def)

lemma skip_ws_Nil [simp]: "skip_ws [] = []"
  by (simp add: skip_ws_def)

lemma not_ws [simp]:
  "\<not> is_ws CHR '',''" "\<not> is_ws CHR '']''" "\<not> is_ws CHR ''}''" "\<not> is_ws CHR '':''" "\<not> is_ws CHR 0x22"
  "\<not> is_ws CHR ''[''" "\<not> is_ws CHR ''{''" "\<not> is_ws CHR ''-''" "is_digit c \<Longrightarrow> \<not> is_ws c"
  "\<not> is_ws CHR ''n''" "\<not> is_ws CHR ''t''" "\<not> is_ws CHR ''f''"
  by (auto simp: is_ws_def is_digit_def)

lemma show_int_Cons:
  obtains c s where "show_int i = c # s" "c = CHR ''-'' \<or> is_digit c"
  by (metis list.exhaust_sel show_int_def show_nat_hd_digit show_nat_not_Nil)

text \<open>The first byte of a printed document is no white space and no closing bracket.\<close>

lemma json_print_Cons:
  assumes "int_nums j"
  obtains c s where "json_print j = c # s" "\<not> is_ws c" "c \<noteq> CHR '']''" "c \<noteq> CHR ''}''"
proof (cases j)
  case (JNum t)
  with assms obtain i where t: "t = show_int i" by auto
  obtain c s where "show_int i = c # s" "c = CHR ''-'' \<or> is_digit c"
    by (rule show_int_Cons)
  moreover from this have "\<not> is_ws c \<and> c \<noteq> CHR '']'' \<and> c \<noteq> CHR ''}''"
    by (elim disjE) (auto simp: is_digit_def)
  ultimately show thesis using JNum t that by simp
next
  case (JBool b)
  show thesis
    by (rule that[of "if b then CHR ''t'' else CHR ''f''" "if b then ''rue'' else ''alse''"])
      (auto simp: JBool)
qed (use that in \<open>auto simp: str_print_def split: if_splits\<close>)

lemma json_print_not_Nil: "int_nums j \<Longrightarrow> 0 < length (json_print j)"
  by (metis json_print_Cons length_greater_0_conv list.distinct(1))

lemma p_val_string: "p_val (Suc n) (str_print s @ rest) = Some (JStr s, rest)"
  by (simp add: str_print_def p_str_print)

lemma p_val_num:
  assumes "num_stop rest"
  shows "p_val (Suc n) (show_int i @ rest) = Some (JNum (show_int i), rest)"
proof -
  obtain c s where c: "show_int i = c # s" "c = CHR ''-'' \<or> is_digit c"
    by (rule show_int_Cons)
  then have "c \<notin> {CHR 0x22, CHR ''['', CHR ''{'', CHR ''t'', CHR ''f'', CHR ''n''}"
    by (auto simp: is_digit_def)
  with c p_num_show_int[OF assms, of i] show ?thesis by simp
qed

lemma p_elems_print:
  assumes "\<And>x n rest. x \<in> set xs \<Longrightarrow> num_stop rest \<Longrightarrow> length (json_print x) \<le> n \<Longrightarrow>
      p_val n (json_print x @ rest) = Some (x, rest)"
    and "\<forall>x \<in> set xs. int_nums x" and "xs \<noteq> []"
    and "length (str_join '','' (map json_print xs)) + 1 \<le> m"
  shows "p_elems m (str_join '','' (map json_print xs) @ CHR '']'' # rest) = Some (xs, rest)"
  using assms
proof (induction xs arbitrary: m)
  case Nil
  then show ?case by simp
next
  case (Cons x xs)
  from Cons.prems(4) obtain k where m: "m = Suc k" by (cases m) auto
  show ?case
  proof (cases xs)
    case Nil
    with Cons.prems(4) m have "p_val k (json_print x @ CHR '']'' # rest) = Some (x, CHR '']'' # rest)"
      by (intro Cons.prems(1)) (auto simp: is_digit_def)
    with Nil m show ?thesis by simp
  next
    case (Cons y ys)
    let ?tl = "str_join '','' (map json_print xs) @ CHR '']'' # rest"
    have join: "str_join '','' (map json_print (x # xs)) = json_print x @ '','' @ str_join '','' (map json_print xs)"
      using Cons by simp
    have "p_val k (json_print x @ CHR '','' # ?tl) = Some (x, CHR '','' # ?tl)"
      using Cons.prems(4) m join by (intro Cons.prems(1)) (auto simp: is_digit_def)
    moreover have "p_elems k ?tl = Some (xs, rest)"
    proof (rule Cons.IH)
      show "length (str_join '','' (map json_print xs)) + 1 \<le> k"
        using Cons.prems(4) m join json_print_not_Nil[of x] Cons.prems(2) by simp
    qed (use Cons.prems Cons in auto)
    moreover have "int_nums y" using Cons.prems(2) Cons by simp
    then obtain c s where "json_print y = c # s" "\<not> is_ws c"
      by (rule json_print_Cons)
    then have "skip_ws ?tl = ?tl" using Cons by (cases ys) auto
    ultimately show ?thesis using m join by (simp del: map_map)
  qed
qed

lemma p_membs_print:
  fixes ms :: "(string \<times> json) list"
  defines "pr \<equiv> \<lambda>(k, v). str_print k @ '':'' @ json_print v"
  assumes "\<And>x n rest. x \<in> snd ` set ms \<Longrightarrow> num_stop rest \<Longrightarrow> length (json_print x) \<le> n \<Longrightarrow>
      p_val n (json_print x @ rest) = Some (x, rest)"
    and "\<forall>x \<in> snd ` set ms. int_nums x" and "ms \<noteq> []"
    and "length (str_join '','' (map pr ms)) + 1 \<le> m"
  shows "p_membs m (str_join '','' (map pr ms) @ CHR ''}'' # rest) = Some (ms, rest)"
  using assms(2-)
proof (induction ms arbitrary: m)
  case Nil
  then show ?case by simp
next
  case (Cons km ms)
  obtain k v where km: "km = (k, v)" by (cases km)
  have "int_nums v" using Cons.prems(2) km by simp
  then obtain c s where v: "json_print v = c # s" "\<not> is_ws c"
    by (rule json_print_Cons)
  then have skip: "skip_ws (json_print v @ t) = json_print v @ t" for t by simp
  have key: "p_str (concat (map esc_char k) @ CHR 0x22 # CHR '':'' # json_print v @ t)
      = Some (k, CHR '':'' # json_print v @ t)" for t
    by (rule p_str_print)
  from Cons.prems(4) obtain i where m: "m = Suc i" by (cases m) auto
  show ?case
  proof (cases ms)
    case Nil
    with Cons.prems(4) m km
    have "p_val i (json_print v @ CHR ''}'' # rest) = Some (v, CHR ''}'' # rest)"
      by (intro Cons.prems(1)) (auto simp: is_digit_def pr_def)
    with Nil m km skip key show ?thesis by (simp add: pr_def str_print_def)
  next
    case (Cons kn ns)
    let ?tl = "str_join '','' (map pr ms) @ CHR ''}'' # rest"
    have join: "str_join '','' (map pr (km # ms)) = pr km @ '','' @ str_join '','' (map pr ms)"
      using Cons by simp
    have "p_val i (json_print v @ CHR '','' # ?tl) = Some (v, CHR '','' # ?tl)"
      using Cons.prems(4) m join km by (intro Cons.prems(1)) (auto simp: is_digit_def pr_def)
    moreover have "p_membs i ?tl = Some (ms, rest)"
    proof (rule Cons.IH)
      show "length (str_join '','' (map pr ms)) + 1 \<le> i"
        using Cons.prems(4) m join km by (simp add: pr_def str_print_def)
    qed (use Cons.prems Cons in auto)
    moreover have "skip_ws ?tl = ?tl"
      using Cons by (cases ns; cases kn) (auto simp: pr_def str_print_def)
    ultimately show ?thesis
      using m join km skip key by (simp add: pr_def str_print_def del: map_map)
  qed
qed

lemma p_val_print:
  "int_nums j \<Longrightarrow> num_stop rest \<Longrightarrow> length (json_print j) \<le> n \<Longrightarrow>
     p_val n (json_print j @ rest) = Some (j, rest)"
proof (induction j arbitrary: n rest)
  case (JNum t)
  then obtain i where t: "t = show_int i" by auto
  then have "n \<noteq> 0" using JNum.prems show_int_Cons[of i] by force
  with JNum t p_val_num show ?case by (cases n) auto
next
  case (JStr s)
  then show ?case using p_val_string by (cases n) (auto simp: str_print_def)
next
  case (JArr xs)
  from JArr.prems obtain m where n: "n = Suc m" by (cases n) auto
  show ?case
  proof (cases "xs = []")
    case True
    with n show ?thesis by simp
  next
    case False
    then obtain y ys where xs: "xs = y # ys" by (cases xs) auto
    have "int_nums y" using JArr.prems xs by simp
    then obtain c s where "json_print y = c # s" "\<not> is_ws c" "c \<noteq> CHR '']''"
      by (rule json_print_Cons)
    then have "skip_ws (str_join '','' (map json_print xs) @ t) = str_join '','' (map json_print xs) @ t"
      and "take 1 (str_join '','' (map json_print xs) @ t) \<noteq> '']''" for t
      using xs by (cases ys; simp)+
    moreover
    have "p_elems m (str_join '','' (map json_print xs) @ CHR '']'' # rest) = Some (xs, rest)"
      using JArr.prems n False by (intro p_elems_print JArr.IH) auto
    ultimately show ?thesis using n by simp
  qed
next
  case (JObj ms)
  let ?pr = "\<lambda>(k, v). str_print k @ '':'' @ json_print v"
  from JObj.prems obtain m where n: "n = Suc m" by (cases n) auto
  show ?case
  proof (cases "ms = []")
    case True
    with n show ?thesis by simp
  next
    case False
    then obtain k v ns where ms: "ms = (k, v) # ns" by (metis list.exhaust surj_pair)
    then have "skip_ws (str_join '','' (map ?pr ms) @ t) = str_join '','' (map ?pr ms) @ t"
      and "take 1 (str_join '','' (map ?pr ms) @ t) \<noteq> ''}''" for t
      by (cases ns; simp add: str_print_def)+
    moreover
    have "p_membs m (str_join '','' (map ?pr ms) @ CHR ''}'' # rest) = Some (ms, rest)"
    proof (rule p_membs_print)
      fix x n rest
      assume x: "x \<in> snd ` set ms" and rest: "num_stop rest" "length (json_print x) \<le> n"
      then obtain kx where kx: "kx \<in> set ms" "x = snd kx" by auto
      have "int_nums x" using JObj.prems(1) kx by (cases kx) auto
      then show "p_val n (json_print x @ rest) = Some (x, rest)"
        using kx rest by (intro JObj.IH[OF kx(1)]) (auto simp: snds.simps)
    qed (use JObj.prems n False in auto)
    ultimately show ?thesis using n by simp
  qed
qed (auto simp: strip_lit_def gr0_conv_Suc Suc_le_eq dest!: less_imp_Suc_add)

text \<open>What is printed is read back: \<open>json.Unmarshal\<close> undoes \<open>json.Marshal\<close>.\<close>

lemma json_parse_print:
  assumes "int_nums j"
  shows "json_parse (json_print j) = Some j"
proof -
  from assms obtain c s where "json_print j = c # s" "\<not> is_ws c"
    by (rule json_print_Cons)
  then have "skip_ws (json_print j) = json_print j" by simp
  moreover have "p_val (Suc (length (json_print j))) (json_print j @ []) = Some (j, [])"
    by (rule p_val_print) (use assms in auto)
  ultimately show ?thesis by (simp add: json_parse_def)
qed

section \<open>Maps written as objects\<close>

lemma dec_members_map:
  "distinct (map fst m @ map fst ms) \<Longrightarrow> \<forall>(k, v) \<in> set ms. f (g v) = Some v \<Longrightarrow>
     dec_members f m (map (\<lambda>(k, v). (k, g v)) ms) = Some (m @ ms)"
proof (induction ms arbitrary: m)
  case Nil
  then show ?case by simp
next
  case (Cons kv ms)
  obtain k v where kv: "kv = (k, v)" by (cases kv)
  with Cons.prems have "gm_put k v m = m @ [(k, v)]" by (intro gm_put_new) auto
  with Cons kv show ?case by simp
qed

lemma distinct_sort_key: "distinct (map fst m) \<Longrightarrow> distinct (map fst (sort_key fst m))"
  by (metis distinct_map distinct_sort set_sort)

lemma gm_get_sort_key: "gm_wf m \<Longrightarrow> gm_get (sort_key fst m) = gm_get m"
  by (rule ext, simp add: gm_get_def gm_wf_def)
    (metis distinct_sort_key eq_key_imp_eq_value map_of_SomeD map_of_eq_None_iff not_Some_eq
      set_map set_sort map_of_is_SomeI)

end
