(* ===== verification/ApiTypes.thy ===== *)
theory ApiTypes
  imports Json
begin

text \<open>
  The custom resources of \<open>api/v1alpha1\<close>: the specs of \<open>LogPilotPolicy\<close>, \<open>ClusterLogPilotPolicy\<close> and
  \<open>LogPilot\<close>, with the field names of the Go structs behind a two-letter prefix, and the JSON form
  of \<open>ContainerPolicy\<close> that travels in the Pod annotation.

  Third-party types enter as parameters or as the data the program reads off them: the label
  selector is the type variable \<open>'sel\<close>, resource requirements \<open>'res\<close>, and \<open>apiextensionsv1.JSON\<close> is
  the document its raw bytes hold, \<open>None\<close> when they hold none (\<open>raw_json\<close>). A Go \<open>int\<close> is an \<open>int\<close>;
  the decoder rejects what does not fit 64 bits.
\<close>

type_synonym raw_json = "json option"
type_synonym config = "(string, raw_json) gomap"

record InputSpec =
  in_Type :: string
  in_BatchLen :: int
  in_Config :: config

record TransformSpec =
  tr_Type :: string
  tr_BatchLen :: int
  tr_Config :: config

record OutputSpec =
  out_Type :: string
  out_BatchLen :: int
  out_BatchSize :: int
  out_BatchInterval :: int
  out_Config :: config

record CleanSpec =
  cl_Strategy :: string
  cl_RetainDays :: int
  cl_Interval :: int
  cl_ReserveFileNumber :: int
  cl_ReserveFileSize :: int

record ContainerPolicy =
  cp_Name :: string
  cp_LogType :: string
  cp_Path :: string
  cp_Collector :: string
  cp_Delivery :: string
  cp_BatchLen :: int
  cp_BatchSize :: int
  cp_BatchInterval :: int
  cp_Input :: InputSpec
  cp_Transforms :: "TransformSpec list"
  cp_Output :: OutputSpec
  cp_Clean :: CleanSpec

record 'sel LogPilotPolicySpec =
  ps_Selector :: "'sel option"
  ps_Containers :: "ContainerPolicy list"
  ps_Input :: "InputSpec option"
  ps_Transforms :: "TransformSpec list"
  ps_Output :: "OutputSpec option"

record ClusterLogPilotPolicySpec =
  cs_Input :: InputSpec
  cs_Transforms :: "TransformSpec list"
  cs_Output :: OutputSpec

record AgentSelfLogSpec =
  sl_Dir :: string
  sl_ReserveCount :: int

record 'res AgentSpec =
  ag_ConfigDir :: string
  ag_MetaDir :: string
  ag_LogDir :: string
  ag_SelfLog :: AgentSelfLogSpec
  ag_Resources :: 'res

record 'res APISpec =
  ap_Replicas :: int
  ap_Resources :: 'res

record 'res LogPilotSpec =
  lp_Agent :: "'res AgentSpec"
  lp_API :: "'res APISpec"

text \<open>The parts of \<open>metav1.ObjectMeta\<close> and \<open>metav1.Condition\<close> the program reads or writes.\<close>

record ObjectMeta =
  om_Name :: string
  om_Namespace :: string
  om_UID :: string
  om_Labels :: "(string, string) gomap"
  om_Annotations :: "(string, string) gomap option"
  om_Generation :: int
  om_Finalizers :: "string list"
  om_DeletionTimestamp :: "int option"
  om_ResourceVersion :: string

record Condition =
  co_Type :: string
  co_Status :: string
  co_ObservedGeneration :: int
  co_Reason :: string
  co_Message :: string

record 'sel LogPilotPolicy =
  pp_Meta :: ObjectMeta
  pp_Spec :: "'sel LogPilotPolicySpec"
  pp_Conditions :: "Condition list"

record ClusterLogPilotPolicy =
  cc_Meta :: ObjectMeta
  cc_Spec :: ClusterLogPilotPolicySpec
  cc_Conditions :: "Condition list"

record 'res LogPilot =
  lo_Meta :: ObjectMeta
  lo_Spec :: "'res LogPilotSpec"
  lo_Conditions :: "Condition list"

section \<open>The JSON form of a container policy\<close>

text \<open>\<open>omitempty\<close> leaves out the zero value of a string, an integer, a slice or a map; it has no effect
  on a struct.\<close>

definition omit_str :: "string \<Rightarrow> string \<Rightarrow> (string \<times> json) list" where
  "omit_str tag s = (if s = [] then [] else [(tag, JStr s)])"

definition omit_int :: "string \<Rightarrow> int \<Rightarrow> (string \<times> json) list" where
  "omit_int tag i = (if i = 0 then [] else [(tag, JNum (show_int i))])"

text \<open>A map is written in the order of its keys; a value that holds no document is a marshalling
  error.\<close>

fun enc_members :: "config \<Rightarrow> (string \<times> json) list option" where
  "enc_members [] = Some []"
| "enc_members ((k, r) # m) = do { j \<leftarrow> r; ms \<leftarrow> enc_members m; Some ((k, j) # ms) }"

definition enc_config :: "config \<Rightarrow> (string \<times> json) list option" where
  "enc_config m =
     (if m = [] then Some [] else do { ms \<leftarrow> enc_members (sort_key fst m); Some [(''config'', JObj ms)] })"

definition enc_InputSpec :: "InputSpec \<Rightarrow> json option" where
  "enc_InputSpec x = do {
     c \<leftarrow> enc_config (in_Config x);
     Some (JObj ([(''type'', JStr (in_Type x))] @ omit_int ''batchLen'' (in_BatchLen x) @ c)) }"

definition enc_TransformSpec :: "TransformSpec \<Rightarrow> json option" where
  "enc_TransformSpec x = do {
     c \<leftarrow> enc_config (tr_Config x);
     Some (JObj ([(''type'', JStr (tr_Type x))] @ omit_int ''batchLen'' (tr_BatchLen x) @ c)) }"

definition enc_OutputSpec :: "OutputSpec \<Rightarrow> json option" where
  "enc_OutputSpec x = do {
     c \<leftarrow> enc_config (out_Config x);
     Some (JObj ([(''type'', JStr (out_Type x))] @ omit_int ''batchLen'' (out_BatchLen x)
       @ omit_int ''batchSize'' (out_BatchSize x) @ omit_int ''batchInterval'' (out_BatchInterval x) @ c)) }"

definition enc_CleanSpec :: "CleanSpec \<Rightarrow> json" where
  "enc_CleanSpec x =
     JObj (omit_str ''strategy'' (cl_Strategy x) @ omit_int ''retainDays'' (cl_RetainDays x)
       @ omit_int ''interval'' (cl_Interval x) @ omit_int ''reserveFileNumber'' (cl_ReserveFileNumber x)
       @ omit_int ''reserveFileSize'' (cl_ReserveFileSize x))"

fun enc_all :: "('a \<Rightarrow> json option) \<Rightarrow> 'a list \<Rightarrow> json list option" where
  "enc_all f [] = Some []"
| "enc_all f (x # xs) = do { j \<leftarrow> f x; js \<leftarrow> enc_all f xs; Some (j # js) }"

definition enc_ContainerPolicy :: "ContainerPolicy \<Rightarrow> json option" where
  "enc_ContainerPolicy x = do {
     i \<leftarrow> enc_InputSpec (cp_Input x);
     ts \<leftarrow> enc_all enc_TransformSpec (cp_Transforms x);
     o' \<leftarrow> enc_OutputSpec (cp_Output x);
     Some (JObj ([(''name'', JStr (cp_Name x)), (''logType'', JStr (cp_LogType x)), (''path'', JStr (cp_Path x))]
       @ omit_str ''collector'' (cp_Collector x) @ omit_str ''delivery'' (cp_Delivery x)
       @ omit_int ''batchLen'' (cp_BatchLen x) @ omit_int ''batchSize'' (cp_BatchSize x)
       @ omit_int ''batchInterval'' (cp_BatchInterval x)
       @ [(''input'', i)] @ (if ts = [] then [] else [(''transforms'', JArr ts)])
       @ [(''output'', o'), (''clean'', enc_CleanSpec (cp_Clean x))])) }"

text \<open>Decoding: absent fields keep the zero value of the struct.\<close>

definition dec_raw :: "json \<Rightarrow> raw_json option" where
  "dec_raw j = Some (Some j)"

definition dec_config :: "json \<Rightarrow> config option" where
  "dec_config j = map_option (\<lambda>m. case m of None \<Rightarrow> [] | Some c \<Rightarrow> c) (dec_map dec_raw j)"

fun dec_InputSpec :: "json \<Rightarrow> InputSpec option" where
  "dec_InputSpec (JObj ms) = do {
     let tags = [''type'', ''batchLen'', ''config''];
     t \<leftarrow> dec_field dec_string [] (field_vals tags ''type'' ms);
     b \<leftarrow> dec_field dec_int64 0 (field_vals tags ''batchLen'' ms);
     c \<leftarrow> dec_field dec_config [] (field_vals tags ''config'' ms);
     Some \<lparr>in_Type = t, in_BatchLen = b, in_Config = c\<rparr> }"
| "dec_InputSpec _ = None"

fun dec_TransformSpec :: "json \<Rightarrow> TransformSpec option" where
  "dec_TransformSpec (JObj ms) = do {
     let tags = [''type'', ''batchLen'', ''config''];
     t \<leftarrow> dec_field dec_string [] (field_vals tags ''type'' ms);
     b \<leftarrow> dec_field dec_int64 0 (field_vals tags ''batchLen'' ms);
     c \<leftarrow> dec_field dec_config [] (field_vals tags ''config'' ms);
     Some \<lparr>tr_Type = t, tr_BatchLen = b, tr_Config = c\<rparr> }"
| "dec_TransformSpec JNull = Some \<lparr>tr_Type = [], tr_BatchLen = 0, tr_Config = []\<rparr>"
| "dec_TransformSpec _ = None"

fun dec_OutputSpec :: "json \<Rightarrow> OutputSpec option" where
  "dec_OutputSpec (JObj ms) = do {
     let tags = [''type'', ''batchLen'', ''batchSize'', ''batchInterval'', ''config''];
     t \<leftarrow> dec_field dec_string [] (field_vals tags ''type'' ms);
     b \<leftarrow> dec_field dec_int64 0 (field_vals tags ''batchLen'' ms);
     s \<leftarrow> dec_field dec_int64 0 (field_vals tags ''batchSize'' ms);
     i \<leftarrow> dec_field dec_int64 0 (field_vals tags ''batchInterval'' ms);
     c \<leftarrow> dec_field dec_config [] (field_vals tags ''config'' ms);
     Some \<lparr>out_Type = t, out_BatchLen = b, out_BatchSize = s, out_BatchInterval = i, out_Config = c\<rparr> }"
| "dec_OutputSpec _ = None"

fun dec_CleanSpec :: "json \<Rightarrow> CleanSpec option" where
  "dec_CleanSpec (JObj ms) = do {
     let tags = [''strategy'', ''retainDays'', ''interval'', ''reserveFileNumber'', ''reserveFileSize''];
     s \<leftarrow> dec_field dec_string [] (field_vals tags ''strategy'' ms);
     d \<leftarrow> dec_field dec_int64 0 (field_vals tags ''retainDays'' ms);
     i \<leftarrow> dec_field dec_int64 0 (field_vals tags ''interval'' ms);
     n \<leftarrow> dec_field dec_int64 0 (field_vals tags ''reserveFileNumber'' ms);
     z \<leftarrow> dec_field dec_int64 0 (field_vals tags ''reserveFileSize'' ms);
     Some \<lparr>cl_Strategy = s, cl_RetainDays = d, cl_Interval = i, cl_ReserveFileNumber = n,
       cl_ReserveFileSize = z\<rparr> }"
| "dec_CleanSpec _ = None"

definition zero_InputSpec :: InputSpec where
  "zero_InputSpec = \<lparr>in_Type = [], in_BatchLen = 0, in_Config = []\<rparr>"

definition zero_OutputSpec :: OutputSpec where
  "zero_OutputSpec = \<lparr>out_Type = [], out_BatchLen = 0, out_BatchSize = 0, out_BatchInterval = 0, out_Config = []\<rparr>"

definition zero_CleanSpec :: CleanSpec where
  "zero_CleanSpec = \<lparr>cl_Strategy = [], cl_RetainDays = 0, cl_Interval = 0, cl_ReserveFileNumber = 0,
     cl_ReserveFileSize = 0\<rparr>"

definition cp_tags :: "string list" where
  "cp_tags = [''name'', ''logType'', ''path'', ''collector'', ''delivery'', ''batchLen'', ''batchSize'',
     ''batchInterval'', ''input'', ''transforms'', ''output'', ''clean'']"

fun dec_ContainerPolicy :: "json \<Rightarrow> ContainerPolicy option" where
  "dec_ContainerPolicy (JObj ms) = do {
     n \<leftarrow> dec_field dec_string [] (field_vals cp_tags ''name'' ms);
     l \<leftarrow> dec_field dec_string [] (field_vals cp_tags ''logType'' ms);
     p \<leftarrow> dec_field dec_string [] (field_vals cp_tags ''path'' ms);
     c \<leftarrow> dec_field dec_string [] (field_vals cp_tags ''collector'' ms);
     d \<leftarrow> dec_field dec_string [] (field_vals cp_tags ''delivery'' ms);
     b \<leftarrow> dec_field dec_int64 0 (field_vals cp_tags ''batchLen'' ms);
     s \<leftarrow> dec_field dec_int64 0 (field_vals cp_tags ''batchSize'' ms);
     v \<leftarrow> dec_field dec_int64 0 (field_vals cp_tags ''batchInterval'' ms);
     i \<leftarrow> dec_field dec_InputSpec zero_InputSpec (field_vals cp_tags ''input'' ms);
     ts \<leftarrow> dec_field (dec_list dec_TransformSpec) [] (field_vals cp_tags ''transforms'' ms);
     o' \<leftarrow> dec_field dec_OutputSpec zero_OutputSpec (field_vals cp_tags ''output'' ms);
     cl \<leftarrow> dec_field dec_CleanSpec zero_CleanSpec (field_vals cp_tags ''clean'' ms);
     Some \<lparr>cp_Name = n, cp_LogType = l, cp_Path = p, cp_Collector = c, cp_Delivery = d, cp_BatchLen = b,
       cp_BatchSize = s, cp_BatchInterval = v, cp_Input = i, cp_Transforms = ts, cp_Output = o', cp_Clean = cl\<rparr> }"
| "dec_ContainerPolicy JNull = Some \<lparr>cp_Name = [], cp_LogType = [], cp_Path = [], cp_Collector = [],
     cp_Delivery = [], cp_BatchLen = 0, cp_BatchSize = 0, cp_BatchInterval = 0, cp_Input = zero_InputSpec,
     cp_Transforms = [], cp_Output = zero_OutputSpec, cp_Clean = zero_CleanSpec\<rparr>"
| "dec_ContainerPolicy _ = None"

text \<open>\<open>json.Marshal\<close> and \<open>json.Unmarshal\<close> of a \<open>[]ContainerPolicy\<close>.\<close>

definition marshal_policies :: "ContainerPolicy list \<Rightarrow> string option" where
  "marshal_policies cps = do { js \<leftarrow> enc_all enc_ContainerPolicy cps; Some (json_print (JArr js)) }"

definition unmarshal_policies :: "string \<Rightarrow> ContainerPolicy list option" where
  "unmarshal_policies s = do { j \<leftarrow> json_parse s; dec_list dec_ContainerPolicy j }"

section \<open>Round trip\<close>

text \<open>
  A configuration in canonical form: keys in order and every value a document with integer numbers.
  A Go map has no order, so every configuration of documents has such a form.
\<close>

definition config_ok :: "config \<Rightarrow> bool" where
  "config_ok m = (sorted (map fst m) \<and> distinct (map fst m)
     \<and> (\<forall>(k, r) \<in> set m. case r of None \<Rightarrow> False | Some j \<Rightarrow> int_nums j))"

definition input_ok :: "InputSpec \<Rightarrow> bool" where
  "input_ok x = (config_ok (in_Config x) \<and> int64_ok (in_BatchLen x))"

definition transform_ok :: "TransformSpec \<Rightarrow> bool" where
  "transform_ok x = (config_ok (tr_Config x) \<and> int64_ok (tr_BatchLen x))"

definition output_ok :: "OutputSpec \<Rightarrow> bool" where
  "output_ok x = (config_ok (out_Config x) \<and> int64_ok (out_BatchLen x) \<and> int64_ok (out_BatchSize x)
     \<and> int64_ok (out_BatchInterval x))"

definition clean_ok :: "CleanSpec \<Rightarrow> bool" where
  "clean_ok x = (int64_ok (cl_RetainDays x) \<and> int64_ok (cl_Interval x) \<and> int64_ok (cl_ReserveFileNumber x)
     \<and> int64_ok (cl_ReserveFileSize x))"

definition policy_ok :: "ContainerPolicy \<Rightarrow> bool" where
  "policy_ok x = (int64_ok (cp_BatchLen x) \<and> int64_ok (cp_BatchSize x) \<and> int64_ok (cp_BatchInterval x)
     \<and> input_ok (cp_Input x) \<and> (\<forall>t \<in> set (cp_Transforms x). transform_ok t) \<and> output_ok (cp_Output x)
     \<and> clean_ok (cp_Clean x))"

lemma dec_members_raw:
  "distinct (map fst m @ map fst ms) \<Longrightarrow>
     dec_members dec_raw m ms = Some (m @ map (\<lambda>(k, j). (k, Some j)) ms)"
proof (induction ms arbitrary: m)
  case Nil
  then show ?case by simp
next
  case (Cons kj ms)
  obtain k j where kj: "kj = (k, j)" by (cases kj)
  with Cons.prems have "gm_put k (Some j) m = m @ [(k, Some j)]"
    by (intro gm_put_new) auto
  with Cons kj show ?case by (simp add: dec_raw_def)
qed

lemma enc_members_docs:
  assumes "\<forall>(k, r) \<in> set m. case r of None \<Rightarrow> False | Some j \<Rightarrow> int_nums j"
  shows "\<exists>ms. enc_members m = Some ms \<and> map (\<lambda>(k, j). (k, Some j)) ms = m \<and> map fst ms = map fst m
    \<and> int_nums (JObj ms)"
  using assms by (induction m rule: enc_members.induct) (auto split: option.splits)

lemma enc_config_ok:
  assumes "config_ok m"
  shows "\<exists>ms. enc_config m = Some (if m = [] then [] else [(''config'', JObj ms)])
    \<and> dec_config (JObj ms) = Some m \<and> int_nums (JObj ms)"
proof -
  from assms have m: "sorted (map fst m)" "distinct (map fst m)"
    "\<forall>(k, r) \<in> set m. case r of None \<Rightarrow> False | Some j \<Rightarrow> int_nums j"
    by (auto simp: config_ok_def)
  from enc_members_docs[OF m(3)] obtain ms where ms: "enc_members m = Some ms"
    "map (\<lambda>(k, j). (k, Some j)) ms = m" "map fst ms = map fst m" "int_nums (JObj ms)" by blast
  have "sort_key fst m = m" using m(1) by (rule sort_key_id_if_sorted)
  with ms m(2) show ?thesis
    by (intro exI[of _ ms]) (auto simp: enc_config_def dec_config_def dec_members_raw)
qed

lemma field_match_tag: "k \<in> set tags \<Longrightarrow> field_match tags tag k = (k = tag)"
  by (auto simp: field_match_def)

lemma field_vals_append [simp]: "field_vals tags tag (xs @ ys) = field_vals tags tag xs @ field_vals tags tag ys"
  by (simp add: field_vals_def)

lemma field_vals_Cons:
  "k \<in> set tags \<Longrightarrow> field_vals tags tag ((k, v) # ms) = (if k = tag then v # field_vals tags tag ms else field_vals tags tag ms)"
  by (simp add: field_vals_def field_match_tag)

lemma field_vals_Nil [simp]: "field_vals tags tag [] = []"
  by (simp add: field_vals_def)

lemma field_vals_omit_str:
  "k \<in> set tags \<Longrightarrow> field_vals tags tag (omit_str k s) = (if k = tag \<and> s \<noteq> [] then [JStr s] else [])"
  by (auto simp: omit_str_def field_vals_Cons)

lemma field_vals_omit_int:
  "k \<in> set tags \<Longrightarrow> field_vals tags tag (omit_int k i) = (if k = tag \<and> i \<noteq> 0 then [JNum (show_int i)] else [])"
  by (auto simp: omit_int_def field_vals_Cons)

lemma field_vals_if:
  "field_vals tags tag (if c then [] else ms) = (if c then [] else field_vals tags tag ms)"
  by simp

lemmas member_simps = field_vals_Cons field_vals_omit_str field_vals_omit_int field_vals_if

lemma dec_string_omit [simp]:
  "dec_field dec_string [] (if s \<noteq> [] then [JStr s] else []) = Some s"
  by simp

lemma dec_int_omit [simp]:
  "int64_ok i \<Longrightarrow> dec_field dec_int64 0 (if i \<noteq> 0 then [JNum (show_int i)] else []) = Some i"
  by (simp add: read_int_show_int)

lemma int_nums_omit [simp]:
  "\<forall>(k, v) \<in> set (omit_str tag s). int_nums v" "\<forall>(k, v) \<in> set (omit_int tag i). int_nums v"
  by (auto simp: omit_str_def omit_int_def)

lemma dec_InputSpec_enc:
  assumes "input_ok x"
  shows "\<exists>j. enc_InputSpec x = Some j \<and> dec_InputSpec j = Some x \<and> int_nums j"
proof -
  from assms obtain ms where ms: "enc_config (in_Config x) = Some (if in_Config x = [] then [] else [(''config'', JObj ms)])"
    "dec_config (JObj ms) = Some (in_Config x)" "int_nums (JObj ms)" and b: "int64_ok (in_BatchLen x)"
    unfolding input_ok_def using enc_config_ok by blast
  then show ?thesis
    by (auto simp: enc_InputSpec_def member_simps ball_Un)
qed

lemma dec_TransformSpec_enc:
  assumes "transform_ok x"
  shows "\<exists>j. enc_TransformSpec x = Some j \<and> dec_TransformSpec j = Some x \<and> int_nums j"
proof -
  from assms obtain ms where ms: "enc_config (tr_Config x) = Some (if tr_Config x = [] then [] else [(''config'', JObj ms)])"
    "dec_config (JObj ms) = Some (tr_Config x)" "int_nums (JObj ms)" and b: "int64_ok (tr_BatchLen x)"
    unfolding transform_ok_def using enc_config_ok by blast
  then show ?thesis
    by (auto simp: enc_TransformSpec_def member_simps ball_Un)
qed

lemma dec_OutputSpec_enc:
  assumes "output_ok x"
  shows "\<exists>j. enc_OutputSpec x = Some j \<and> dec_OutputSpec j = Some x \<and> int_nums j"
proof -
  from assms obtain ms where ms: "enc_config (out_Config x) = Some (if out_Config x = [] then [] else [(''config'', JObj ms)])"
    "dec_config (JObj ms) = Some (out_Config x)" "int_nums (JObj ms)"
    and b: "int64_ok (out_BatchLen x)" "int64_ok (out_BatchSize x)" "int64_ok (out_BatchInterval x)"
    unfolding output_ok_def using enc_config_ok by blast
  then show ?thesis
    by (auto simp: enc_OutputSpec_def member_simps ball_Un)
qed

lemma dec_CleanSpec_enc:
  assumes "clean_ok x"
  shows "dec_CleanSpec (enc_CleanSpec x) = Some x" "int_nums (enc_CleanSpec x)"
  using assms by (auto simp: clean_ok_def enc_CleanSpec_def member_simps ball_Un)

lemma dec_all_enc:
  assumes "\<forall>x \<in> set xs. \<exists>j. f x = Some j \<and> g j = Some x \<and> int_nums j"
  shows "\<exists>js. enc_all f xs = Some js \<and> dec_all g js = Some xs \<and> (\<forall>j \<in> set js. int_nums j) \<and> (js = [] \<longleftrightarrow> xs = [])"
  using assms by (induction xs) auto

lemma enc_not_null:
  "enc_InputSpec x = Some j \<Longrightarrow> j \<noteq> JNull" "enc_OutputSpec y = Some j \<Longrightarrow> j \<noteq> JNull" "enc_CleanSpec z \<noteq> JNull"
  by (auto simp: enc_InputSpec_def enc_OutputSpec_def enc_CleanSpec_def split: bind_splits)

lemma dec_ContainerPolicy_enc:
  assumes "policy_ok x"
  shows "\<exists>j. enc_ContainerPolicy x = Some j \<and> dec_ContainerPolicy j = Some x \<and> int_nums j"
proof -
  from assms have ok: "int64_ok (cp_BatchLen x)" "int64_ok (cp_BatchSize x)" "int64_ok (cp_BatchInterval x)"
    by (auto simp: policy_ok_def)
  from assms obtain i where i: "enc_InputSpec (cp_Input x) = Some i" "dec_InputSpec i = Some (cp_Input x)" "int_nums i"
    unfolding policy_ok_def using dec_InputSpec_enc by blast
  from assms obtain o' where o': "enc_OutputSpec (cp_Output x) = Some o'" "dec_OutputSpec o' = Some (cp_Output x)" "int_nums o'"
    unfolding policy_ok_def using dec_OutputSpec_enc by blast
  from assms obtain ts where ts: "enc_all enc_TransformSpec (cp_Transforms x) = Some ts"
    "dec_all dec_TransformSpec ts = Some (cp_Transforms x)" "\<forall>j \<in> set ts. int_nums j" "ts = [] \<longleftrightarrow> cp_Transforms x = []"
    unfolding policy_ok_def using dec_all_enc[of "cp_Transforms x" enc_TransformSpec dec_TransformSpec] dec_TransformSpec_enc
    by blast
  have cl: "dec_CleanSpec (enc_CleanSpec (cp_Clean x)) = Some (cp_Clean x)" "int_nums (enc_CleanSpec (cp_Clean x))"
    using assms dec_CleanSpec_enc by (auto simp: policy_ok_def)
  have tags: "set cp_tags = {''name'', ''logType'', ''path'', ''collector'', ''delivery'', ''batchLen'', ''batchSize'',
     ''batchInterval'', ''input'', ''transforms'', ''output'', ''clean''}"
    by (simp add: cp_tags_def)
  note nn = enc_not_null(1)[OF i(1)] enc_not_null(2)[OF o'(1)] enc_not_null(3)[of "cp_Clean x"]
  show ?thesis
    using ok i o' ts cl nn
    by (auto simp: enc_ContainerPolicy_def member_simps tags ball_Un)
qed

lemma unmarshal_marshal_policies:
  assumes "\<forall>x \<in> set cps. policy_ok x"
  shows "\<exists>s. marshal_policies cps = Some s \<and> unmarshal_policies s = Some cps"
proof -
  from assms have "\<exists>js. enc_all enc_ContainerPolicy cps = Some js \<and> dec_all dec_ContainerPolicy js = Some cps
      \<and> (\<forall>j \<in> set js. int_nums j) \<and> (js = [] \<longleftrightarrow> cps = [])"
    by (intro dec_all_enc) (auto intro: dec_ContainerPolicy_enc)
  then obtain js where js: "enc_all enc_ContainerPolicy cps = Some js" "dec_all dec_ContainerPolicy js = Some cps"
    "\<forall>j \<in> set js. int_nums j" by blast
  then have "json_parse (json_print (JArr js)) = Some (JArr js)"
    by (intro json_parse_print) simp
  with js show ?thesis by (simp add: marshal_policies_def unmarshal_policies_def)
qed

section \<open>Properties\<close>

text \<open>The annotation the webhook writes is read back by the agent as the same list of policies.\<close>

theorem policies_roundtrip:
  assumes "list_all policy_ok cps"
  shows "Option.bind (marshal_policies cps) unmarshal_policies = Some cps"
  using unmarshal_marshal_policies[of cps] assms by (auto simp: list_all_iff)


theorem policies_roundtrip_witness:
  "let cps = [\<lparr>cp_Name = ''app'', cp_LogType = ''access'', cp_Path = ''/logs'', cp_Collector = [], cp_Delivery = ''bestEffort'',
      cp_BatchLen = 5, cp_BatchSize = 0, cp_BatchInterval = 0, cp_Input = zero_InputSpec,
      cp_Transforms = [\<lparr>tr_Type = ''json'', tr_BatchLen = 0, tr_Config = []\<rparr>],
      cp_Output = zero_OutputSpec\<lparr>out_Type := ''file'', out_Config := [(''path'', Some (JStr ''/o''))]\<rparr>,
      cp_Clean = zero_CleanSpec\<rparr>]
   in Option.bind (marshal_policies cps) unmarshal_policies = Some cps"
  unfolding Let_def
  by (rule policies_roundtrip) (simp add: policy_ok_def input_ok_def transform_ok_def output_ok_def clean_ok_def
    config_ok_def int64_ok_def zero_InputSpec_def zero_OutputSpec_def zero_CleanSpec_def)

end
