(* ===== verification/Transforms.thy ===== *)
theory Transforms
  imports ApiTypes
begin

text \<open>
  \<open>internal/log-pilot-agent/input/input.go\<close> (the record) and \<open>internal/log-pilot-agent/transform\<close>: the
  three transforms, one function each, and their factory. A transform maps a batch to a batch or an
  error. The locale \<open>batch_transform\<close> is the contract the runner's delivery argument needs of one: it
  does not fail and treats a batch record by record. Every transform of the factory satisfies it.
\<close>

record LogRecord =
  rec_Data :: string
  rec_Offset :: int
  rec_Meta :: "(string, string) gomap option"

text \<open>A nil map reads as the empty one.\<close>

definition rec_meta :: "LogRecord \<Rightarrow> (string, string) gomap" where
  "rec_meta r = (case rec_Meta r of None \<Rightarrow> [] | Some m \<Rightarrow> m)"

datatype transform =
    JSONTransform
  | LabelTransform "(string, string) gomap"
  | DropTransform string string

section \<open>The transforms\<close>

definition json_one :: "LogRecord \<Rightarrow> LogRecord" where
  "json_one r =
     (case json_parse (rec_Data r) of
        None \<Rightarrow> r
      | Some j \<Rightarrow>
          (case dec_string_map j of
             None \<Rightarrow> r
           | Some m \<Rightarrow>
               r\<lparr>rec_Meta := Some (gm_copy (rec_meta r) (case m of None \<Rightarrow> [] | Some kvs \<Rightarrow> kvs))\<rparr>))"

definition jsonTransform :: "LogRecord list \<Rightarrow> gerr + LogRecord list" where
  "jsonTransform records = Inr (map json_one records)"

definition label_one :: "(string, string) gomap \<Rightarrow> LogRecord \<Rightarrow> LogRecord" where
  "label_one flds r = r\<lparr>rec_Meta := Some (gm_copy (rec_meta r) flds)\<rparr>"

definition labelTransform :: "(string, string) gomap \<Rightarrow> LogRecord list \<Rightarrow> gerr + LogRecord list" where
  "labelTransform flds records = Inr (map (label_one flds) records)"

text \<open>
  The drop transform filters in place: \<open>out := records[:0]\<close> shares the array of \<open>records\<close>, so every
  \<open>append\<close> writes index \<open>w\<close> of the array the loop is still reading at index \<open>i\<close>.
\<close>

definition drop_keeps :: "string \<Rightarrow> string \<Rightarrow> LogRecord \<Rightarrow> bool" where
  "drop_keeps key value r = (gm_str (rec_meta r) key \<noteq> value)"

function drop_loop :: "('a \<Rightarrow> bool) \<Rightarrow> nat \<Rightarrow> nat \<Rightarrow> 'a list \<Rightarrow> 'a list" where
  "drop_loop keep i w arr =
     (if i < length arr then
        (let r = arr ! i
         in if keep r then drop_loop keep (Suc i) (Suc w) (arr[w := r])
            else drop_loop keep (Suc i) w arr)
      else take w arr)"
  by pat_completeness auto
termination
  by (relation "measure (\<lambda>(keep, i, w, arr). length arr - i)") auto

declare drop_loop.simps [simp del]

definition dropTransform :: "string \<Rightarrow> string \<Rightarrow> LogRecord list \<Rightarrow> gerr + LogRecord list" where
  "dropTransform key value records = Inr (drop_loop (drop_keeps key value) 0 0 records)"

fun Transform :: "transform \<Rightarrow> LogRecord list \<Rightarrow> gerr + LogRecord list" where
  "Transform JSONTransform records = jsonTransform records"
| "Transform (LabelTransform flds) records = labelTransform flds records"
| "Transform (DropTransform key value) records = dropTransform key value records"

section \<open>The factory\<close>

datatype config_error = MissingKey string | BadValue string

datatype factory_error =
    ConfigError string config_error
  | UnknownType string
  | BadCACert

text \<open>\<open>json.Unmarshal(v.Raw, ...)\<close> into a Go type given by its decoder.\<close>

definition extractValue :: "(json \<Rightarrow> 'a option) \<Rightarrow> config \<Rightarrow> string \<Rightarrow> config_error + 'a" where
  "extractValue dec c key =
     (case gm_get c key of
        None \<Rightarrow> Inl (MissingKey key)
      | Some raw \<Rightarrow>
          (case Option.bind raw dec of None \<Rightarrow> Inl (BadValue key) | Some x \<Rightarrow> Inr x))"

definition extractString :: "config \<Rightarrow> string \<Rightarrow> config_error + string" where
  "extractString c key = extractValue dec_string c key"

definition extractStringMap :: "config \<Rightarrow> string \<Rightarrow> config_error + (string, string) gomap" where
  "extractStringMap c key =
     extractValue (\<lambda>j. map_option (\<lambda>m. case m of None \<Rightarrow> [] | Some kvs \<Rightarrow> kvs) (dec_string_map j)) c key"

definition NewTransform :: "TransformSpec \<Rightarrow> factory_error + transform" where
  "NewTransform spec =
     (if tr_Type spec = ''json'' then Inr JSONTransform
      else if tr_Type spec = ''label'' then
        (case extractStringMap (tr_Config spec) ''fields'' of
           Inl e \<Rightarrow> Inl (ConfigError ''label transform'' e)
         | Inr flds \<Rightarrow> Inr (LabelTransform flds))
      else if tr_Type spec = ''drop'' then
        (case extractString (tr_Config spec) ''key'' of
           Inl e \<Rightarrow> Inl (ConfigError ''drop transform'' e)
         | Inr key \<Rightarrow>
             (case extractString (tr_Config spec) ''value'' of
                Inl e \<Rightarrow> Inl (ConfigError ''drop transform'' e)
              | Inr value \<Rightarrow> Inr (DropTransform key value)))
      else Inl (UnknownType (tr_Type spec)))"

fun NewSliceFromSpecs :: "TransformSpec list \<Rightarrow> factory_error + transform list" where
  "NewSliceFromSpecs [] = Inr []"
| "NewSliceFromSpecs (s # specs) =
     (case NewTransform s of
        Inl e \<Rightarrow> Inl e
      | Inr t \<Rightarrow> (case NewSliceFromSpecs specs of Inl e \<Rightarrow> Inl e | Inr ts \<Rightarrow> Inr (t # ts)))"

section \<open>What the transforms do\<close>

lemma drop_loop_filter:
  "w \<le> i \<Longrightarrow> i \<le> length arr \<Longrightarrow>
     drop_loop keep i w arr = take w arr @ filter keep (drop i arr)"
proof (induction keep i w arr rule: drop_loop.induct)
  case (1 keep i w arr)
  show ?case
  proof (cases "i < length arr")
    case False
    with "1.prems" show ?thesis by (simp add: drop_loop.simps)
  next
    case True
    then have drop_i: "drop i arr = arr ! i # drop (Suc i) arr"
      by (rule Cons_nth_drop_Suc[symmetric])
    show ?thesis
    proof (cases "keep (arr ! i)")
      case keeps: True
      have "drop (Suc i) (arr[w := arr ! i]) = drop (Suc i) arr"
        using "1.prems"(1) by (simp add: drop_update_cancel)
      moreover have "take (Suc w) (arr[w := arr ! i]) = take w arr @ [arr ! i]"
        using True "1.prems"(1) by (simp add: take_Suc_conv_app_nth)
      moreover have "drop_loop keep (Suc i) (Suc w) (arr[w := arr ! i]) =
          take (Suc w) (arr[w := arr ! i]) @ filter keep (drop (Suc i) (arr[w := arr ! i]))"
        using "1.IH"(1)[OF True refl keeps] True "1.prems"(1) by simp
      ultimately show ?thesis
        using True keeps by (subst drop_loop.simps) (simp add: drop_i)
    next
      case False
      then have "drop_loop keep (Suc i) w arr = take w arr @ filter keep (drop (Suc i) arr)"
        using "1.IH"(2)[OF True refl] True "1.prems"(1) by simp
      with True False show ?thesis
        by (subst drop_loop.simps) (simp add: drop_i)
    qed
  qed
qed

text \<open>Filtering in place through the shared array is filtering.\<close>

lemma dropTransform_filter: "dropTransform key value records = Inr (filter (drop_keeps key value) records)"
  by (simp add: dropTransform_def drop_loop_filter)

lemma json_one_frame [frame_simps]: "rec_Data (json_one r) = rec_Data r" "rec_Offset (json_one r) = rec_Offset r"
  by (simp_all add: json_one_def split: option.split)

lemma label_one_frame [frame_simps]: "rec_Data (label_one f r) = rec_Data r" "rec_Offset (label_one f r) = rec_Offset r"
  by (simp_all add: label_one_def)

text \<open>
  The contract: a total, record-by-record batch function. \<open>out r\<close> is what one record becomes.
\<close>

locale batch_transform =
  fixes T :: "LogRecord list \<Rightarrow> gerr + LogRecord list"
    and out :: "LogRecord \<Rightarrow> LogRecord list"
  assumes batch: "T rs = Inr (concat (map out rs))"
begin

lemma never_fails: "T rs \<noteq> Inl e"
  by (simp add: batch)

lemma batch_append: "T (rs @ us) = Inr (concat (map out rs) @ concat (map out us))"
  by (simp add: batch)

lemma batch_origin: "T rs = Inr us \<Longrightarrow> u \<in> set us \<Longrightarrow> \<exists>r \<in> set rs. u \<in> set (out r)"
  by (auto simp: batch)

end

fun transform_out :: "transform \<Rightarrow> LogRecord \<Rightarrow> LogRecord list" where
  "transform_out JSONTransform r = [json_one r]"
| "transform_out (LabelTransform flds) r = [label_one flds r]"
| "transform_out (DropTransform key value) r = (if drop_keeps key value r then [r] else [])"

interpretation bt: batch_transform "Transform t" "transform_out t" for t
proof
  show "Transform t rs = Inr (concat (map (transform_out t) rs))" for rs
    by (cases t; induction rs) (simp_all add: jsonTransform_def labelTransform_def dropTransform_filter)
qed

lemma transform_out_data: "u \<in> set (transform_out t r) \<Longrightarrow> rec_Data u = rec_Data r \<and> rec_Offset u = rec_Offset r"
  by (cases t) (auto simp: frame_simps split: if_splits)

section \<open>The factory on every input\<close>

lemma NewSliceFromSpecs_Inr:
  "NewSliceFromSpecs specs = Inr ts \<longleftrightarrow> list_all2 (\<lambda>s t. NewTransform s = Inr t) specs ts"
proof (induction specs arbitrary: ts)
  case Nil
  then show ?case by auto
next
  case (Cons s specs)
  then show ?case
    by (auto simp: list_all2_Cons1 Cons[symmetric] split: sum.splits)
qed

lemma NewSliceFromSpecs_Inl:
  "NewSliceFromSpecs specs = Inl e \<longleftrightarrow>
     (\<exists>pre s post. specs = pre @ s # post \<and> NewTransform s = Inl e \<and> (\<forall>p \<in> set pre. \<exists>t. NewTransform p = Inr t))"
proof (induction specs)
  case Nil
  then show ?case by simp
next
  case (Cons s specs)
  show ?case
  proof (cases "NewTransform s")
    case (Inl e')
    then show ?thesis by (auto simp: Cons_eq_append_conv intro: exI[of _ "[]"])
  next
    case (Inr t)
    have "NewSliceFromSpecs (s # specs) = Inl e \<longleftrightarrow> NewSliceFromSpecs specs = Inl e"
      using Inr by (simp split: sum.split)
    also have "\<dots> \<longleftrightarrow> (\<exists>pre s' post. s # specs = (s # pre) @ s' # post \<and> NewTransform s' = Inl e
        \<and> (\<forall>p \<in> set (s # pre). \<exists>t. NewTransform p = Inr t))"
      using Cons.IH Inr by simp
    also have "\<dots> \<longleftrightarrow> (\<exists>pre s' post. s # specs = pre @ s' # post \<and> NewTransform s' = Inl e
        \<and> (\<forall>p \<in> set pre. \<exists>t. NewTransform p = Inr t))" (is "?L \<longleftrightarrow> ?R")
    proof
      assume ?R
      then obtain pre s' post where split: "s # specs = pre @ s' # post" "NewTransform s' = Inl e"
        "\<forall>p \<in> set pre. \<exists>t. NewTransform p = Inr t" by blast
      with Inr obtain pre' where "pre = s # pre'" by (cases pre) auto
      with split show ?L by blast
    qed blast
    finally show ?thesis .
  qed
qed

section \<open>Properties\<close>

text \<open>C40: the drop transform filters its batch in place, through a slice that shares the array it is still
  reading; the result is nevertheless the records whose field differs from the value, in order.\<close>

theorem drop_in_place_is_filter:
  "Transform (DropTransform key value) records = Inr (filter (\<lambda>r. gm_str (rec_meta r) key \<noteq> value) records)"
proof -
  have "drop_keeps key value = (\<lambda>r. gm_str (rec_meta r) key \<noteq> value)"
    by (simp add: fun_eq_iff drop_keeps_def)
  then show ?thesis by (simp add: dropTransform_filter)
qed

lemma dec_members_fail:
  "dec_members f m ms = None \<longleftrightarrow> (\<exists>(k, j) \<in> set ms. f j = None)"
  by (induction f m ms rule: dec_members.induct) (auto split: bind_splits)

lemma dec_members_get:
  "dec_members f m ms = Some m' \<Longrightarrow> distinct (map fst ms) \<Longrightarrow>
     gm_get m' k = (case map_of ms k of None \<Rightarrow> gm_get m k | Some j \<Rightarrow> f j)"
proof (induction f m ms rule: dec_members.induct)
  case (2 f m k' j ms)
  then obtain x where x: "f j = Some x" "dec_members f (gm_put k' x m) ms = Some m'" by (auto split: bind_splits)
  with 2 have "map_of ms k' = None" by (auto simp: map_of_eq_None_iff)
  with 2 x show ?case by (auto simp: gomap_simps split: option.splits)
qed simp

lemma dec_members_wf: "dec_members f m ms = Some m' \<Longrightarrow> gm_wf m \<Longrightarrow> gm_wf m'"
  by (induction f m ms rule: dec_members.induct) (auto split: bind_splits)

text \<open>What the json transform does to a record that holds a JSON object. If every member is a string
  (or null) the members become metadata, over what was there; if any member is a number, a boolean, an
  array or an object, the record is left as it is: none of its fields is extracted.\<close>

theorem json_transform_object:
  assumes "rec_Data r = json_print (JObj ms)" "int_nums (JObj ms)" "distinct (map fst ms)"
  shows "if \<forall>j\<in>snd ` set ms. dec_string j \<noteq> None
    then rec_Data (json_one r) = rec_Data r \<and> (\<forall>k. gm_get (rec_meta (json_one r)) k =
      (case map_of ms k of None \<Rightarrow> gm_get (rec_meta r) k | Some j \<Rightarrow> dec_string j))
    else json_one r = r"
proof (cases "dec_members dec_string [] ms")
  case None
  then obtain k j where "(k, j) \<in> set ms" "dec_string j = None" unfolding dec_members_fail by blast
  then have neg: "\<not> (\<forall>j\<in>snd ` set ms. dec_string j \<noteq> None)" by force
  show ?thesis unfolding if_not_P[OF neg]
    unfolding json_one_def assms(1) json_parse_print[OF assms(2)] by (simp add: dec_string_map_def None)
next
  case (Some m)
  then have "dec_members dec_string [] ms \<noteq> None" by simp
  then have all: "\<forall>j\<in>snd ` set ms. dec_string j \<noteq> None" unfolding dec_members_fail by force
  have "json_one r = r\<lparr>rec_Meta := Some (gm_copy (rec_meta r) m)\<rparr>"
    unfolding json_one_def assms(1) json_parse_print[OF assms(2)] by (simp add: dec_string_map_def Some)
  then have "gm_get (rec_meta (json_one r)) k = (case gm_get m k of None \<Rightarrow> gm_get (rec_meta r) k | Some v \<Rightarrow> Some v)" for k
    using gm_get_copy[OF dec_members_wf[OF Some], of "rec_meta r"] by (simp add: rec_meta_def split: option.split)
  moreover have "gm_get m k = (case map_of ms k of None \<Rightarrow> None | Some j \<Rightarrow> dec_string j)" for k
    using dec_members_get[OF Some assms(3)] by (simp split: option.split)
  ultimately have get: "gm_get (rec_meta (json_one r)) k =
      (case (case map_of ms k of None \<Rightarrow> None | Some j \<Rightarrow> dec_string j) of None \<Rightarrow> gm_get (rec_meta r) k | Some v \<Rightarrow> Some v)" for k
    by simp
  have "gm_get (rec_meta (json_one r)) k =
      (case map_of ms k of None \<Rightarrow> gm_get (rec_meta r) k | Some j \<Rightarrow> dec_string j)" for k
  proof (cases "map_of ms k")
    case None
    then show ?thesis by (simp add: get)
  next
    case (Some j)
    with all map_of_SomeD[OF Some] obtain y where "dec_string j = Some y" by force
    with Some show ?thesis by (simp add: get)
  qed
  then show ?thesis using all by (simp add: frame_simps)
qed

theorem json_transform_object_witness:
  "json_one \<lparr>rec_Data = json_print (JObj [(''level'', JStr ''info''), (''code'', JNum ''200'')]), rec_Offset = 0, rec_Meta = None\<rparr>
    = \<lparr>rec_Data = json_print (JObj [(''level'', JStr ''info''), (''code'', JNum ''200'')]), rec_Offset = 0, rec_Meta = None\<rparr>"
proof -
  let ?ms = "[(''level'', JStr ''info''), (''code'', JNum ''200'')]"
  let ?r = "\<lparr>rec_Data = json_print (JObj ?ms), rec_Offset = 0, rec_Meta = None\<rparr>"
  have "show_int 200 = ''200''" by code_simp
  then have i: "int_nums (JObj ?ms)" by (auto intro!: exI[of _ 200])
  have d: "distinct (map fst ?ms)" by simp
  show ?thesis using json_transform_object[OF _ i d, of ?r] by simp
qed

text \<open>Building the transforms of a policy succeeds with one transform for each spec, in order, or fails
  with the error of the first spec that cannot be built.\<close>

theorem NewSliceFromSpecs_first_error:
  "case NewSliceFromSpecs specs of
     Inr ts \<Rightarrow> map NewTransform specs = map Inr ts
   | Inl e \<Rightarrow> (\<exists>pre s post. specs = pre @ s # post \<and> NewTransform s = Inl e \<and> list_all (\<lambda>p. isl (NewTransform p) = False) pre)"
proof (cases "NewSliceFromSpecs specs")
  case (Inl e)
  then obtain pre s post where h: "specs = pre @ s # post" "NewTransform s = Inl e" "\<forall>p\<in>set pre. \<exists>t. NewTransform p = Inr t"
    unfolding NewSliceFromSpecs_Inl by blast
  then have "list_all (\<lambda>p. isl (NewTransform p) = False) pre" by (force simp: list_all_iff)
  with h have "\<exists>pre s post. specs = pre @ s # post \<and> NewTransform s = Inl e \<and> list_all (\<lambda>p. isl (NewTransform p) = False) pre"
    by blast
  with Inl show ?thesis by simp
next
  case (Inr ts)
  then have "list_all2 (\<lambda>s t. NewTransform s = Inr t) specs ts" by (simp add: NewSliceFromSpecs_Inr)
  with Inr show ?thesis by (auto simp: list_all2_conv_all_nth intro!: nth_equalityI)
qed

end
