(* ===== verification/Runner.thy ===== *)
theory Runner
  imports Transforms
begin

text \<open>
  \<open>internal/log-pilot-agent/runner/runner.go\<close>: the loop that reads a batch, transforms it, writes it with
  retries, commits the position, and on cancellation drains, closes and cleans.

  The interfaces \<open>input.Input\<close>, \<open>output.Output\<close> and \<open>clean.Clean\<close> are records of functions over one world
  \<open>'w\<close>, which holds the objects behind them and everything outside the runner; a nil interface is
  \<open>None\<close>, and calling a method of a nil Input is the panic the code has there. Contexts and timers
  are in \<open>env\<close>: \<open>ev_done\<close> is \<open>ctx.Err() != nil\<close>, \<open>ev_wait\<close> is the select between \<open>ctx.Done()\<close> and
  \<open>time.After\<close> (true when the context won), \<open>ev_timeout\<close> starts the drain context; durations are milliseconds. Loops take fuel and give \<open>None\<close> when it runs out.

  The locale \<open>pipeline\<close> states what inputs and outputs promise about the records read, acknowledged and
  committed; inside it the delivery guarantees of the runner are proved once.
\<close>

datatype ctx = RunCtx | DrainCtx

record 'w env =
  ev_done :: "ctx \<Rightarrow> 'w \<Rightarrow> bool"
  ev_wait :: "ctx \<Rightarrow> int \<Rightarrow> 'w \<Rightarrow> bool \<times> 'w"
  ev_cancel :: "'w \<Rightarrow> 'w"
  ev_timeout :: "int \<Rightarrow> 'w \<Rightarrow> 'w"

record 'w input_ops =
  io_ReadBatch :: "ctx \<Rightarrow> int \<Rightarrow> 'w \<Rightarrow> (gerr + LogRecord list) \<times> 'w"
  io_Commit :: "'w \<Rightarrow> gerr option \<times> 'w"
  io_Lag :: "'w \<Rightarrow> int"
  io_Close :: "'w \<Rightarrow> gerr option \<times> 'w"

record 'w output_ops =
  oo_WriteBatch :: "ctx \<Rightarrow> LogRecord list \<Rightarrow> 'w \<Rightarrow> gerr option \<times> 'w"
  oo_Close :: "'w \<Rightarrow> gerr option \<times> 'w"

text \<open>Of \<open>clean.RunnerMeta\<close> the runner fills in only the lag.\<close>

record 'w clean_ops =
  ko_Clean :: "int \<Rightarrow> 'w \<Rightarrow> gerr option \<times> 'w"

record 'w Config =
  rc_Name :: string
  rc_Input :: "'w input_ops option"
  rc_Transforms :: "(LogRecord list \<Rightarrow> gerr + LogRecord list) list"
  rc_Output :: "'w output_ops option"
  rc_Clean :: "'w clean_ops option"
  rc_BatchLen :: int

text \<open>The field \<open>cancel\<close>: nil, the no-op of an early \<open>Stop\<close>, or the function that cancels the run.\<close>

datatype cancel_fn = CancelNil | CancelNoop | CancelRun

record 'w Runner =
  rn_cfg :: "'w Config"
  rn_sent :: int
  rn_cancel :: cancel_fn
  rn_done :: bool

definition New :: "'w Config \<Rightarrow> 'w Runner" where
  "New cfg =
     (let cfg' = (if rc_BatchLen cfg = 0 then cfg\<lparr>rc_BatchLen := 1000\<rparr> else cfg)
      in \<lparr>rn_cfg = cfg', rn_sent = 0, rn_cancel = CancelNil, rn_done = False\<rparr>)"

definition Stop :: "'w env \<Rightarrow> 'w Runner \<Rightarrow> 'w \<Rightarrow> 'w Runner \<times> 'w" where
  "Stop ev r w =
     (case rn_cancel r of
        CancelRun \<Rightarrow> (r, ev_cancel ev w)
      | CancelNoop \<Rightarrow> (r, w)
      | CancelNil \<Rightarrow> (r\<lparr>rn_cancel := CancelNoop\<rparr>, w))"

definition Lag :: "'w Runner \<Rightarrow> 'w \<Rightarrow> int" where
  "Lag r w = (case rc_Input (rn_cfg r) of None \<Rightarrow> 0 | Some i \<Rightarrow> io_Lag i w)"

definition Sent :: "'w Runner \<Rightarrow> int" where
  "Sent r = rn_sent r"

fun applyTransforms ::
    "(LogRecord list \<Rightarrow> gerr + LogRecord list) list \<Rightarrow> LogRecord list \<Rightarrow> LogRecord list" where
  "applyTransforms [] records = records"
| "applyTransforms (t # ts) records =
     (case t records of
        Inl e \<Rightarrow> []
      | Inr records' \<Rightarrow> (if records' = [] then [] else applyTransforms ts records'))"

fun write_retry ::
    "nat \<Rightarrow> 'w env \<Rightarrow> 'w output_ops \<Rightarrow> ctx \<Rightarrow> LogRecord list \<Rightarrow> int \<Rightarrow> 'w \<Rightarrow> (bool \<times> 'w) option" where
  "write_retry 0 ev out c records backoff w = None"
| "write_retry (Suc n) ev out c records backoff w =
     (case oo_WriteBatch out c records w of
        (None, w1) \<Rightarrow> Some (True, w1)
      | (Some e, w1) \<Rightarrow>
          (case ev_wait ev c backoff w1 of
             (True, w2) \<Rightarrow> Some (False, w2)
           | (False, w2) \<Rightarrow>
               write_retry n ev out c records (if backoff < 5000 then backoff * 2 else backoff) w2))"

text \<open>The result is whether the batch was written; the error otherwise is \<open>ctx.Err()\<close>.\<close>

definition writeBatch :: "nat \<Rightarrow> 'w env \<Rightarrow> 'w Config \<Rightarrow> ctx \<Rightarrow> LogRecord list \<Rightarrow> 'w \<Rightarrow> (bool \<times> 'w) option" where
  "writeBatch n ev cfg c records w =
     (case rc_Output cfg of
        None \<Rightarrow> Some (True, w)
      | Some out \<Rightarrow> (if records = [] then Some (True, w) else write_retry n ev out c records 200 w))"

text \<open>
  Why the loop of \<open>Run\<close> ended. The code does not record it: every way out leads to \<open>shutdown\<close>.
  \<open>Panicked\<close> is the nil dereference of a runner without an Input.
\<close>

datatype exit = Cancelled | ReadFailed | WriteAborted | Panicked

fun run_loop :: "nat \<Rightarrow> 'w env \<Rightarrow> 'w Config \<Rightarrow> int \<Rightarrow> 'w \<Rightarrow> (exit \<times> int \<times> 'w) option" where
  "run_loop 0 ev cfg sent w = None"
| "run_loop (Suc n) ev cfg sent w =
     (if ev_done ev RunCtx w then Some (Cancelled, sent, w)
      else (case rc_Input cfg of
         None \<Rightarrow> Some (Panicked, sent, w)
       | Some inp \<Rightarrow>
           (case io_ReadBatch inp RunCtx (rc_BatchLen cfg) w of
              (Inl e, w1) \<Rightarrow> Some (ReadFailed, sent, w1)
            | (Inr records, w1) \<Rightarrow>
                (if records = [] then
                   (case ev_wait ev RunCtx 200 w1 of
                      (True, w2) \<Rightarrow> Some (Cancelled, sent, w2)
                    | (False, w2) \<Rightarrow> run_loop n ev cfg sent w2)
                 else
                   (let records' = applyTransforms (rc_Transforms cfg) records in
                    if records' = [] then run_loop n ev cfg sent w1
                    else
                      (case writeBatch n ev cfg RunCtx records' w1 of
                         None \<Rightarrow> None
                       | Some (False, w2) \<Rightarrow> Some (WriteAborted, sent, w2)
                       | Some (True, w2) \<Rightarrow>
                           run_loop n ev cfg (sent + int (length records')) (snd (io_Commit inp w2))))))))"

text \<open>The drain loop of \<open>shutdown\<close>: the flag is \<open>drained\<close>.\<close>

fun drain_loop :: "nat \<Rightarrow> 'w env \<Rightarrow> 'w Config \<Rightarrow> 'w input_ops \<Rightarrow> int \<Rightarrow> 'w \<Rightarrow> (bool \<times> int \<times> 'w) option" where
  "drain_loop 0 ev cfg inp sent w = None"
| "drain_loop (Suc n) ev cfg inp sent w =
     (case io_ReadBatch inp DrainCtx (rc_BatchLen cfg) w of
        (Inl e, w1) \<Rightarrow> Some (False, sent, w1)
      | (Inr records, w1) \<Rightarrow>
          (if records = [] then Some (True, sent, w1)
           else
             (let records' = applyTransforms (rc_Transforms cfg) records in
              if records' = [] then drain_loop n ev cfg inp sent w1
              else
                (case writeBatch n ev cfg DrainCtx records' w1 of
                   None \<Rightarrow> None
                 | Some (False, w2) \<Rightarrow> Some (False, sent, w2)
                 | Some (True, w2) \<Rightarrow>
                     drain_loop n ev cfg inp (sent + int (length records')) (snd (io_Commit inp w2))))))"

definition shutdown :: "nat \<Rightarrow> 'w env \<Rightarrow> 'w Config \<Rightarrow> int \<Rightarrow> 'w \<Rightarrow> (int \<times> 'w) option" where
  "shutdown n ev cfg sent w =
     (case (case rc_Input cfg of
              None \<Rightarrow> Some (True, sent, ev_timeout ev 5000 w)
            | Some inp \<Rightarrow>
                (case drain_loop n ev cfg inp sent (ev_timeout ev 5000 w) of
                   None \<Rightarrow> None
                 | Some (drained, sent1, w1) \<Rightarrow>
                     Some (drained \<and> \<not> ev_done ev DrainCtx w1, sent1, snd (io_Close inp w1)))) of
        None \<Rightarrow> None
      | Some (drained, sent1, w1) \<Rightarrow>
          (let w2 = (case rc_Output cfg of None \<Rightarrow> w1 | Some out \<Rightarrow> snd (oo_Close out w1));
               w3 = (case rc_Clean cfg of
                       None \<Rightarrow> w2
                     | Some cl \<Rightarrow>
                         (if drained then
                            snd (ko_Clean cl (case rc_Input cfg of None \<Rightarrow> 0 | Some inp \<Rightarrow> io_Lag inp w2) w2)
                          else w2))
           in Some (sent1, w3)))"

definition Run :: "nat \<Rightarrow> 'w env \<Rightarrow> 'w Runner \<Rightarrow> 'w \<Rightarrow> (exit \<times> 'w Runner \<times> 'w) option" where
  "Run n ev r w =
     (let (r1, w1) = (if rn_cancel r \<noteq> CancelNil then (r, ev_cancel ev w) else (r\<lparr>rn_cancel := CancelRun\<rparr>, w))
      in (case run_loop n ev (rn_cfg r1) (rn_sent r1) w1 of
            None \<Rightarrow> None
          | Some (Panicked, sent, w2) \<Rightarrow> Some (Panicked, r1\<lparr>rn_sent := sent, rn_done := True\<rparr>, ev_cancel ev w2)
          | Some (x, sent, w2) \<Rightarrow>
              (case shutdown n ev (rn_cfg r1) sent w2 of
                 None \<Rightarrow> None
               | Some (sent', w3) \<Rightarrow>
                   Some (x, r1\<lparr>rn_sent := sent', rn_done := True\<rparr>, ev_cancel ev w3))))"

section \<open>Transforms in a row\<close>

fun chain :: "transform list \<Rightarrow> LogRecord \<Rightarrow> LogRecord list" where
  "chain [] r = [r]"
| "chain (t # ts) r = concat (map (chain ts) (transform_out t r))"

lemma chain_concat: "concat (map (chain ts) (concat (map (transform_out t) rs))) = concat (map (chain (t # ts)) rs)"
  by (induction rs) simp_all

lemma applyTransforms_chain: "applyTransforms (map Transform ts) rs = concat (map (chain ts) rs)"
proof (induction ts arbitrary: rs)
  case Nil
  have "concat (map (\<lambda>r. [r]) rs) = rs" by (induction rs) simp_all
  then show ?case by (simp add: fun_eq_iff cong: map_cong)
next
  case (Cons t ts)
  then show ?case by (simp add: bt.batch chain_concat[symmetric] del: chain.simps concat_map_singleton)
qed

lemma chain_data: "u \<in> set (chain ts r) \<Longrightarrow> rec_Data u = rec_Data r"
proof (induction ts arbitrary: r)
  case (Cons t ts)
  then obtain v where "v \<in> set (transform_out t r)" "u \<in> set (chain ts v)" by auto
  with Cons.IH transform_out_data show ?case by metis
qed simp

section \<open>The contract of inputs and outputs, and what the runner guarantees over it\<close>

text \<open>
  \<open>consumed w\<close> are the records returned by \<open>ReadBatch\<close> so far, \<open>acked w\<close> those of the batches a
  \<open>WriteBatch\<close> returned nil for, and \<open>committed w\<close> how many consumed records the persisted position
  covers. \<open>xf r\<close> is what the transforms make of one record. In a world that is \<open>calm\<close> no write is refused.
\<close>

locale pipeline =
  fixes ev :: "'w env" and cfg :: "'w Config" and inp :: "'w input_ops" and out :: "'w output_ops"
    and xf :: "LogRecord \<Rightarrow> LogRecord list"
    and consumed :: "'w \<Rightarrow> LogRecord list" and acked :: "'w \<Rightarrow> LogRecord list" and committed :: "'w \<Rightarrow> nat"
    and calm :: "'w \<Rightarrow> bool"
  assumes has_input: "rc_Input cfg = Some inp" and has_output: "rc_Output cfg = Some out"
    and transforms: "applyTransforms (rc_Transforms cfg) rs = concat (map xf rs)"
    and read_ok: "io_ReadBatch inp c sz w = (Inr rs, w') \<Longrightarrow>
      consumed w' = consumed w @ rs \<and> acked w' = acked w \<and> committed w' = committed w \<and> (calm w \<longrightarrow> calm w')"
    and read_err: "io_ReadBatch inp c sz w = (Inl e, w') \<Longrightarrow>
      consumed w' = consumed w \<and> acked w' = acked w \<and> committed w' = committed w \<and> (calm w \<longrightarrow> calm w')"
    and write_ok: "oo_WriteBatch out c rs w = (None, w') \<Longrightarrow>
      consumed w' = consumed w \<and> acked w' = acked w @ rs \<and> committed w' = committed w \<and> (calm w \<longrightarrow> calm w')"
    and write_err: "oo_WriteBatch out c rs w = (Some e, w') \<Longrightarrow>
      \<not> calm w \<and> consumed w' = consumed w \<and> acked w' = acked w \<and> committed w' = committed w"
    and commit: "io_Commit inp w = (x, w') \<Longrightarrow>
      consumed w' = consumed w \<and> acked w' = acked w \<and> (committed w' = committed w \<or> committed w' = length (consumed w))
      \<and> (calm w \<longrightarrow> calm w')"
    and close: "io_Close inp w = (x, w') \<Longrightarrow>
      consumed w' = consumed w \<and> acked w' = acked w \<and> (committed w' = committed w \<or> committed w' = length (consumed w))"
    and wait: "ev_wait ev c k w = (b, w') \<Longrightarrow>
      consumed w' = consumed w \<and> acked w' = acked w \<and> committed w' = committed w \<and> (calm w \<longrightarrow> calm w')"
    and cancel: "consumed (ev_cancel ev w) = consumed w \<and> acked (ev_cancel ev w) = acked w
      \<and> committed (ev_cancel ev w) = committed w \<and> (calm w \<longrightarrow> calm (ev_cancel ev w))"
    and timeout: "consumed (ev_timeout ev k w) = consumed w \<and> acked (ev_timeout ev k w) = acked w
      \<and> committed (ev_timeout ev k w) = committed w \<and> (calm w \<longrightarrow> calm (ev_timeout ev k w))"
    and out_close: "oo_Close out w = (x, w') \<Longrightarrow> consumed w' = consumed w \<and> acked w' = acked w \<and> committed w' = committed w"
    and cleaning: "rc_Clean cfg = Some cl \<Longrightarrow> ko_Clean cl lag w = (x, w') \<Longrightarrow>
      consumed w' = consumed w \<and> acked w' = acked w \<and> committed w' = committed w"
begin

definition xfs :: "LogRecord list \<Rightarrow> LogRecord list" where
  "xfs rs = concat (map xf rs)"

text \<open>Everything consumed has been acknowledged, exactly once and in order.\<close>

definition exact :: "'w \<Rightarrow> bool" where
  "exact w \<longleftrightarrow> acked w = xfs (consumed w) \<and> committed w \<le> length (consumed w)"

text \<open>As before, except for the batch read last, which the committed position does not cover.\<close>

definition pending :: "'w \<Rightarrow> bool" where
  "pending w \<longleftrightarrow> (\<exists>rs us. consumed w = rs @ us \<and> acked w = xfs rs \<and> committed w \<le> length rs)"

lemma xfs_append [simp]: "xfs (rs @ us) = xfs rs @ xfs us"
  by (simp add: xfs_def)

lemma exact_pending: "exact w \<Longrightarrow> pending w"
  unfolding exact_def pending_def by (intro exI[of _ "consumed w"] exI[of _ "[]"]) simp

lemma write_retry_acked:
  "write_retry n ev out c rs k w = Some (ok, w') \<Longrightarrow>
     consumed w' = consumed w \<and> committed w' = committed w \<and> acked w' = (if ok then acked w @ rs else acked w)
     \<and> (calm w \<longrightarrow> ok \<and> calm w')"
proof (induction n arbitrary: k w)
  case (Suc n)
  obtain e w1 where wr: "oo_WriteBatch out c rs w = (e, w1)" by fastforce
  show ?case
  proof (cases e)
    case None
    with wr Suc.prems write_ok[of c rs w w1] show ?thesis by auto
  next
    case (Some x)
    obtain b w2 where wa: "ev_wait ev c k w1 = (b, w2)" by fastforce
    from Some wr have s1: "consumed w1 = consumed w \<and> acked w1 = acked w \<and> committed w1 = committed w \<and> \<not> calm w"
      using write_err by blast
    show ?thesis
    proof (cases b)
      case True
      with Some wr wa s1 wait[OF wa] Suc.prems show ?thesis by auto
    next
      case False
      with Some wr wa Suc.prems have "write_retry n ev out c rs (if k < 5000 then k * 2 else k) w2 = Some (ok, w')"
        by simp
      from Suc.IH[OF this] s1 wait[OF wa] show ?thesis by auto
    qed
  qed
qed simp

lemma writeBatch_acked:
  "writeBatch n ev cfg c rs w = Some (ok, w') \<Longrightarrow>
     consumed w' = consumed w \<and> committed w' = committed w \<and> acked w' = (if ok then acked w @ rs else acked w)
     \<and> (calm w \<longrightarrow> ok \<and> calm w')"
  by (auto simp: writeBatch_def has_output split: if_splits dest: write_retry_acked)

text \<open>One batch, from reading to committing.\<close>

lemma step_exact:
  assumes "exact w" and rd: "io_ReadBatch inp c sz w = (Inr rs, w1)"
    and wr: "writeBatch n ev cfg c' (xfs rs) w1 = Some (True, w2)"
  shows "exact (snd (io_Commit inp w2))"
  using assms(1) read_ok[OF rd] writeBatch_acked[OF wr] commit[of w2 "fst (io_Commit inp w2)" "snd (io_Commit inp w2)"]
  by (auto simp: exact_def)

lemma step_pending:
  assumes "exact w" and rd: "io_ReadBatch inp c sz w = (Inr rs, w1)"
    and wr: "writeBatch n ev cfg c' us w1 = Some (False, w2)"
  shows "pending w2"
  using assms(1) read_ok[OF rd] writeBatch_acked[OF wr]
  by (auto simp: exact_def pending_def)

lemma step_none:
  assumes "exact w" and rd: "io_ReadBatch inp c sz w = (Inr rs, w1)" and "xfs rs = []"
  shows "exact w1"
  using assms(1,3) read_ok[OF rd] by (auto simp: exact_def)

lemma xfs_apply: "applyTransforms (rc_Transforms cfg) rs = xfs rs"
  by (simp add: transforms xfs_def)

lemma xfs_Nil [simp]: "xfs [] = []"
  by (simp add: xfs_def)

lemma exact_wait: "exact w \<Longrightarrow> ev_wait ev c k w = (b, w') \<Longrightarrow> exact w'"
  using wait[of c k w b w'] by (simp add: exact_def)

text \<open>What happens to one batch that was read: it vanishes in the transforms, is written and committed, or is abandoned.\<close>

lemma batch_cases:
  assumes "exact w" and rd: "io_ReadBatch inp c sz w = (Inr rs, w1)"
  shows "xfs rs = [] \<Longrightarrow> exact w1 \<and> acked w1 = acked w \<and> (calm w \<longrightarrow> calm w1)"
    and "writeBatch n ev cfg c' (xfs rs) w1 = Some (True, w2) \<Longrightarrow>
      exact (snd (io_Commit inp w2)) \<and> acked (snd (io_Commit inp w2)) = acked w @ xfs rs
      \<and> (calm w \<longrightarrow> calm (snd (io_Commit inp w2)))"
    and "writeBatch n ev cfg c' (xfs rs) w1 = Some (False, w2) \<Longrightarrow> pending w2 \<and> acked w2 = acked w \<and> \<not> calm w"
proof -
  have a1: "acked w1 = acked w" using read_ok[OF rd] by simp
  show "xfs rs = [] \<Longrightarrow> exact w1 \<and> acked w1 = acked w \<and> (calm w \<longrightarrow> calm w1)"
    using step_none[OF assms] read_ok[OF rd] by simp
  assume wr: "writeBatch n ev cfg c' (xfs rs) w1 = Some (True, w2)"
  show "exact (snd (io_Commit inp w2)) \<and> acked (snd (io_Commit inp w2)) = acked w @ xfs rs
      \<and> (calm w \<longrightarrow> calm (snd (io_Commit inp w2)))"
    using step_exact[OF assms wr] writeBatch_acked[OF wr] read_ok[OF rd]
      commit[of w2 "fst (io_Commit inp w2)" "snd (io_Commit inp w2)"] by simp
next
  assume wr: "writeBatch n ev cfg c' (xfs rs) w1 = Some (False, w2)"
  show "pending w2 \<and> acked w2 = acked w \<and> \<not> calm w"
    using step_pending[OF assms wr] writeBatch_acked[OF wr] read_ok[OF rd] by simp
qed

text \<open>One turn of the loop of \<open>Run\<close>.\<close>

lemma run_loop_turn:
  assumes "exact w" and run: "run_loop (Suc n) ev cfg sent w = Some (x, sent', w')"
  shows "(if x = WriteAborted then pending w' else exact w') \<and> sent' = sent \<and> acked w' = acked w
      \<and> (calm w \<longrightarrow> x \<noteq> WriteAborted \<and> calm w')
    \<or> (\<exists>w2 us. exact w2 \<and> acked w2 = acked w @ us \<and> (calm w \<longrightarrow> calm w2) \<and> run_loop n ev cfg (sent + int (length us)) w2 = Some (x, sent', w'))"
    (is "?stop \<or> ?go")
proof (cases "ev_done ev RunCtx w")
  case True
  with assms show ?thesis by auto
next
  case False
  obtain r w1 where rd0: "io_ReadBatch inp RunCtx (rc_BatchLen cfg) w = (r, w1)" by fastforce
  show ?thesis
  proof (cases r)
    case (Inl e)
    with assms False rd0 read_err[of RunCtx _ w e w1] show ?thesis by (auto simp: has_input exact_def)
  next
    case (Inr rs)
    note rd = rd0[unfolded Inr]
    note bc = batch_cases[OF assms(1) rd]
    consider (nil) "rs = []" | (dropped) "rs \<noteq> []" "xfs rs = []" | (some) "rs \<noteq> []" "xfs rs \<noteq> []" by auto
    then show ?thesis
    proof cases
      case nil
      obtain b w2 where wa: "ev_wait ev RunCtx 200 w1 = (b, w2)" by fastforce
      have e2: "exact w2 \<and> acked w2 = acked w \<and> (calm w \<longrightarrow> calm w2)" using bc(1) nil exact_wait[OF _ wa] wait[OF wa] by simp
      from run False rd nil wa e2 show ?thesis
        by (cases b) (auto simp: has_input intro!: exI[of _ w2] exI[of _ "[]"])
    next
      case dropped
      with run False rd bc(1) show ?thesis
        by (auto simp: has_input xfs_apply intro!: exI[of _ w1] exI[of _ "[]"])
    next
      case some
      with run False rd obtain ok w2 where wr: "writeBatch n ev cfg RunCtx (xfs rs) w1 = Some (ok, w2)"
        by (auto simp: has_input xfs_apply Let_def split: option.splits)
      show ?thesis
      proof (cases ok)
        case True
        with run False rd some wr bc(2)[of n RunCtx w2] have ?go
          by (intro exI[of _ "snd (io_Commit inp w2)"] exI[of _ "xfs rs"]) (simp add: has_input xfs_apply Let_def)
        then show ?thesis ..
      next
        case ab: False
        with run False rd some wr bc(3)[of n RunCtx w2] have ?stop
          by (auto simp: has_input xfs_apply Let_def)
        then show ?thesis ..
      qed
    qed
  qed
qed

lemma run_loop_exact:
  "exact w \<Longrightarrow> run_loop n ev cfg sent w = Some (x, sent', w') \<Longrightarrow>
     (if x = WriteAborted then pending w' else exact w') \<and> (calm w \<longrightarrow> x \<noteq> WriteAborted \<and> calm w')
     \<and> sent' - sent = int (length (acked w')) - int (length (acked w))"
proof (induction n arbitrary: sent w)
  case (Suc n)
  from run_loop_turn[OF Suc.prems] show ?case
  proof (elim disjE exE conjE)
    fix w2 us
    assume "exact w2" "acked w2 = acked w @ us" "calm w \<longrightarrow> calm w2" "run_loop n ev cfg (sent + int (length us)) w2 = Some (x, sent', w')"
    with Suc.IH[of w2 "sent + int (length us)"] show ?case by simp
  qed simp
qed simp

text \<open>The drain loop, from a world where everything consumed so far is acknowledged.\<close>

lemma drain_loop_exact:
  "exact w \<Longrightarrow> drain_loop n ev cfg inp sent w = Some (ok, sent', w') \<Longrightarrow>
     (if ok then exact w' else pending w') \<and> (calm w \<longrightarrow> exact w')
     \<and> sent' - sent = int (length (acked w')) - int (length (acked w))"
proof (induction n arbitrary: sent w)
  case (Suc n)
  obtain r w1 where rd0: "io_ReadBatch inp DrainCtx (rc_BatchLen cfg) w = (r, w1)" by fastforce
  show ?case
  proof (cases r)
    case (Inl e)
    with Suc.prems rd0 read_err[of DrainCtx _ w e w1] exact_pending[of w1] show ?thesis by (auto simp: exact_def)
  next
    case (Inr rs)
    note rd = rd0[unfolded Inr]
    note bc = batch_cases[OF Suc.prems(1) rd]
    consider (nil) "rs = []" | (dropped) "rs \<noteq> []" "xfs rs = []" | (some) "rs \<noteq> []" "xfs rs \<noteq> []" by auto
    then show ?thesis
    proof cases
      case nil
      with Suc.prems rd bc(1) show ?thesis by auto
    next
      case dropped
      with Suc.prems rd have "drain_loop n ev cfg inp sent w1 = Some (ok, sent', w')" by (simp add: xfs_apply)
      with Suc.IH[of w1 sent] bc(1) dropped show ?thesis by simp
    next
      case some
      with Suc.prems rd obtain b w2 where wr: "writeBatch n ev cfg DrainCtx (xfs rs) w1 = Some (b, w2)"
        by (auto simp: xfs_apply Let_def split: option.splits)
      show ?thesis
      proof (cases b)
        case True
        with Suc.prems rd some wr have
          "drain_loop n ev cfg inp (sent + int (length (xfs rs))) (snd (io_Commit inp w2)) = Some (ok, sent', w')"
          by (simp add: xfs_apply Let_def)
        with Suc.IH[of "snd (io_Commit inp w2)" "sent + int (length (xfs rs))"] bc(2)[of n DrainCtx w2] wr True
        show ?thesis by simp
      next
        case False
        with Suc.prems rd some wr bc(3)[of n DrainCtx w2] show ?thesis
          by (auto simp: xfs_apply Let_def)
      qed
    qed
  qed
qed simp

definition same_log :: "'w \<Rightarrow> 'w \<Rightarrow> bool" where
  "same_log w w' \<longleftrightarrow> consumed w' = consumed w \<and> acked w' = acked w
     \<and> (committed w' = committed w \<or> committed w' = length (consumed w))"

lemma same_log_exact: "same_log w w' \<Longrightarrow> exact w \<Longrightarrow> exact w'"
  by (auto simp: same_log_def exact_def)

lemma same_log_trans: "same_log w v \<Longrightarrow> same_log v u \<Longrightarrow> same_log w u"
  by (auto simp: same_log_def)

lemma shutdown_exact:
  assumes "exact w" "shutdown n ev cfg sent w = Some (sent', w')"
  shows "\<exists>ok w1. drain_loop n ev cfg inp sent (ev_timeout ev 5000 w) = Some (ok, sent', w1)
    \<and> (ok \<or> calm w \<longrightarrow> exact w') \<and> (\<exists>rs us. consumed w' = rs @ us \<and> acked w' = xfs rs)
    \<and> sent' - sent = int (length (acked w')) - int (length (acked w))"
proof -
  from assms(2) obtain ok s1 w1 where dl: "drain_loop n ev cfg inp sent (ev_timeout ev 5000 w) = Some (ok, s1, w1)"
    by (auto simp: shutdown_def has_input split: option.splits)
  define w2 where "w2 = snd (io_Close inp w1)"
  define w3 where "w3 = snd (oo_Close out w2)"
  have e0: "exact (ev_timeout ev 5000 w)" "acked (ev_timeout ev 5000 w) = acked w"
    "calm w \<longrightarrow> calm (ev_timeout ev 5000 w)"
    using assms(1) timeout[of 5000 w] by (simp_all add: exact_def)
  have s2: "same_log w1 w2" using close[of w1 "fst (io_Close inp w1)" w2] by (simp add: w2_def same_log_def)
  have s3: "same_log w2 w3" using out_close[of w2 "fst (oo_Close out w2)" w3] by (simp add: w3_def same_log_def)
  have "sent' = s1" "w' = w3 \<or> (\<exists>cl k. rc_Clean cfg = Some cl \<and> w' = snd (ko_Clean cl k w3))"
    using assms(2) dl by (auto simp: shutdown_def has_input has_output w2_def w3_def Let_def split: option.splits if_splits)
  then have "same_log w3 w'"
    using cleaning by (auto simp: same_log_def) (metis prod.collapse)+
  with s2 s3 have sl: "same_log w1 w'" by (blast intro: same_log_trans)
  note dle = drain_loop_exact[OF e0(1) dl]
  have "ok \<or> calm w \<longrightarrow> exact w'" using dle same_log_exact[OF sl] e0(3) by auto
  moreover have "\<exists>rs us. consumed w' = rs @ us \<and> acked w' = xfs rs"
    using dle sl exact_pending[of w1] by (auto simp: same_log_def pending_def split: if_splits)
  ultimately show ?thesis
    using dl \<open>sent' = s1\<close> e0(2) dle sl by (auto simp: same_log_def)
qed

lemma run_loop_no_panic: "run_loop m ev cfg s v \<noteq> Some (Panicked, s', v')"
  by (induction m arbitrary: s v) (auto simp: has_input Let_def split: prod.splits sum.splits option.splits bool.splits)

text \<open>A run is the loop from a world that is at most cancelled, then the shutdown.\<close>

lemma Run_parts:
  assumes "rn_cfg r = cfg" "Run n ev r w = Some (x, r', w')"
  obtains w1 sent1 w2 w3 where "w1 = w \<or> w1 = ev_cancel ev w" "run_loop n ev cfg (rn_sent r) w1 = Some (x, sent1, w2)"
    "shutdown n ev cfg sent1 w2 = Some (rn_sent r', w3)" "w' = ev_cancel ev w3"
proof -
  define w1 where "w1 = (if rn_cancel r \<noteq> CancelNil then ev_cancel ev w else w)"
  from assms obtain sent1 w2 where rl: "run_loop n ev cfg (rn_sent r) w1 = Some (x, sent1, w2)"
    by (auto simp: Run_def w1_def Let_def split: if_splits option.splits exit.splits)
  with run_loop_no_panic have "x \<noteq> Panicked" by blast
  with assms rl obtain w3 where "shutdown n ev cfg sent1 w2 = Some (rn_sent r', w3)" "w' = ev_cancel ev w3"
    by (cases x) (auto simp: Run_def w1_def Let_def split: if_splits option.splits)
  with rl that[of w1] show thesis by (auto simp: w1_def)
qed

lemma Run_calm:
  assumes "exact w" "calm w" "rn_cfg r = cfg" "Run n ev r w = Some (x, r', w')"
  shows "x \<noteq> WriteAborted"
proof -
  obtain w1 sent1 w2 w3 where h: "w1 = w \<or> w1 = ev_cancel ev w"
    "run_loop n ev cfg (rn_sent r) w1 = Some (x, sent1, w2)" by (rule Run_parts[OF assms(3,4)])
  then have "exact w1" "calm w1" using assms(1,2) cancel[of w] by (auto simp: exact_def)
  with run_loop_exact[OF _ h(2)] show ?thesis by blast
qed

lemma Run_delivers:
  assumes "exact w" "rn_cfg r = cfg" "Run n ev r w = Some (x, r', w')" "x \<noteq> WriteAborted"
  shows "\<exists>rs us. consumed w' = rs @ us \<and> acked w' = xfs rs"
    and "calm w \<Longrightarrow> acked w' = xfs (consumed w')"
    and "rn_sent r' - rn_sent r = int (length (acked w')) - int (length (acked w))"
proof -
  obtain w1 sent1 w2 w3 where h: "w1 = w \<or> w1 = ev_cancel ev w"
    "run_loop n ev cfg (rn_sent r) w1 = Some (x, sent1, w2)"
    "shutdown n ev cfg sent1 w2 = Some (rn_sent r', w3)" "w' = ev_cancel ev w3" by (rule Run_parts[OF assms(2,3)])
  then have e1: "exact w1" "acked w1 = acked w" "calm w \<longrightarrow> calm w1"
    using assms(1) cancel[of w] by (auto simp: exact_def)
  from run_loop_exact[OF e1(1) h(2)] assms(4) have e2: "exact w2" "calm w \<longrightarrow> calm w2"
    "sent1 - rn_sent r = int (length (acked w2)) - int (length (acked w))" using e1(2,3) by auto
  from shutdown_exact[OF e2(1) h(3)] h(4) e2(2,3) cancel[of w3]
  show "\<exists>rs us. consumed w' = rs @ us \<and> acked w' = xfs rs"
    "calm w \<Longrightarrow> acked w' = xfs (consumed w')"
    "rn_sent r' - rn_sent r = int (length (acked w')) - int (length (acked w))"
    by (auto simp: exact_def)
qed

end

section \<open>What every step preserves\<close>

text \<open>\<open>P\<close> holds up to the closing of the input, \<open>Q\<close> from then on.\<close>

locale stable =
  fixes ev :: "'w env" and cfg :: "'w Config" and inp :: "'w input_ops" and P :: "'w \<Rightarrow> bool" and Q :: "'w \<Rightarrow> bool"
  assumes has_input: "rc_Input cfg = Some inp"
    and read: "P w \<Longrightarrow> P (snd (io_ReadBatch inp c sz w))"
    and commit: "P w \<Longrightarrow> P (snd (io_Commit inp w))"
    and close: "P w \<Longrightarrow> Q (snd (io_Close inp w))"
    and write_batch: "rc_Output cfg = Some out \<Longrightarrow> P w \<Longrightarrow> P (snd (oo_WriteBatch out c rs w))"
    and out_close: "rc_Output cfg = Some out \<Longrightarrow> Q w \<Longrightarrow> Q (snd (oo_Close out w))"
    and cleaning: "rc_Clean cfg = Some cl \<Longrightarrow> Q w \<Longrightarrow> Q (snd (ko_Clean cl lag w))"
    and wait: "P w \<Longrightarrow> P (snd (ev_wait ev c k w))"
    and cancel: "P w \<Longrightarrow> P (ev_cancel ev w)" "Q w \<Longrightarrow> Q (ev_cancel ev w)"
    and timeout: "P w \<Longrightarrow> P (ev_timeout ev k w)"
begin

lemma steps:
  "io_ReadBatch inp c sz w = (res, w') \<Longrightarrow> P w \<Longrightarrow> P w'"
  "rc_Output cfg = Some out \<Longrightarrow> oo_WriteBatch out c rs w = (e, w') \<Longrightarrow> P w \<Longrightarrow> P w'"
  "ev_wait ev c k w = (b, w') \<Longrightarrow> P w \<Longrightarrow> P w'"
  using read write_batch wait by (metis snd_conv)+

lemma write_retry_stable:
  "rc_Output cfg = Some out \<Longrightarrow> write_retry n ev out c rs k w = Some (ok, w') \<Longrightarrow> P w \<Longrightarrow> P w'"
  by (induction n arbitrary: k w) (auto split: prod.splits option.splits bool.splits dest: steps)

lemma writeBatch_stable: "writeBatch n ev cfg c rs w = Some (ok, w') \<Longrightarrow> P w \<Longrightarrow> P w'"
  by (auto simp: writeBatch_def split: option.splits if_splits dest: write_retry_stable)

lemma run_loop_stable: "run_loop n ev cfg sent w = Some (x, sent', w') \<Longrightarrow> P w \<Longrightarrow> P w' \<and> x \<noteq> Panicked"
  by (induction n arbitrary: sent w)
    (auto simp: has_input Let_def split: prod.splits sum.splits option.splits bool.splits if_splits
      dest: steps intro: commit dest!: writeBatch_stable)

lemma drain_loop_stable:
  "drain_loop n ev cfg inp sent w = Some (ok, sent', w') \<Longrightarrow> P w \<Longrightarrow> P w'"
  by (induction n arbitrary: sent w)
    (auto simp: Let_def split: prod.splits sum.splits option.splits bool.splits if_splits
      dest: steps intro: commit dest!: writeBatch_stable)

lemma shutdown_stable:
  assumes "shutdown n ev cfg sent w = Some (sent', w')" "P w"
  shows "Q w'"
proof -
  obtain dr s1 w1 where dl: "drain_loop n ev cfg inp sent (ev_timeout ev 5000 w) = Some (dr, s1, w1)"
    using assms(1) by (auto simp: shutdown_def has_input split: option.splits)
  define w2 where "w2 = (case rc_Output cfg of None \<Rightarrow> snd (io_Close inp w1) | Some out \<Rightarrow> snd (oo_Close out (snd (io_Close inp w1))))"
  have "Q (snd (io_Close inp w1))" using drain_loop_stable[OF dl timeout[OF assms(2)]] by (rule close)
  then have Q2: "Q w2" by (auto simp: w2_def intro: out_close split: option.split)
  from assms(1) dl have "w' = w2 \<or> (\<exists>cl k. rc_Clean cfg = Some cl \<and> w' = snd (ko_Clean cl k w2))"
    unfolding shutdown_def has_input option.case dl prod.case Let_def w2_def[symmetric]
    by (auto split: option.splits if_splits)
  with Q2 show ?thesis by (auto intro: cleaning)
qed

lemma Run_shutdown_stable:
  assumes "rn_cfg r = cfg" "Run n ev r w = Some (x, r', w')"
    and "\<And>x sent' w2. run_loop n ev cfg (rn_sent r) (if rn_cancel r \<noteq> CancelNil then ev_cancel ev w else w)
      = Some (x, sent', w2) \<Longrightarrow> P w2 \<and> x \<noteq> Panicked"
  shows "Q w'"
proof -
  define w1 where "w1 = (if rn_cancel r \<noteq> CancelNil then ev_cancel ev w else w)"
  from assms(1,2) obtain sent1 w2 where rl: "run_loop n ev cfg (rn_sent r) w1 = Some (x, sent1, w2)"
    by (auto simp: Run_def w1_def Let_def split: if_splits option.splits exit.splits)
  have P2: "P w2" "x \<noteq> Panicked" using assms(3)[folded w1_def, OF rl] by auto
  with assms(1,2) rl obtain s3 w3 where sd: "shutdown n ev cfg sent1 w2 = Some (s3, w3)" "w' = ev_cancel ev w3"
    by (cases x) (auto simp: Run_def w1_def Let_def split: if_splits option.splits)
  with shutdown_stable[OF sd(1) P2(1)] cancel(2) show ?thesis by simp
qed

lemma Run_stable:
  assumes "rn_cfg r = cfg" "Run n ev r w = Some (x, r', w')" "P w"
  shows "Q w'"
proof (rule Run_shutdown_stable[OF assms(1,2)])
  fix y sent' w2
  assume "run_loop n ev cfg (rn_sent r) (if rn_cancel r \<noteq> CancelNil then ev_cancel ev w else w) = Some (y, sent', w2)"
  then show "P w2 \<and> y \<noteq> Panicked" by (rule run_loop_stable) (use assms(3) cancel(1) in simp)
qed

text \<open>What the first read establishes and every later step preserves.\<close>

lemma run_loop_from_read:
  assumes "\<not> ev_done ev RunCtx w" "P (snd (io_ReadBatch inp RunCtx (rc_BatchLen cfg) w))"
    and "run_loop n ev cfg sent w = Some (x, sent', w')"
  shows "P w' \<and> x \<noteq> Panicked"
proof (cases n)
  case (Suc m)
  obtain res w1 where rd: "io_ReadBatch inp RunCtx (rc_BatchLen cfg) w = (res, w1)" by fastforce
  then have "P w1" using assms(2) by simp
  with Suc assms(1,3) rd show ?thesis
    by (auto simp: has_input Let_def split: prod.splits sum.splits option.splits bool.splits if_splits
      dest: steps intro: commit dest!: writeBatch_stable run_loop_stable)
qed (use assms in simp)

lemma Run_from_read:
  assumes "rn_cfg r = cfg" "rn_cancel r = CancelNil" "Run n ev r w = Some (x, r', w')"
    and "\<not> ev_done ev RunCtx w" "P (snd (io_ReadBatch inp RunCtx (rc_BatchLen cfg) w))"
  shows "Q w'"
  by (rule Run_shutdown_stable[OF assms(1,3)]) (use run_loop_from_read[OF assms(4,5)] assms(2) in simp)

end

section \<open>The loops end when the clock runs\<close>

text \<open>
  \<open>left c w\<close> is a bound on the time before the context \<open>c\<close> is done. A read that returns records and a
  wait that the timer wins let time pass; nothing moves the clock back; the drain context expires
  after its timeout at the latest.
\<close>

locale clocked =
  fixes ev :: "'w env" and cfg :: "'w Config" and inp :: "'w input_ops" and out :: "'w output_ops"
    and left :: "ctx \<Rightarrow> 'w \<Rightarrow> nat"
  assumes has_input: "rc_Input cfg = Some inp" and has_output: "rc_Output cfg = Some out"
    and over: "left c w = 0 \<Longrightarrow> ev_done ev c w"
    and read: "io_ReadBatch inp c sz w = (res, w') \<Longrightarrow> left d w' \<le> left d w"
    and read_more: "io_ReadBatch inp c sz w = (Inr rs, w') \<Longrightarrow> rs \<noteq> [] \<Longrightarrow> left c w' < left c w"
    and wr: "oo_WriteBatch out c rs w = (e, w') \<Longrightarrow> left d w' \<le> left d w"
    and commit: "io_Commit inp w = (e, w') \<Longrightarrow> left d w' \<le> left d w"
    and wait: "ev_wait ev c k w = (b, w') \<Longrightarrow> left d w' \<le> left d w"
    and wait_more: "ev_wait ev c k w = (False, w') \<Longrightarrow> 0 < k \<Longrightarrow> left c w' < left c w"
    and timeout: "left DrainCtx (ev_timeout ev k w) \<le> nat k"
    and cancel: "left d (ev_cancel ev w) \<le> left d w"
begin

lemma write_retry_returns:
  "left c w < n \<Longrightarrow> 0 < k \<Longrightarrow>
     \<exists>ok w'. write_retry n ev out c rs k w = Some (ok, w') \<and> (\<forall>d. left d w' \<le> left d w)"
proof (induction n arbitrary: k w)
  case (Suc n)
  obtain e w1 where w1: "oo_WriteBatch out c rs w = (e, w1)" by fastforce
  obtain b w2 where w2: "ev_wait ev c k w1 = (b, w2)" by fastforce
  note le = wr[OF w1] wait[OF w2]
  show ?case
  proof (cases "e = None \<or> b")
    case True
    with w1 w2 le show ?thesis by (cases e) (auto intro: order_trans)
  next
    case False
    have "left c w2 < left c w1" using wait_more[of c k w1 w2] w2 False Suc.prems(2) by simp
    with Suc.prems le have "left c w2 < n" by (meson less_Suc_eq_le less_le_trans order_trans)
    moreover have "0 < (if k < 5000 then k * 2 else k)" using Suc.prems(2) by simp
    ultimately obtain ok w' where r: "write_retry n ev out c rs (if k < 5000 then k * 2 else k) w2 = Some (ok, w')"
      "\<forall>d. left d w' \<le> left d w2" using Suc.IH by blast
    have "write_retry (Suc n) ev out c rs k w = Some (ok, w')" using r(1) w1 w2 False by auto
    moreover have "\<forall>d. left d w' \<le> left d w" using le r(2) by (meson order_trans)
    ultimately show ?thesis by blast
  qed
qed simp

lemma writeBatch_returns:
  "left c w < n \<Longrightarrow> \<exists>ok w'. writeBatch n ev cfg c rs w = Some (ok, w') \<and> (\<forall>d. left d w' \<le> left d w)"
  using write_retry_returns[of c w n 200 rs] by (auto simp: writeBatch_def has_output)

lemma batch_returns:
  assumes "left c w1 < n"
  obtains ok w2 where "writeBatch n ev cfg c rs w1 = Some (ok, w2)" "left c (snd (io_Commit inp w2)) < n"
    "left d (snd (io_Commit inp w2)) \<le> left d w1" "left d w2 \<le> left d w1"
proof -
  obtain ok w2 where w2: "writeBatch n ev cfg c rs w1 = Some (ok, w2)" "\<forall>d. left d w2 \<le> left d w1"
    using writeBatch_returns[OF assms] by blast
  moreover have "left d (snd (io_Commit inp w2)) \<le> left d w2" for d
    using commit[of w2 "fst (io_Commit inp w2)" "snd (io_Commit inp w2)"] by simp
  ultimately show thesis using that assms by (meson le_less_trans order_trans)
qed

lemma run_loop_returns:
  "left RunCtx w < n \<Longrightarrow> \<exists>x sent' w'. run_loop n ev cfg sent w = Some (x, sent', w')"
proof (induction n arbitrary: sent w)
  case (Suc n)
  obtain res w1 where rd: "io_ReadBatch inp RunCtx (rc_BatchLen cfg) w = (res, w1)" by fastforce
  show ?case
  proof (cases res)
    case (Inl e)
    with rd show ?thesis by (simp add: has_input)
  next
    case (Inr rs)
    show ?thesis
    proof (cases "rs = []")
      case True
      obtain b w2 where wa: "ev_wait ev RunCtx 200 w1 = (b, w2)" by fastforce
      show ?thesis
      proof (cases b)
        case b: False
        have "left RunCtx w2 < n"
          using wait_more[of RunCtx 200 w1 w2] wa b read[OF rd, of RunCtx] Suc.prems by simp
        with Suc.IH rd Inr True wa b show ?thesis by (simp add: has_input)
      qed (use rd Inr True wa in \<open>simp add: has_input\<close>)
    next
      case False
      then have w1: "left RunCtx w1 < n" using read_more[OF rd[unfolded Inr]] Suc.prems by simp
      obtain ok w2 where w2: "writeBatch n ev cfg RunCtx (applyTransforms (rc_Transforms cfg) rs) w1 = Some (ok, w2)"
        "left RunCtx (snd (io_Commit inp w2)) < n" using batch_returns[OF w1] by blast
      from Suc.IH[OF w1] Suc.IH[OF w2(2)] w2(1) rd Inr False show ?thesis
        by (cases ok) (auto simp: has_input Let_def)
    qed
  qed
qed simp

lemma drain_loop_returns:
  "left DrainCtx w < n \<Longrightarrow> \<exists>ok sent' w'. drain_loop n ev cfg inp sent w = Some (ok, sent', w')"
proof (induction n arbitrary: sent w)
  case (Suc n)
  obtain res w1 where rd: "io_ReadBatch inp DrainCtx (rc_BatchLen cfg) w = (res, w1)" by fastforce
  show ?case
  proof (cases res)
    case (Inl e)
    with rd show ?thesis by auto
  next
    case (Inr rs)
    show ?thesis
    proof (cases "rs = []")
      case False
      then have w1: "left DrainCtx w1 < n" using read_more[OF rd[unfolded Inr]] Suc.prems by simp
      obtain ok w2 where w2: "writeBatch n ev cfg DrainCtx (applyTransforms (rc_Transforms cfg) rs) w1 = Some (ok, w2)"
        "left DrainCtx (snd (io_Commit inp w2)) < n" using batch_returns[OF w1] by blast
      from Suc.IH[OF w1] Suc.IH[OF w2(2)] w2(1) rd Inr False show ?thesis
        by (cases ok) (auto simp: Let_def)
    qed (use rd Inr in auto)
  qed
qed simp

text \<open>Shutdown returns within its five seconds, whatever the input and the output do.\<close>

lemma shutdown_returns: "5000 < n \<Longrightarrow> \<exists>sent' w'. shutdown n ev cfg sent w = Some (sent', w')"
proof -
  assume "5000 < n"
  then have "left DrainCtx (ev_timeout ev 5000 w) < n" using timeout[of 5000 w] by simp
  from drain_loop_returns[OF this] show ?thesis
    by (auto simp: shutdown_def has_input Let_def split: option.splits)
qed

lemma Run_returns:
  assumes "rn_cfg r = cfg" "left RunCtx w < n" "5000 < n"
  shows "\<exists>x r' w'. Run n ev r w = Some (x, r', w') \<and> rn_done r'"
proof -
  define w1 where "w1 = (if rn_cancel r \<noteq> CancelNil then ev_cancel ev w else w)"
  have "left RunCtx w1 < n" using assms(2) cancel[of RunCtx w] by (auto simp: w1_def)
  from run_loop_returns[OF this] obtain x sent1 w2 where "run_loop n ev cfg (rn_sent r) w1 = Some (x, sent1, w2)" by blast
  moreover obtain s3 w3 where "shutdown n ev cfg sent1 w2 = Some (s3, w3)" using shutdown_returns[OF assms(3)] by blast
  ultimately show ?thesis using assms(1)
    by (cases x) (auto simp: Run_def w1_def Let_def)
qed

end

end
