(* ===== verification/FileSys.thy ===== *)
theory FileSys
  imports Prelude "HOL-Library.Word"
begin

text \<open>
  The part of Go's \<open>os\<close> and \<open>path/filepath\<close> the agent relies on.

  \<^item> \<open>path_clean\<close>, \<open>path_join\<close>, \<open>path_base\<close>: \<open>filepath.Clean\<close>, \<open>Join\<close>, \<open>Base\<close>.
  \<^item> A log file system \<open>fsys\<close>: names (absolute, clean paths) to inodes and inodes to nodes, so a
    rename keeps the inode and an unlinked file lives on for whoever holds it open. A node says
    whether opening it or reading it fails. A function that takes an \<open>fsys\<close> sees one snapshot;
    other processes change it between calls.
  \<^item> A store of small state files \<open>metafs\<close> for the write-then-rename idiom. Every system call that
    changes it consumes one answer of a script, and a failed write leaves some prefix behind.
\<close>

type_synonym inode = "64 word"

section \<open>Paths\<close>

fun split_slash :: "string \<Rightarrow> string list" where
  "split_slash [] = [[]]"
| "split_slash (c # s) =
     (if c = CHR ''/'' then [] # split_slash s
      else (case split_slash s of [] \<Rightarrow> [[c]] | p # ps \<Rightarrow> (c # p) # ps))"

text \<open>The elements of a clean path, over a stack of those kept so far, the last one on top.\<close>

fun clean_elems :: "bool \<Rightarrow> string list \<Rightarrow> string list \<Rightarrow> string list" where
  "clean_elems rooted st [] = st"
| "clean_elems rooted st (p # ps) =
     (if p = [] \<or> p = ''.'' then clean_elems rooted st ps
      else if p = ''..'' then
        (case st of
           [] \<Rightarrow> clean_elems rooted (if rooted then [] else [p]) ps
         | q # st' \<Rightarrow> clean_elems rooted (if q = ''..'' then p # st else st') ps)
      else clean_elems rooted (p # st) ps)"

definition path_clean :: "string \<Rightarrow> string" where
  "path_clean s =
     (let rooted = (take 1 s = ''/'');
          body = str_join ''/'' (rev (clean_elems rooted [] (split_slash s)))
      in if rooted then CHR ''/'' # body else if body = [] then ''.'' else body)"

definition path_join :: "string list \<Rightarrow> string" where
  "path_join elems =
     (let es = filter (\<lambda>e. e \<noteq> []) elems in if es = [] then [] else path_clean (str_join ''/'' es))"

definition path_base :: "string \<Rightarrow> string" where
  "path_base s =
     (if s = [] then ''.''
      else (let t = rev (dropWhile (\<lambda>c. c = CHR ''/'') (rev s))
            in if t = [] then ''/'' else last (split_slash t)))"

text \<open>\<open>filepath.Dir\<close>: what stands before the last slash, cleaned.\<close>

definition path_dir :: "string \<Rightarrow> string" where
  "path_dir s = path_clean (rev (dropWhile (\<lambda>c. c \<noteq> CHR ''/'') (rev s)))"

section \<open>The file system a log reader sees\<close>

record fnode =
  fn_data :: string
  fn_mtime :: int
  fn_dir :: bool
  fn_deny :: bool
  fn_bad :: bool

record fsys =
  fs_names :: "(string, inode) gomap"
  fs_nodes :: "(inode, fnode) gomap"

definition os_Stat :: "fsys \<Rightarrow> string \<Rightarrow> (inode \<times> fnode) option" where
  "os_Stat fs path =
     (case gm_get (fs_names fs) path of
        None \<Rightarrow> None
      | Some i \<Rightarrow> (case gm_get (fs_nodes fs) i of None \<Rightarrow> None | Some n \<Rightarrow> Some (i, n)))"

text \<open>The name of an entry of the directory \<open>dir\<close>, for a path directly below it.\<close>

definition child_name :: "string \<Rightarrow> string \<Rightarrow> string option" where
  "child_name dir path =
     (let pre = dir @ ''/''; n = drop (length pre) path
      in if take (length pre) path = pre \<and> n \<noteq> [] \<and> CHR ''/'' \<notin> set n then Some n else None)"

text \<open>\<open>os.ReadDir\<close> returns the entries sorted by name; \<open>None\<close> is its error.\<close>

definition os_ReadDir :: "fsys \<Rightarrow> string \<Rightarrow> string list option" where
  "os_ReadDir fs dir =
     (case os_Stat fs dir of
        None \<Rightarrow> None
      | Some (i, n) \<Rightarrow>
          (if fn_dir n then
             Some (sort (List.map_filter (\<lambda>(p, j). child_name dir p) (fs_names fs)))
           else None))"

definition os_Open :: "fsys \<Rightarrow> string \<Rightarrow> inode option" where
  "os_Open fs path =
     (case os_Stat fs path of None \<Rightarrow> None | Some (i, n) \<Rightarrow> (if fn_deny n then None else Some i))"

text \<open>\<open>File.Stat\<close> on an open file: its size, by inode.\<close>

definition os_Size :: "fsys \<Rightarrow> inode \<Rightarrow> int option" where
  "os_Size fs i = map_option (\<lambda>n. int (length (fn_data n))) (gm_get (fs_nodes fs) i)"

text \<open>\<open>File.Seek\<close> fails on a negative position only; a position past the end is allowed.\<close>

definition os_Seek :: "int \<Rightarrow> nat option" where
  "os_Seek off = (if off < 0 then None else Some (nat off))"

section \<open>Reading up to a line feed\<close>

datatype ioerr = EOF | IOErr gerr

definition NL :: char where
  "NL = CHR 0x0A"

text \<open>
  \<open>bufio.Reader.ReadString\<close> at a position: the bytes up to and including the next line feed, or all
  that is left with \<open>io.EOF\<close>.
\<close>

definition next_seg :: "string \<Rightarrow> string" where
  "next_seg s = takeWhile (\<lambda>c. c \<noteq> NL) s @ take 1 (dropWhile (\<lambda>c. c \<noteq> NL) s)"

definition ReadString :: "fsys \<Rightarrow> inode \<Rightarrow> nat \<Rightarrow> string \<times> ioerr option" where
  "ReadString fs i pos =
     (case gm_get (fs_nodes fs) i of
        None \<Rightarrow> ([], Some (IOErr ''stale file handle''))
      | Some n \<Rightarrow>
          (if fn_bad n then ([], Some (IOErr ''input/output error''))
           else (let s = drop pos (fn_data n)
                 in (next_seg s, if NL \<in> set s then None else Some EOF))))"

section \<open>State files\<close>

datatype sysres = SysFail nat | SysOk

record metafs =
  mf_files :: "(string, string) gomap"
  mf_script :: "sysres list"

definition sys_next :: "metafs \<Rightarrow> sysres \<times> metafs" where
  "sys_next m = (case mf_script m of [] \<Rightarrow> (SysOk, m) | r # sc \<Rightarrow> (r, m\<lparr>mf_script := sc\<rparr>))"

definition os_ReadFile :: "metafs \<Rightarrow> string \<Rightarrow> string option" where
  "os_ReadFile m path = gm_get (mf_files m) path"

text \<open>Directories of state files are not represented; creating them can fail.\<close>

definition os_MkdirAll :: "string \<Rightarrow> metafs \<Rightarrow> bool \<times> metafs" where
  "os_MkdirAll dir m = (case sys_next m of (SysOk, m') \<Rightarrow> (True, m') | (SysFail n, m') \<Rightarrow> (False, m'))"

definition os_WriteFile :: "string \<Rightarrow> string \<Rightarrow> metafs \<Rightarrow> bool \<times> metafs" where
  "os_WriteFile path data m =
     (case sys_next m of
        (SysOk, m') \<Rightarrow> (True, m'\<lparr>mf_files := gm_put path data (mf_files m')\<rparr>)
      | (SysFail n, m') \<Rightarrow> (False, m'\<lparr>mf_files := gm_put path (take n data) (mf_files m')\<rparr>))"

definition os_Rename :: "string \<Rightarrow> string \<Rightarrow> metafs \<Rightarrow> bool \<times> metafs" where
  "os_Rename old new m =
     (case sys_next m of
        (SysFail n, m') \<Rightarrow> (False, m')
      | (SysOk, m') \<Rightarrow>
          (case gm_get (mf_files m') old of
             None \<Rightarrow> (False, m')
           | Some data \<Rightarrow>
               (True, m'\<lparr>mf_files := gm_put new data (gm_del old (mf_files m'))\<rparr>)))"

text \<open>
  The idiom the inputs share: make the directory, write \<open>path.tmp\<close>, rename it over \<open>path\<close>, and stop
  at the first failure.
\<close>

definition write_rename :: "string \<Rightarrow> string \<Rightarrow> metafs \<Rightarrow> bool \<times> metafs" where
  "write_rename path data m =
     (case os_MkdirAll (path_dir path) m of
        (False, m1) \<Rightarrow> (False, m1)
      | (True, m1) \<Rightarrow>
          (case os_WriteFile (path @ ''.tmp'') data m1 of
             (False, m2) \<Rightarrow> (False, m2)
           | (True, m2) \<Rightarrow> os_Rename (path @ ''.tmp'') path m2))"

section \<open>Facts\<close>

lemma tmp_neq [simp]: "path @ ''.tmp'' \<noteq> path" "path \<noteq> path @ ''.tmp''"
  by (metis append_self_conv list.distinct(1))+

lemma sys_next_files [simp]: "sys_next m = (r, m') \<Longrightarrow> mf_files m' = mf_files m"
  by (auto simp: sys_next_def split: list.splits)

text \<open>Whatever fails, the state file holds its old content or the whole new one.\<close>

lemma write_rename_atomic:
  assumes "write_rename path data m = (ok, m')"
  shows "os_ReadFile m' path = (if ok then Some data else os_ReadFile m path)"
proof -
  have rename: "os_ReadFile w' path = (if b then Some data else os_ReadFile w path)"
    if "os_Rename (path @ ''.tmp'') path w = (b, w')" "gm_get (mf_files w) (path @ ''.tmp'') = Some data" for b w w'
    using that
    by (auto simp: os_Rename_def os_ReadFile_def gomap_simps split: prod.splits sysres.splits option.splits)
  have wr: "os_ReadFile w' path = os_ReadFile w path \<and> (b \<longrightarrow> gm_get (mf_files w') (path @ ''.tmp'') = Some data)"
    if "os_WriteFile (path @ ''.tmp'') data w = (b, w')" for b w w'
    using that
    by (auto simp: os_WriteFile_def os_ReadFile_def gomap_simps split: prod.splits sysres.splits)
  have mk: "mf_files w' = mf_files w" if "os_MkdirAll dir w = (b, w')" for b w w' dir
    using that by (auto simp: os_MkdirAll_def split: prod.splits sysres.splits)
  obtain b1 m1 where m1: "os_MkdirAll (path_dir path) m = (b1, m1)" by fastforce
  obtain b2 m2 where m2: "os_WriteFile (path @ ''.tmp'') data m1 = (b2, m2)" by fastforce
  have old: "os_ReadFile m1 path = os_ReadFile m path" using mk[OF m1] by (simp add: os_ReadFile_def)
  show ?thesis
  proof (cases "b1 \<and> b2")
    case True
    with assms m1 m2 have "os_Rename (path @ ''.tmp'') path m2 = (ok, m')" by (simp add: write_rename_def)
    from rename[OF this] wr[OF m2] True old show ?thesis by simp
  next
    case False
    with assms m1 m2 have "\<not> ok" "m' = m1 \<or> m' = m2" by (auto simp: write_rename_def split: bool.splits)
    with wr[OF m2] old show ?thesis by auto
  qed
qed

lemma write_rename_ok: "mf_script m = [] \<Longrightarrow> \<exists>m'. write_rename path data m = (True, m') \<and> mf_script m' = []"
  by (simp add: write_rename_def os_MkdirAll_def os_WriteFile_def os_Rename_def sys_next_def gomap_simps)

lemma next_seg_Nil [simp]: "next_seg [] = []"
  by (simp add: next_seg_def)

lemma next_seg_not_Nil: "s \<noteq> [] \<Longrightarrow> next_seg s \<noteq> []"
  by (cases s) (auto simp: next_seg_def)

lemma next_seg_prefix: "next_seg s = take (length (next_seg s)) s"
proof -
  have "s = takeWhile (\<lambda>c. c \<noteq> NL) s @ dropWhile (\<lambda>c. c \<noteq> NL) s" by simp
  then have "s = next_seg s @ drop 1 (dropWhile (\<lambda>c. c \<noteq> NL) s)"
    by (metis append.assoc append_take_drop_id next_seg_def)
  then show ?thesis by (metis append_eq_conv_conj)
qed

lemma next_seg_length: "length (next_seg s) \<le> length s"
  by (metis next_seg_prefix length_take min.cobounded1)

text \<open>A file as the sequence of its lines, each with its line feed; the last one may lack it.\<close>

function segments :: "string \<Rightarrow> string list" where
  "segments s = (if s = [] then [] else next_seg s # segments (drop (length (next_seg s)) s))"
  by pat_completeness auto
termination
  by (relation "measure length") (auto simp: next_seg_not_Nil)

declare segments.simps [simp del]

lemma segments_Nil [simp]: "segments [] = []"
  by (simp add: segments.simps)

lemma segments_step: "s \<noteq> [] \<Longrightarrow> segments s = next_seg s # segments (drop (length (next_seg s)) s)"
  by (subst segments.simps) simp

lemma concat_segments [simp]: "concat (segments s) = s"
proof (induction s rule: segments.induct)
  case (1 s)
  show ?case
  proof (cases "s = []")
    case False
    with 1 have "concat (segments s) = next_seg s @ drop (length (next_seg s)) s"
      by (subst segments_step) auto
    then show ?thesis by (metis append_take_drop_id next_seg_prefix)
  qed simp
qed

lemma segments_lines:
  "x \<in> set (segments s) \<Longrightarrow> x \<noteq> [] \<and> NL \<notin> set (butlast x)"
proof (induction s rule: segments.induct)
  case (1 s)
  show ?case
  proof (cases "s = []")
    case False
    have no_nl: "NL \<notin> set (butlast (next_seg s))"
      by (cases "dropWhile (\<lambda>c. c \<noteq> NL) s")
        (auto simp: next_seg_def butlast_append dest: in_set_butlastD set_takeWhileD)
    show ?thesis
    proof (cases "x = next_seg s")
      case True
      with no_nl next_seg_not_Nil[OF False] show ?thesis by simp
    next
      case neq: False
      with "1.prems" False have "x \<in> set (segments (drop (length (next_seg s)) s))"
        by (simp add: segments_step)
      then show ?thesis by (rule "1.IH"[OF False])
    qed
  qed (use "1.prems" in simp)
qed

section \<open>Clean paths\<close>

lemma split_slash_not_Nil [simp]: "split_slash s \<noteq> []"
  by (cases s) (auto split: list.splits)

lemma split_slash_append: "split_slash (a @ CHR ''/'' # b) = split_slash a @ split_slash b"
proof (induction a)
  case (Cons c a)
  then show ?case by (cases "split_slash a") auto
qed simp

lemma split_slash_none: "CHR ''/'' \<notin> set s \<Longrightarrow> split_slash s = [s]"
  by (induction s) auto

lemma clean_elems_append:
  "clean_elems rooted st (ps @ qs) = clean_elems rooted (clean_elems rooted st ps) qs"
  by (induction rooted st ps rule: clean_elems.induct) (auto split: list.splits)

definition path_elem :: "string \<Rightarrow> bool" where
  "path_elem n = (n \<noteq> [] \<and> n \<noteq> ''.'' \<and> n \<noteq> ''..'' \<and> CHR ''/'' \<notin> set n)"

lemma str_join_snoc: "xs \<noteq> [] \<Longrightarrow> str_join sep (xs @ [x]) = str_join sep xs @ sep @ x"
  by (induction sep xs rule: str_join.induct) auto

text \<open>Joining an element to a clean absolute directory.\<close>

lemma path_join_child:
  assumes "path_clean dir = dir" and "take 1 dir = ''/''" and "dir \<noteq> ''/''" and "path_elem n"
  shows "path_join [dir, n] = dir @ ''/'' @ n"
proof -
  let ?st = "clean_elems True [] (split_slash dir)"
  have "path_clean dir = CHR ''/'' # str_join ''/'' (rev ?st)"
    using assms(2) by (simp add: path_clean_def)
  note dir = this[unfolded assms(1)]
  with assms(3) have "?st \<noteq> []" by auto
  then have "str_join ''/'' (rev ?st @ [n]) = str_join ''/'' (rev ?st) @ ''/'' @ n"
    by (intro str_join_snoc) simp
  moreover have "clean_elems True [] (split_slash (dir @ ''/'' @ n)) = n # ?st"
    using assms(4) by (simp add: split_slash_append split_slash_none clean_elems_append path_elem_def)
  moreover have "dir \<noteq> []" "n \<noteq> []" "take 1 (dir @ ''/'' @ n) = ''/''"
    using assms by (cases dir; auto simp: path_elem_def)+
  ultimately show ?thesis
    using dir by (simp add: path_join_def path_clean_def Let_def)
qed

lemma path_base_child: "path_elem n \<Longrightarrow> path_base (dir @ ''/'' @ n) = n"
proof -
  assume n: "path_elem n"
  then have "last n \<noteq> CHR ''/''" by (metis last_in_set path_elem_def)
  with n have "dropWhile (\<lambda>c. c = CHR ''/'') (rev (dir @ ''/'' @ n)) = rev (dir @ ''/'' @ n)"
    by (cases "rev n") (auto simp: path_elem_def hd_rev)
  with n show ?thesis
    by (simp add: path_base_def split_slash_append split_slash_none path_elem_def)
qed

end
