(* ===== verification/DirInput.thy ===== *)
theory DirInput
  imports Transforms FileSys
begin

text \<open>
  \<open>internal/log-pilot-agent/input/dir.go\<close>: the input that reads a directory of log files in order of
  modification time, tracks rotation by inode and persists its position.

  The state \<open>dirInput\<close> has the fields of the Go struct; the pair of \<open>*os.File\<close> and \<open>*bufio.Reader\<close> is
  the inode it holds open and the position of the next unread byte. Every method is one function.
  \<open>ReadBatch\<close> runs under a list of \<open>tick\<close>s, one for each turn of its loop: whether the context is done
  and the snapshot of the file system that turn sees. The list ends where the 100 ms window ends.
  Compiled regular expressions are predicates on names; \<open>regexp.Compile\<close> is the argument \<open>compile\<close>.
  Ties in modification time are kept in name order (\<open>sort.Slice\<close> leaves their order open).
\<close>

record DirConfig =
  dc_Dir :: string
  dc_MetaPath :: string
  dc_ReadFrom :: string
  dc_Include :: "string list"
  dc_Exclude :: "string list"
  dc_OffsetCommitEvery :: int

record dirInput =
  d_cfg :: DirConfig
  d_currentF :: "(inode \<times> nat) option"
  d_currentFile :: string
  d_currentInode :: inode
  d_offset :: int
  d_doneInodes :: "(string, int) gomap"
  d_include :: "(string \<Rightarrow> bool) list"
  d_exclude :: "(string \<Rightarrow> bool) list"
  d_stopped :: bool
  d_lag :: int
  d_readCount :: nat

record tick =
  tk_done :: bool
  tk_fs :: fsys

section \<open>Listing the directory\<close>

definition compilePatterns :: "(string \<Rightarrow> (string \<Rightarrow> bool) option) \<Rightarrow> string list \<Rightarrow> (string \<Rightarrow> bool) list" where
  "compilePatterns compile patterns = List.map_filter compile patterns"

definition passes :: "(string \<Rightarrow> bool) list \<Rightarrow> (string \<Rightarrow> bool) list \<Rightarrow> string \<Rightarrow> bool" where
  "passes includeRe excludeRe name =
     ((includeRe = [] \<or> list_ex (\<lambda>re. re name) includeRe) \<and> \<not> list_ex (\<lambda>re. re name) excludeRe)"

definition passesFilter :: "dirInput \<Rightarrow> string \<Rightarrow> bool" where
  "passesFilter d name = passes (d_include d) (d_exclude d) name"

definition listFiles :: "fsys \<Rightarrow> dirInput \<Rightarrow> string list" where
  "listFiles fs d =
     (case os_ReadDir fs (dc_Dir (d_cfg d)) of
        None \<Rightarrow> []
      | Some names \<Rightarrow>
          map fst (sort_key snd (List.map_filter
            (\<lambda>name. let path = path_join [dc_Dir (d_cfg d), name] in
               (case os_Stat fs path of
                  None \<Rightarrow> None
                | Some (i, n) \<Rightarrow>
                    (if fn_dir n \<or> \<not> passesFilter d name then None else Some (path, fn_mtime n))))
            names)))"

definition inodeFromPath :: "fsys \<Rightarrow> string \<Rightarrow> inode option" where
  "inodeFromPath fs path = map_option fst (os_Stat fs path)"

definition inode_key :: "inode \<Rightarrow> string" where
  "inode_key i = show_nat (unat i)"

section \<open>Opening, rotation, advancing\<close>

definition updateLag :: "fsys \<Rightarrow> dirInput \<Rightarrow> dirInput" where
  "updateLag fs d =
     (case d_currentF d of
        None \<Rightarrow> d
      | Some (i, pos) \<Rightarrow>
          (case os_Size fs i of
             None \<Rightarrow> d
           | Some sz \<Rightarrow> d\<lparr>d_lag := max (sz - d_offset d) 0\<rparr>))"

definition openFile :: "fsys \<Rightarrow> dirInput \<Rightarrow> bool \<times> dirInput" where
  "openFile fs d =
     (let pick =
        (if d_currentFile d \<noteq> [] then Some (d_currentFile d, d_offset d)
         else (case listFiles fs d of
            [] \<Rightarrow> None
          | f # files \<Rightarrow>
              (if dc_ReadFrom (d_cfg d) = ''newest'' then Some (last (f # files), - 1) else Some (f, 0))))
      in (case pick of
         None \<Rightarrow> (False, d)
       | Some (target, off) \<Rightarrow>
           (case os_Open fs target of
              None \<Rightarrow> (False, d\<lparr>d_currentFile := []\<rparr>)
            | Some i \<Rightarrow>
                (let start =
                   (if off < 0 then os_Size fs i
                    else if 0 < off then
                      (case os_Seek off of None \<Rightarrow> Some 0 | Some p \<Rightarrow> Some (int p))
                    else Some 0)
                 in (case start of
                    None \<Rightarrow> (False, d)
                  | Some off' \<Rightarrow>
                      (True, updateLag fs (d\<lparr>d_currentF := Some (i, nat off'), d_currentFile := target,
                         d_offset := off', d_currentInode := i\<rparr>)))))))"

definition detectRotation :: "fsys \<Rightarrow> dirInput \<Rightarrow> bool" where
  "detectRotation fs d =
     (if d_currentF d = None \<or> d_currentFile d = [] then False
      else (case os_Stat fs (d_currentFile d) of
         None \<Rightarrow> True
       | Some (i, n) \<Rightarrow>
           (i \<noteq> 0 \<and> d_currentInode d \<noteq> 0 \<and> i \<noteq> d_currentInode d)
           \<or> int (length (fn_data n)) < d_offset d))"

definition markCurrentDone :: "dirInput \<Rightarrow> dirInput" where
  "markCurrentDone d =
     (if d_currentInode d \<noteq> 0 then
        d\<lparr>d_doneInodes := gm_put (inode_key (d_currentInode d)) (d_offset d) (d_doneInodes d)\<rparr>
      else d)"

definition strip_eol :: "string \<Rightarrow> string" where
  "strip_eol s = rev (dropWhile (\<lambda>c. c = NL \<or> c = CHR 0x0D) (rev s))"

definition readLine :: "fsys \<Rightarrow> dirInput \<Rightarrow> (string \<times> nat \<times> ioerr option) \<times> dirInput" where
  "readLine fs d =
     (case (if d_currentF d = None then openFile fs d else (True, d)) of
        (False, d1) \<Rightarrow> (([], 0, Some EOF), d1)
      | (True, d1) \<Rightarrow>
          (if detectRotation fs d1 then
             (([], 0, Some EOF),
              (markCurrentDone d1)\<lparr>d_currentF := None, d_currentFile := [], d_offset := 0\<rparr>)
           else (case d_currentF d1 of
              None \<Rightarrow> (([], 0, Some EOF), d1)
            | Some (i, pos) \<Rightarrow>
                (case ReadString fs i pos of
                   (raw, err) \<Rightarrow>
                     (let n = length raw; d2 = d1\<lparr>d_currentF := Some (i, pos + n)\<rparr>
                      in if 0 < n then
                           ((strip_eol raw, n, if err = None \<or> err = Some EOF then None else err), d2)
                         else (([], 0, err), d2))))))"

fun advance_loop :: "fsys \<Rightarrow> string \<Rightarrow> string list \<Rightarrow> dirInput \<Rightarrow> bool \<times> dirInput" where
  "advance_loop fs currentBase [] d = (False, d)"
| "advance_loop fs currentBase (path # paths) d =
     (case inodeFromPath fs path of
        None \<Rightarrow> advance_loop fs currentBase paths d
      | Some i \<Rightarrow>
          (if gm_get (d_doneInodes d) (inode_key i) \<noteq> None then advance_loop fs currentBase paths d
           else if path_base path = currentBase \<and> d_currentFile d = path then
             advance_loop fs currentBase paths d
           else
             (let d1 = (case d_currentF d of None \<Rightarrow> d | Some f \<Rightarrow> (markCurrentDone d)\<lparr>d_currentF := None\<rparr>);
                  d2 = d1\<lparr>d_currentFile := path, d_offset := 0\<rparr>
              in (case openFile fs d2 of
                    (True, d3) \<Rightarrow> (True, d3)
                  | (False, d3) \<Rightarrow> advance_loop fs currentBase paths d3))))"

definition advanceFile :: "fsys \<Rightarrow> dirInput \<Rightarrow> bool \<times> dirInput" where
  "advanceFile fs d =
     (let files = listFiles fs d in
      if files = [] then (False, d)
      else advance_loop fs (if d_currentFile d \<noteq> [] then path_base (d_currentFile d) else []) files d)"

section \<open>ReadBatch\<close>

definition line_record :: "string \<Rightarrow> LogRecord" where
  "line_record line = \<lparr>rec_Data = line, rec_Offset = 0, rec_Meta = None\<rparr>"

fun dir_loop :: "tick list \<Rightarrow> int \<Rightarrow> LogRecord list \<Rightarrow> dirInput \<Rightarrow> LogRecord list \<times> dirInput" where
  "dir_loop [] sz records d = (records, d)"
| "dir_loop (t # ts) sz records d =
     (if \<not> int (length records) < sz then (records, d)
      else if tk_done t then (records, d)
      else (case readLine (tk_fs t) d of
         ((line, n, err), d1) \<Rightarrow>
           (let d2 = (if 0 < n then updateLag (tk_fs t) (d1\<lparr>d_offset := d_offset d1 + int n\<rparr>) else d1);
                records' = (if line \<noteq> [] then records @ [line_record line] else records);
                d3 = (if line \<noteq> [] then d2\<lparr>d_readCount := d_readCount d2 + 1\<rparr> else d2)
            in (case err of
                  None \<Rightarrow> dir_loop ts sz records' d3
                | Some EOF \<Rightarrow>
                    (case advanceFile (tk_fs t) d3 of
                       (True, d4) \<Rightarrow> dir_loop ts sz records' d4
                     | (False, d4) \<Rightarrow> (records', d4))
                | Some (IOErr e) \<Rightarrow> (records', d3)))))"

definition dir_ReadBatch :: "tick list \<Rightarrow> int \<Rightarrow> dirInput \<Rightarrow> LogRecord list \<times> dirInput" where
  "dir_ReadBatch ts sz d = (if d_stopped d then ([], d) else dir_loop ts sz [] d)"

definition dir_Lag :: "dirInput \<Rightarrow> int" where
  "dir_Lag d = d_lag d"

section \<open>Persistent state\<close>

definition pruneStaleInodes :: "fsys \<Rightarrow> dirInput \<Rightarrow> dirInput" where
  "pruneStaleInodes fs d =
     (if d_doneInodes d = [] then d
      else (case os_ReadDir fs (dc_Dir (d_cfg d)) of
         None \<Rightarrow> d
       | Some names \<Rightarrow>
           (let current = List.map_filter
              (\<lambda>name. (case os_Stat fs (path_join [dc_Dir (d_cfg d), name]) of
                 None \<Rightarrow> None
               | Some (i, n) \<Rightarrow> (if fn_dir n then None else Some (inode_key i)))) names
            in d\<lparr>d_doneInodes := filter (\<lambda>(k, off). k \<in> set current) (d_doneInodes d)\<rparr>)))"

definition state_json :: "dirInput \<Rightarrow> json" where
  "state_json d =
     JObj [(''currentFile'', JStr (d_currentFile d)), (''offset'', JNum (show_int (d_offset d))),
       (''doneInodes'', JObj (map (\<lambda>(k, v). (k, JNum (show_int v))) (sort_key fst (d_doneInodes d))))]"

definition commitState :: "fsys \<Rightarrow> dirInput \<Rightarrow> metafs \<Rightarrow> dirInput \<times> metafs" where
  "commitState fs d m =
     (let d' = pruneStaleInodes fs (updateLag fs d) in
      if dc_MetaPath (d_cfg d) = [] then (d', m)
      else (d', snd (write_rename (dc_MetaPath (d_cfg d)) (json_print (state_json d')) m)))"

definition dir_Commit :: "fsys \<Rightarrow> dirInput \<Rightarrow> metafs \<Rightarrow> dirInput \<times> metafs" where
  "dir_Commit fs d m = commitState fs d m"

definition dir_Close :: "fsys \<Rightarrow> dirInput \<Rightarrow> metafs \<Rightarrow> dirInput \<times> metafs" where
  "dir_Close fs d m =
     (case commitState fs (d\<lparr>d_stopped := True\<rparr>) m of
        (d', m') \<Rightarrow> (if d_currentF d' \<noteq> None then d'\<lparr>d_currentF := None\<rparr> else d', m'))"

definition state_tags :: "string list" where
  "state_tags = [''currentFile'', ''offset'', ''doneInodes'']"

fun dec_state :: "json \<Rightarrow> (string \<times> int \<times> (string, int) gomap option) option" where
  "dec_state (JObj ms) = do {
     f \<leftarrow> dec_field dec_string [] (field_vals state_tags ''currentFile'' ms);
     off \<leftarrow> dec_field dec_int64 0 (field_vals state_tags ''offset'' ms);
     inodes \<leftarrow> dec_field (dec_map dec_int64) None (field_vals state_tags ''doneInodes'' ms);
     Some (f, off, inodes) }"
| "dec_state JNull = Some ([], 0, None)"
| "dec_state _ = None"

definition loadState :: "metafs \<Rightarrow> dirInput \<Rightarrow> dirInput" where
  "loadState m d =
     (if dc_MetaPath (d_cfg d) = [] then d
      else (case os_ReadFile m (dc_MetaPath (d_cfg d)) of
         None \<Rightarrow> d
       | Some raw \<Rightarrow>
           (case Option.bind (json_parse raw) dec_state of
              None \<Rightarrow> d
            | Some (f, off, inodes) \<Rightarrow>
                (let d1 = d\<lparr>d_currentFile := f, d_offset := off\<rparr>
                 in (case inodes of None \<Rightarrow> d1 | Some is \<Rightarrow> d1\<lparr>d_doneInodes := is\<rparr>)))))"

definition NewDirInput ::
    "(string \<Rightarrow> (string \<Rightarrow> bool) option) \<Rightarrow> DirConfig \<Rightarrow> metafs \<Rightarrow> dirInput" where
  "NewDirInput compile cfg m =
     (let cfg' = (if dc_OffsetCommitEvery cfg = 0 then cfg\<lparr>dc_OffsetCommitEvery := 20000\<rparr> else cfg)
      in loadState m
        \<lparr>d_cfg = cfg', d_currentF = None, d_currentFile = [], d_currentInode = 0, d_offset = 0,
         d_doneInodes = [], d_include = compilePatterns compile (dc_Include cfg'),
         d_exclude = compilePatterns compile (dc_Exclude cfg'), d_stopped = False, d_lag = 0,
         d_readCount = 0\<rparr>)"

section \<open>What each step leaves unchanged\<close>

lemma updateLag_frame [frame_simps]:
  "d_cfg (updateLag fs d) = d_cfg d" "d_currentF (updateLag fs d) = d_currentF d"
  "d_currentFile (updateLag fs d) = d_currentFile d" "d_currentInode (updateLag fs d) = d_currentInode d"
  "d_offset (updateLag fs d) = d_offset d" "d_doneInodes (updateLag fs d) = d_doneInodes d"
  "d_include (updateLag fs d) = d_include d" "d_exclude (updateLag fs d) = d_exclude d"
  "d_stopped (updateLag fs d) = d_stopped d"
  by (simp_all add: updateLag_def split: option.splits)

lemma markCurrentDone_frame [frame_simps]:
  "d_cfg (markCurrentDone d) = d_cfg d" "d_currentF (markCurrentDone d) = d_currentF d"
  "d_currentFile (markCurrentDone d) = d_currentFile d" "d_currentInode (markCurrentDone d) = d_currentInode d"
  "d_offset (markCurrentDone d) = d_offset d" "d_include (markCurrentDone d) = d_include d"
  "d_exclude (markCurrentDone d) = d_exclude d" "d_stopped (markCurrentDone d) = d_stopped d"
  "d_lag (markCurrentDone d) = d_lag d"
  by (simp_all add: markCurrentDone_def)

lemma markCurrentDone_done [frame_simps]:
  "d_doneInodes (markCurrentDone d) =
    (if d_currentInode d \<noteq> 0 then gm_put (inode_key (d_currentInode d)) (d_offset d) (d_doneInodes d) else d_doneInodes d)"
  by (simp add: markCurrentDone_def)

lemma listFiles_cong:
  assumes "d_cfg d = d_cfg e" "d_include d = d_include e" "d_exclude d = d_exclude e"
  shows "listFiles fs d = listFiles fs e"
proof -
  have pf: "passesFilter d = passesFilter e"
    by (rule ext) (simp add: passesFilter_def assms)
  show ?thesis unfolding listFiles_def assms(1) pf by (rule refl)
qed

lemma openFile_frame [frame_simps]:
  assumes "openFile fs d = (ok, d')"
  shows "d_cfg d' = d_cfg d" "d_doneInodes d' = d_doneInodes d" "d_include d' = d_include d"
    "d_exclude d' = d_exclude d" "d_stopped d' = d_stopped d"
  using assms
  by (auto simp: openFile_def Let_def updateLag_frame split: if_splits option.splits list.splits)

lemma inode_key_inj: "inode_key i = inode_key j \<longleftrightarrow> i = j"
  unfolding inode_key_def using show_nat_inj word_unat_eq_iff by metis

section \<open>One line\<close>

text \<open>The file \<open>f\<close> is open at \<open>pos\<close> and the name still leads to the same inode.\<close>

definition reading :: "fsys \<Rightarrow> dirInput \<Rightarrow> string \<Rightarrow> nat \<Rightarrow> bool" where
  "reading fs d f pos \<longleftrightarrow>
     f \<noteq> [] \<and> d_currentFile d = f \<and> d_offset d = int pos \<and>
     (case os_Stat fs f of
        None \<Rightarrow> False
      | Some (i, n) \<Rightarrow> d_currentF d = Some (i, pos) \<and> d_currentInode d = i
          \<and> pos \<le> length (fn_data n) \<and> \<not> fn_bad n)"

definition file_data :: "fsys \<Rightarrow> string \<Rightarrow> string" where
  "file_data fs f = (case os_Stat fs f of None \<Rightarrow> [] | Some (i, n) \<Rightarrow> fn_data n)"

definition file_inode :: "fsys \<Rightarrow> string \<Rightarrow> inode" where
  "file_inode fs f = (case os_Stat fs f of None \<Rightarrow> 0 | Some (i, n) \<Rightarrow> i)"

lemma readingE:
  assumes "reading fs d f pos"
  obtains i n where "os_Stat fs f = Some (i, n)" "gm_get (fs_nodes fs) i = Some n" "d_currentF d = Some (i, pos)"
    "d_currentInode d = i" "d_currentFile d = f" "d_offset d = int pos" "f \<noteq> []"
    "pos \<le> length (fn_data n)" "\<not> fn_bad n" "file_data fs f = fn_data n" "file_inode fs f = i"
  using assms by (auto simp: reading_def file_data_def file_inode_def os_Stat_def split: option.splits)

lemma reading_no_rotation: "reading fs d f pos \<Longrightarrow> \<not> detectRotation fs d"
  by (erule readingE) (simp add: detectRotation_def)

lemma reading_ReadString:
  assumes "reading fs d f pos" and "d_currentF d = Some (i, p)"
  shows "ReadString fs i p = (next_seg (drop pos (file_data fs f)), if NL \<in> set (drop pos (file_data fs f)) then None else Some EOF)"
  using assms by (auto elim!: readingE simp: ReadString_def Let_def)

lemma strip_eol_Nil [simp]: "strip_eol [] = []"
  by (simp add: strip_eol_def)

lemma reading_readLine:
  assumes r: "reading fs d f pos"
  defines "seg \<equiv> next_seg (drop pos (file_data fs f))"
  shows "readLine fs d =
    ((strip_eol seg, length seg, if seg = [] then Some EOF else None),
     d\<lparr>d_currentF := Some (file_inode fs f, pos + length seg)\<rparr>)"
proof -
  from r obtain i where i: "d_currentF d = Some (i, pos)" "file_inode fs f = i"
    by (elim readingE) simp
  let ?rest = "drop pos (file_data fs f)"
  have rs: "ReadString fs i pos = (seg, if NL \<in> set ?rest then None else Some EOF)"
    unfolding seg_def by (rule reading_ReadString[OF r i(1)])
  have eof: "NL \<notin> set ?rest" if "seg = []"
    using that next_seg_not_Nil[of ?rest] unfolding seg_def by (cases "?rest = []") simp_all
  have "readLine fs d = (case ReadString fs i pos of (raw, err) \<Rightarrow>
      (let n = length raw; d2 = d\<lparr>d_currentF := Some (i, pos + n)\<rparr>
       in if 0 < n then ((strip_eol raw, n, if err = None \<or> err = Some EOF then None else err), d2)
          else (([], 0, err), d2)))"
    using i reading_no_rotation[OF r] by (simp add: readLine_def)
  also have "\<dots> = ((strip_eol seg, length seg, if seg = [] then Some EOF else None),
     d\<lparr>d_currentF := Some (i, pos + length seg)\<rparr>)"
    unfolding rs using eof by (cases "seg = []") (simp_all add: Let_def)
  finally show ?thesis by (simp only: i(2))
qed

text \<open>Consuming a segment keeps the file open at the position after it.\<close>

lemma reading_advance:
  assumes r: "reading fs d f pos" and le: "pos + k \<le> length (file_data fs f)"
  shows "reading fs (updateLag fs (d\<lparr>d_currentF := Some (file_inode fs f, pos + k), d_offset := d_offset d + int k\<rparr>)) f (pos + k)"
  using r
proof (rule readingE)
  fix i n
  assume h: "os_Stat fs f = Some (i, n)" "d_currentF d = Some (i, pos)" "d_currentInode d = i"
    "d_currentFile d = f" "d_offset d = int pos" "f \<noteq> []" "\<not> fn_bad n" "file_data fs f = fn_data n" "file_inode fs f = i"
  show ?thesis using h le by (simp add: reading_def updateLag_frame)
qed

lemma reading_lag:
  assumes "reading fs d f pos"
  shows "d_lag (updateLag fs d) = int (length (file_data fs f)) - int pos"
  using assms by (rule readingE) (simp add: updateLag_def os_Size_def)

section \<open>Draining a directory nobody is writing to\<close>

definition quiet :: "fsys \<Rightarrow> tick list \<Rightarrow> bool" where
  "quiet fs ts = (\<forall>t\<in>set ts. tk_fs t = fs \<and> \<not> tk_done t)"

lemma quiet_simps [simp]:
  "quiet fs []" "quiet fs (t # ts) = (tk_fs t = fs \<and> \<not> tk_done t \<and> quiet fs ts)"
  by (auto simp: quiet_def)

lemma quiet_drop [simp]: "quiet fs ts \<Longrightarrow> quiet fs (drop n ts)"
  by (auto simp: quiet_def dest: in_set_dropD)

definition lines_of :: "string \<Rightarrow> string list" where
  "lines_of s = filter (\<lambda>l. l \<noteq> []) (map strip_eol (segments s))"

lemma lines_of_step:
  "s \<noteq> [] \<Longrightarrow> lines_of s =
     (if strip_eol (next_seg s) \<noteq> [] then [strip_eol (next_seg s)] else []) @ lines_of (drop (length (next_seg s)) s)"
  by (simp add: lines_of_def segments_step)

lemma lines_of_Nil [simp]: "lines_of [] = []"
  by (simp add: lines_of_def)

definition same_input :: "dirInput \<Rightarrow> dirInput \<Rightarrow> bool" where
  "same_input d e = (d_cfg e = d_cfg d \<and> d_include e = d_include d \<and> d_exclude e = d_exclude d
     \<and> d_stopped e = d_stopped d)"

lemma same_input_refl [simp]: "same_input d d" by (simp add: same_input_def)
lemma same_input_trans: "same_input d e \<Longrightarrow> same_input e g \<Longrightarrow> same_input d g" by (simp add: same_input_def)
lemma same_input_files: "same_input d e \<Longrightarrow> listFiles fs e = listFiles fs d"
  by (rule listFiles_cong) (simp_all add: same_input_def)

definition at :: "fsys \<Rightarrow> dirInput \<Rightarrow> string \<Rightarrow> nat \<Rightarrow> bool" where
  "at fs d f pos = (reading fs d f pos \<and> d_lag d = int (length (file_data fs f)) - int pos)"

lemma at_readCount [simp]: "at fs (d\<lparr>d_readCount := k\<rparr>) f pos = at fs d f pos"
  by (simp add: at_def reading_def split: option.split)

text \<open>One turn of the loop with bytes left in the file.\<close>

lemma dir_loop_line:
  assumes "at fs d f pos" and "quiet fs (t # ts)" and "int (length recs) < sz"
    and ne: "drop pos (file_data fs f) \<noteq> []"
  defines "seg \<equiv> next_seg (drop pos (file_data fs f))"
  shows "\<exists>d'. dir_loop (t # ts) sz recs d =
      dir_loop ts sz (recs @ (if strip_eol seg \<noteq> [] then [line_record (strip_eol seg)] else [])) d'
    \<and> at fs d' f (pos + length seg) \<and> same_input d d' \<and> d_doneInodes d' = d_doneInodes d"
proof -
  have r: "reading fs d f pos" using assms(1) by (simp add: at_def)
  have seg: "seg \<noteq> []" unfolding seg_def by (rule next_seg_not_Nil[OF ne])
  have le: "pos + length seg \<le> length (file_data fs f)"
    using next_seg_length[of "drop pos (file_data fs f)"] ne unfolding seg_def by simp
  let ?d2 = "updateLag fs (d\<lparr>d_currentF := Some (file_inode fs f, pos + length seg), d_offset := d_offset d + int (length seg)\<rparr>)"
  have adv: "reading fs ?d2 f (pos + length seg)" by (rule reading_advance[OF r le])
  have lag: "d_lag ?d2 = int (length (file_data fs f)) - int (pos + length seg)"
  proof -
    have "d_lag (updateLag fs ?d2) = d_lag ?d2"
      by (simp add: updateLag_def split: option.splits)
    with reading_lag[OF adv] show ?thesis by simp
  qed
  let ?d3 = "if strip_eol seg \<noteq> [] then ?d2\<lparr>d_readCount := d_readCount ?d2 + 1\<rparr> else ?d2"
  have "dir_loop (t # ts) sz recs d =
      dir_loop ts sz (recs @ (if strip_eol seg \<noteq> [] then [line_record (strip_eol seg)] else [])) ?d3"
    using assms(2,3) reading_readLine[OF r, folded seg_def] seg by (simp add: Let_def)
  moreover have "at fs ?d3 f (pos + length seg)"
    using adv lag by (cases "strip_eol seg = []") (simp_all, simp_all add: at_def)
  moreover have "same_input d ?d3 \<and> d_doneInodes ?d3 = d_doneInodes d"
    by (simp add: same_input_def updateLag_frame)
  ultimately show ?thesis by blast
qed

text \<open>The rest of one file.\<close>

lemma dir_loop_file:
  assumes "at fs d f pos" and "quiet fs ts" and "segments (drop pos (file_data fs f)) = segs"
    and "length segs \<le> length ts" and "int (length recs + length segs) \<le> sz"
  shows "\<exists>d'. dir_loop ts sz recs d =
      dir_loop (drop (length segs) ts) sz (recs @ map line_record (lines_of (drop pos (file_data fs f)))) d'
    \<and> at fs d' f (length (file_data fs f)) \<and> same_input d d' \<and> d_doneInodes d' = d_doneInodes d"
  using assms
proof (induction segs arbitrary: pos d ts recs)
  case Nil
  let ?rest = "drop pos (file_data fs f)"
  have rest: "?rest = []" by (metis Nil.prems(3) concat.simps(1) concat_segments)
  have "pos \<le> length (file_data fs f)"
    using Nil.prems(1) unfolding at_def by (auto elim!: readingE)
  with rest have "pos = length (file_data fs f)" by simp
  with Nil.prems(1) rest show ?case by auto
next
  case (Cons seg segs)
  let ?rest = "drop pos (file_data fs f)"
  let ?rec = "if strip_eol seg \<noteq> [] then [line_record (strip_eol seg)] else []"
  from Cons.prems(3) have ne: "?rest \<noteq> []" by auto
  have both: "next_seg ?rest # segments (drop (length (next_seg ?rest)) ?rest) = seg # segs"
    using Cons.prems(3) segments_step[OF ne] by metis
  then have seg: "next_seg ?rest = seg" by blast
  from both have "segments (drop (length seg) ?rest) = segs" unfolding seg by blast
  then have segs: "segments (drop (pos + length seg) (file_data fs f)) = segs"
    by (metis add.commute drop_drop)
  from Cons.prems(4) obtain t ts' where ts: "ts = t # ts'" by (cases ts) auto
  have sz: "int (length recs) < sz" using Cons.prems(5) by simp
  obtain d' where step: "dir_loop (t # ts') sz recs d = dir_loop ts' sz (recs @ ?rec) d'"
    and d': "at fs d' f (pos + length seg)" "same_input d d'" "d_doneInodes d' = d_doneInodes d"
    using dir_loop_line[OF Cons.prems(1) Cons.prems(2)[unfolded ts] sz ne] unfolding seg by blast
  have "quiet fs ts'" "length segs \<le> length ts'" "int (length (recs @ ?rec) + length segs) \<le> sz"
    using Cons.prems ts by auto
  from Cons.IH[OF d'(1) this(1) segs this(2,3)] obtain d'' where
    d'': "dir_loop ts' sz (recs @ ?rec) d' = dir_loop (drop (length segs) ts') sz
        ((recs @ ?rec) @ map line_record (lines_of (drop (pos + length seg) (file_data fs f)))) d''"
    "at fs d'' f (length (file_data fs f))" "same_input d' d''" "d_doneInodes d'' = d_doneInodes d'"
    by blast
  have "map line_record (lines_of ?rest) = ?rec @ map line_record (lines_of (drop (pos + length seg) (file_data fs f)))"
    unfolding lines_of_step[OF ne] seg by (simp add: add.commute)
  with step d' d'' ts show ?case
    by (auto intro!: exI[of _ d''] dest: same_input_trans)
qed

text \<open>The files of a directory that can all be read: distinct, with distinct inodes.\<close>

definition readable :: "fsys \<Rightarrow> string \<Rightarrow> bool" where
  "readable fs f = (f \<noteq> [] \<and> (case os_Stat fs f of None \<Rightarrow> False
     | Some (i, n) \<Rightarrow> i \<noteq> 0 \<and> \<not> fn_deny n \<and> \<not> fn_bad n))"

lemma readableE:
  assumes "readable fs f"
  obtains i n where "os_Stat fs f = Some (i, n)" "gm_get (fs_nodes fs) i = Some n" "i \<noteq> 0" "f \<noteq> []"
    "\<not> fn_deny n" "\<not> fn_bad n" "file_inode fs f = i" "file_data fs f = fn_data n"
  using assms by (auto simp: readable_def file_data_def file_inode_def os_Stat_def split: option.splits)

definition readable_dir :: "fsys \<Rightarrow> string list \<Rightarrow> bool" where
  "readable_dir fs files = (list_all (readable fs) files \<and> distinct files \<and> distinct (map (file_inode fs) files))"

definition is_done :: "fsys \<Rightarrow> dirInput \<Rightarrow> string \<Rightarrow> bool" where
  "is_done fs d f = (gm_get (d_doneInodes d) (inode_key (file_inode fs f)) \<noteq> None)"

lemma openFile_at:
  assumes "readable fs f" "d_currentFile d = f" "d_offset d = int pos" "pos \<le> length (file_data fs f)"
  shows "\<exists>d'. openFile fs d = (True, d') \<and> at fs d' f pos \<and> same_input d d' \<and> d_doneInodes d' = d_doneInodes d"
  using assms(1)
proof (rule readableE)
  fix i n
  assume h: "os_Stat fs f = Some (i, n)" "gm_get (fs_nodes fs) i = Some n" "f \<noteq> []"
    "\<not> fn_deny n" "\<not> fn_bad n" "file_data fs f = fn_data n"
  let ?d = "updateLag fs (d\<lparr>d_currentF := Some (i, pos), d_currentFile := f, d_offset := int pos, d_currentInode := i\<rparr>)"
  have "openFile fs d = (True, ?d)"
    using h assms(2,3) by (simp add: openFile_def os_Open_def os_Seek_def)
  moreover have r: "reading fs ?d f pos"
    using h assms(4) by (simp add: reading_def updateLag_frame)
  moreover have "updateLag fs ?d = ?d" by (simp add: updateLag_def split: option.splits)
  then have "at fs ?d f pos" using r reading_lag[OF r] by (simp add: at_def)
  moreover have "same_input d ?d \<and> d_doneInodes ?d = d_doneInodes d"
    by (simp add: same_input_def updateLag_frame)
  ultimately show ?thesis by blast
qed

lemma inodeFromPath_readable: "readable fs f \<Longrightarrow> inodeFromPath fs f = Some (file_inode fs f)"
  by (erule readableE) (simp add: inodeFromPath_def)

text \<open>Files already done and the current file are passed over.\<close>

lemma advance_loop_skip:
  assumes "\<forall>p\<in>set pre. readable fs p \<and> (is_done fs d p \<or> (p = d_currentFile d \<and> b = path_base p))"
  shows "advance_loop fs b (pre @ post) d = advance_loop fs b post d"
  using assms
  by (induction pre) (auto simp: inodeFromPath_readable is_done_def)

text \<open>The next file is opened at its start and the one before it is marked done.\<close>

lemma advance_loop_open:
  assumes "at fs d f pos" and f: "readable fs f" and g: "readable fs g" "g \<noteq> f" "\<not> is_done fs d g"
  shows "\<exists>d'. advance_loop fs b (g # post) d = (True, d') \<and> at fs d' g 0 \<and> same_input d d'
    \<and> d_doneInodes d' = gm_put (inode_key (file_inode fs f)) (int pos) (d_doneInodes d)"
proof -
  from assms(1) obtain i where cur: "d_currentF d = Some (i, pos)" "d_currentInode d = i" "d_currentFile d = f"
    "d_offset d = int pos" "file_inode fs f = i"
    unfolding at_def by (auto elim!: readingE)
  let ?d2 = "(markCurrentDone d)\<lparr>d_currentF := None, d_currentFile := g, d_offset := 0\<rparr>"
  obtain d' where d': "openFile fs ?d2 = (True, d')" "at fs d' g 0" "same_input ?d2 d'"
    "d_doneInodes d' = d_doneInodes ?d2"
    using openFile_at[OF g(1), of ?d2 0] by auto
  have "i \<noteq> 0" using f cur(5) by (auto elim!: readableE)
  then have "d_doneInodes ?d2 = gm_put (inode_key i) (int pos) (d_doneInodes d)"
    using cur by (simp add: frame_simps)
  moreover have "same_input d ?d2" by (simp add: same_input_def frame_simps)
  moreover have "advance_loop fs b (g # post) d = (True, d')"
    using g cur d'(1) by (simp add: inodeFromPath_readable is_done_def)
  ultimately show ?thesis using d' cur(5) by (auto dest: same_input_trans)
qed

lemma readLine_at_end:
  assumes "at fs d f (length (file_data fs f))"
  shows "readLine fs d = (([], 0, Some EOF), d)"
proof -
  from assms have r: "reading fs d f (length (file_data fs f))" by (simp add: at_def)
  then have "d\<lparr>d_currentF := Some (file_inode fs f, length (file_data fs f))\<rparr> = d"
    by (auto elim!: readingE)
  then show ?thesis using reading_readLine[OF r] by simp
qed

lemma dir_loop_end:
  assumes "at fs d f (length (file_data fs f))" and "quiet fs (t # ts)" and "int (length recs) < sz"
  shows "dir_loop (t # ts) sz recs d =
    (case advanceFile fs d of (True, d') \<Rightarrow> dir_loop ts sz recs d' | (False, d') \<Rightarrow> (recs, d'))"
  using assms readLine_at_end[OF assms(1)] by simp

lemma at_current: "at fs d f pos \<Longrightarrow> d_currentFile d = f \<and> f \<noteq> []"
  unfolding at_def by (auto elim!: readingE)

lemma advanceFile_at:
  assumes "at fs d f pos" and files: "listFiles fs d = pre @ f # post" "readable_dir fs (pre @ f # post)"
    and seen: "\<forall>g\<in>set pre. is_done fs d g"
  shows "advanceFile fs d = advance_loop fs (path_base f) post d"
proof -
  have "\<forall>p\<in>set (pre @ [f]). readable fs p \<and> (is_done fs d p \<or> (p = d_currentFile d \<and> path_base f = path_base p))"
    using at_current[OF assms(1)] files(2) seen by (auto simp: readable_dir_def list_all_iff)
  from advance_loop_skip[OF this, of post] show ?thesis
    using at_current[OF assms(1)] files(1) by (simp add: advanceFile_def)
qed

definition turns :: "string \<Rightarrow> nat" where
  "turns s = length (segments s) + 1"

definition drained :: "fsys \<Rightarrow> dirInput \<Rightarrow> string list \<Rightarrow> bool" where
  "drained fs d files = (files \<noteq> [] \<and> at fs d (last files) (length (file_data fs (last files)))
     \<and> (\<forall>g\<in>set files. is_done fs d g \<longleftrightarrow> g \<noteq> last files))"

lemma lines_of_length: "length (lines_of s) < turns s"
  by (simp add: lines_of_def turns_def less_Suc_eq_le)

lemma dir_loop_file_end:
  assumes "at fs d f pos" and "quiet fs ts" and "turns (drop pos (file_data fs f)) \<le> length ts"
    and "int (length recs + turns (drop pos (file_data fs f))) \<le> sz"
  defines "recs' \<equiv> recs @ map line_record (lines_of (drop pos (file_data fs f)))"
  shows "\<exists>d1 ts'. dir_loop ts sz recs d =
      (case advanceFile fs d1 of (True, d') \<Rightarrow> dir_loop ts' sz recs' d' | (False, d') \<Rightarrow> (recs', d'))
    \<and> at fs d1 f (length (file_data fs f)) \<and> same_input d d1 \<and> d_doneInodes d1 = d_doneInodes d
    \<and> quiet fs ts' \<and> length ts = turns (drop pos (file_data fs f)) + length ts'"
proof -
  let ?segs = "segments (drop pos (file_data fs f))"
  have "length ?segs \<le> length ts" "int (length recs + length ?segs) \<le> sz"
    using assms(3,4) by (auto simp: turns_def)
  from dir_loop_file[OF assms(1,2) refl this] obtain d1 where
    d1: "dir_loop ts sz recs d = dir_loop (drop (length ?segs) ts) sz recs' d1"
    "at fs d1 f (length (file_data fs f))" "same_input d d1" "d_doneInodes d1 = d_doneInodes d"
    unfolding recs'_def by blast
  obtain t ts' where ts: "drop (length ?segs) ts = t # ts'"
    using assms(3) by (cases "drop (length ?segs) ts") (auto simp: turns_def)
  have q: "quiet fs (t # ts')" by (metis assms(2) quiet_drop ts)
  have "length ts = turns (drop pos (file_data fs f)) + length ts'"
    using arg_cong[OF ts, of length] by (simp add: turns_def)
  moreover have "int (length recs') < sz"
    using assms(4) lines_of_length[of "drop pos (file_data fs f)"] by (simp add: recs'_def)
  from dir_loop_end[OF d1(2) q this] d1(1) ts have "dir_loop ts sz recs d =
      (case advanceFile fs d1 of (True, d') \<Rightarrow> dir_loop ts' sz recs' d' | (False, d') \<Rightarrow> (recs', d'))" by simp
  ultimately show ?thesis using d1 q by auto
qed

lemma dir_loop_drain:
  assumes "at fs d f pos" and "quiet fs ts" and "listFiles fs d = pre @ f # post"
    and "readable_dir fs (pre @ f # post)"
    and "\<forall>g\<in>set (pre @ f # post). is_done fs d g \<longleftrightarrow> g \<in> set pre"
    and "turns (drop pos (file_data fs f)) + sum_list (map (\<lambda>g. turns (file_data fs g)) post) \<le> length ts"
    and "int (length recs + turns (drop pos (file_data fs f)) + sum_list (map (\<lambda>g. turns (file_data fs g)) post)) \<le> sz"
  shows "\<exists>d'. dir_loop ts sz recs d = (recs @ map line_record
        (lines_of (drop pos (file_data fs f)) @ concat (map (\<lambda>g. lines_of (file_data fs g)) post)), d')
    \<and> drained fs d' (pre @ f # post) \<and> same_input d d'"
  using assms
proof (induction post arbitrary: pre f pos d ts recs)
  case Nil
  let ?recs = "recs @ map line_record (lines_of (drop pos (file_data fs f)))"
  have "turns (drop pos (file_data fs f)) \<le> length ts" "int (length recs + turns (drop pos (file_data fs f))) \<le> sz"
    using Nil.prems(6,7) by simp_all
  from dir_loop_file_end[OF Nil.prems(1,2) this] obtain d1 ts' where
    d1: "dir_loop ts sz recs d = (case advanceFile fs d1 of (True, d') \<Rightarrow> dir_loop ts' sz ?recs d' | (False, d') \<Rightarrow> (?recs, d'))"
    "at fs d1 f (length (file_data fs f))" "same_input d d1" "d_doneInodes d1 = d_doneInodes d" by blast
  have dn: "\<And>g. is_done fs d1 g = is_done fs d g" by (simp add: is_done_def d1(4))
  have "listFiles fs d1 = pre @ [f]" using same_input_files[OF d1(3)] Nil.prems(3) by simp
  from advanceFile_at[OF d1(2) this Nil.prems(4)] have "advanceFile fs d1 = (False, d1)"
    using Nil.prems(5) dn by simp
  then have "dir_loop ts sz recs d = (?recs, d1)" using d1(1) by simp
  moreover have "drained fs d1 (pre @ [f])"
    using d1(2) Nil.prems(4,5) dn by (auto simp: drained_def readable_dir_def)
  ultimately show ?case using d1(3) by auto
next
  case (Cons g post)
  let ?recs = "recs @ map line_record (lines_of (drop pos (file_data fs f)))"
  have "turns (drop pos (file_data fs f)) \<le> length ts" "int (length recs + turns (drop pos (file_data fs f))) \<le> sz"
    using Cons.prems(6,7) by simp_all
  from dir_loop_file_end[OF Cons.prems(1,2) this] obtain d1 ts' where
    d1: "dir_loop ts sz recs d = (case advanceFile fs d1 of (True, d') \<Rightarrow> dir_loop ts' sz ?recs d' | (False, d') \<Rightarrow> (?recs, d'))"
    "at fs d1 f (length (file_data fs f))" "same_input d d1" "d_doneInodes d1 = d_doneInodes d"
    "quiet fs ts'" "length ts = turns (drop pos (file_data fs f)) + length ts'" by blast
  have dn: "\<And>h. is_done fs d1 h = is_done fs d h" by (simp add: is_done_def d1(4))
  have l1: "listFiles fs d1 = pre @ f # g # post" using same_input_files[OF d1(3)] Cons.prems(3) by simp
  have rd: "readable fs f" "readable fs g" "g \<noteq> f" "f \<notin> set pre" "g \<notin> set pre" "file_inode fs f \<noteq> file_inode fs g"
    using Cons.prems(4) by (auto simp: readable_dir_def)
  have "\<not> is_done fs d1 g" using Cons.prems(5) rd dn by auto
  from advance_loop_open[OF d1(2) rd(1,2,3) this] obtain d2 where
    d2: "advance_loop fs (path_base f) (g # post) d1 = (True, d2)" "at fs d2 g 0" "same_input d1 d2"
    "d_doneInodes d2 = gm_put (inode_key (file_inode fs f)) (int (length (file_data fs f))) (d_doneInodes d1)"
    by blast
  have "advanceFile fs d1 = (True, d2)"
    using advanceFile_at[OF d1(2) l1 Cons.prems(4)] Cons.prems(5) dn d2(1) by simp
  then have loop: "dir_loop ts sz recs d = dir_loop ts' sz ?recs d2"
    using d1(1) by simp
  have "is_done fs d2 h \<longleftrightarrow> h \<in> set (pre @ [f])" if "h \<in> set ((pre @ [f]) @ g # post)" for h
  proof -
    have inj: "inj_on (file_inode fs) (set (pre @ f # g # post))"
      using Cons.prems(4) by (simp only: readable_dir_def distinct_map)
    then have "file_inode fs h = file_inode fs f \<longleftrightarrow> h = f"
      using that inj_on_eq_iff[OF inj, of h f] by auto
    moreover have "is_done fs d h \<longleftrightarrow> h \<in> set pre" using that Cons.prems(5) by auto
    ultimately show ?thesis by (auto simp: is_done_def d2(4) d1(4) gomap_simps inode_key_inj)
  qed
  moreover have "listFiles fs d2 = (pre @ [f]) @ g # post"
    using same_input_files[OF d2(3)] l1 by simp
  moreover have "turns (drop 0 (file_data fs g)) + sum_list (map (\<lambda>g. turns (file_data fs g)) post) \<le> length ts'"
    using Cons.prems(6) d1(6) by simp
  moreover have "int (length ?recs + turns (drop 0 (file_data fs g)) + sum_list (map (\<lambda>g. turns (file_data fs g)) post)) \<le> sz"
    using Cons.prems(7) lines_of_length[of "drop pos (file_data fs f)"] by simp
  moreover have "quiet fs ts'" by (rule d1(5))
  moreover have "readable_dir fs ((pre @ [f]) @ g # post)" using Cons.prems(4) by simp
  ultimately obtain d' where "dir_loop ts' sz ?recs d2 = (?recs @ map line_record
        (lines_of (drop 0 (file_data fs g)) @ concat (map (\<lambda>g. lines_of (file_data fs g)) post)), d')"
    "drained fs d' ((pre @ [f]) @ g # post)" "same_input d2 d'"
    using Cons.IH[OF d2(2), of ts' "pre @ [f]" ?recs] by blast
  then show ?case using loop same_input_trans[OF same_input_trans[OF d1(3) d2(3)]] by auto
qed

section \<open>The state file\<close>

lemma dec_state_json:
  assumes "int64_ok (d_offset d)" "\<forall>(k, v) \<in> set (d_doneInodes d). int64_ok v" "gm_wf (d_doneInodes d)"
  shows "dec_state (state_json d) = Some (d_currentFile d, d_offset d, Some (sort_key fst (d_doneInodes d)))"
proof -
  have "dec_members dec_int64 [] (map (\<lambda>(k, v). (k, JNum (show_int v))) (sort_key fst (d_doneInodes d)))
      = Some ([] @ sort_key fst (d_doneInodes d))"
    by (rule dec_members_map) (use assms in \<open>auto simp: gm_wf_def distinct_sort_key read_int_show_int\<close>)
  then show ?thesis
    using assms(1)
    by (simp add: state_json_def field_vals_def field_match_def state_tags_def read_int_show_int)
qed

lemma int_nums_state [simp]: "int_nums (state_json d)"
  by (auto simp: state_json_def)

lemma loadState_saved:
  assumes "os_ReadFile m (dc_MetaPath (d_cfg e)) = Some (json_print (state_json d))" "dc_MetaPath (d_cfg e) \<noteq> []"
    and "int64_ok (d_offset d)" "\<forall>(k, v) \<in> set (d_doneInodes d). int64_ok v" "gm_wf (d_doneInodes d)"
  shows "loadState m e = e\<lparr>d_currentFile := d_currentFile d, d_offset := d_offset d,
    d_doneInodes := sort_key fst (d_doneInodes d)\<rparr>"
  using assms by (simp add: loadState_def json_parse_print dec_state_json)

lemma pruneStaleInodes_frame [frame_simps]:
  "d_cfg (pruneStaleInodes fs d) = d_cfg d" "d_currentF (pruneStaleInodes fs d) = d_currentF d"
  "d_currentFile (pruneStaleInodes fs d) = d_currentFile d" "d_currentInode (pruneStaleInodes fs d) = d_currentInode d"
  "d_offset (pruneStaleInodes fs d) = d_offset d" "d_include (pruneStaleInodes fs d) = d_include d"
  "d_exclude (pruneStaleInodes fs d) = d_exclude d" "d_stopped (pruneStaleInodes fs d) = d_stopped d"
  "d_lag (pruneStaleInodes fs d) = d_lag d"
  by (simp_all add: pruneStaleInodes_def Let_def split: option.splits)

lemma set_pruned: "set (d_doneInodes (pruneStaleInodes fs d)) \<subseteq> set (d_doneInodes d)"
  by (auto simp: pruneStaleInodes_def Let_def split: option.splits)

lemma pruned_wf: "gm_wf (d_doneInodes d) \<Longrightarrow> gm_wf (d_doneInodes (pruneStaleInodes fs d))"
  by (auto simp: pruneStaleInodes_def Let_def gm_wf_filter split: option.splits)

definition live_inodes :: "fsys \<Rightarrow> dirInput \<Rightarrow> string list \<Rightarrow> inode set" where
  "live_inodes fs d names =
     {i. \<exists>name\<in>set names. \<exists>n. os_Stat fs (path_join [dc_Dir (d_cfg d), name]) = Some (i, n) \<and> \<not> fn_dir n}"

lemma gm_get_filter_key: "gm_get (filter (\<lambda>(k, v). k \<in> S) m) k = (if k \<in> S then gm_get m k else None)"
  by (induction m) (auto simp: gm_get_Cons)

text \<open>Pruning forgets the inodes that are no longer in the directory, and no other.\<close>

lemma pruned_get:
  assumes "os_ReadDir fs (dc_Dir (d_cfg d)) = Some names"
  shows "gm_get (d_doneInodes (pruneStaleInodes fs d)) (inode_key i) =
    (if i \<in> live_inodes fs d names then gm_get (d_doneInodes d) (inode_key i) else None)"
proof -
  have "inode_key i \<in> set (List.map_filter (\<lambda>name. case os_Stat fs (path_join [dc_Dir (d_cfg d), name]) of
      None \<Rightarrow> None | Some (i, n) \<Rightarrow> if fn_dir n then None else Some (inode_key i)) names)
    \<longleftrightarrow> i \<in> live_inodes fs d names"
    by (force simp: set_map_filter live_inodes_def inode_key_inj split: option.splits if_splits)
  then show ?thesis
    by (simp add: pruneStaleInodes_def assms gm_get_filter_key Let_def)
qed

lemma listFiles_mem:
  assumes "g \<in> set (listFiles fs d)"
  obtains names name i n where "os_ReadDir fs (dc_Dir (d_cfg d)) = Some names" "name \<in> set names"
    "g = path_join [dc_Dir (d_cfg d), name]" "os_Stat fs g = Some (i, n)" "\<not> fn_dir n" "passesFilter d name"
proof -
  obtain names where names: "os_ReadDir fs (dc_Dir (d_cfg d)) = Some names"
    using assms by (cases "os_ReadDir fs (dc_Dir (d_cfg d))") (simp_all add: listFiles_def)
  define F where "F = (\<lambda>name. let path = path_join [dc_Dir (d_cfg d), name] in
     (case os_Stat fs path of None \<Rightarrow> None
      | Some (i, n) \<Rightarrow> (if fn_dir n \<or> \<not> passesFilter d name then None else Some (path, fn_mtime n))))"
  have "listFiles fs d = map fst (sort_key snd (List.map_filter F names))"
    by (simp add: listFiles_def names F_def)
  with assms obtain name b where name: "name \<in> set names" "F name = Some (g, b)"
    by (auto simp: set_map_filter)
  obtain i n where st: "os_Stat fs (path_join [dc_Dir (d_cfg d), name]) = Some (i, n)"
    using name(2) by (cases "os_Stat fs (path_join [dc_Dir (d_cfg d), name])") (auto simp: F_def Let_def)
  with name(2) have "g = path_join [dc_Dir (d_cfg d), name]" "\<not> fn_dir n" "passesFilter d name"
    by (auto simp: F_def Let_def split: if_splits)
  with st name(1) names that show thesis by blast
qed

lemma is_done_pruned:
  assumes "g \<in> set (listFiles fs d)"
  shows "is_done fs (pruneStaleInodes fs d) g = is_done fs d g"
  using assms
proof (rule listFiles_mem)
  fix names name i n
  assume h: "os_ReadDir fs (dc_Dir (d_cfg d)) = Some names" "name \<in> set names"
    "g = path_join [dc_Dir (d_cfg d), name]" "os_Stat fs g = Some (i, n)" "\<not> fn_dir n"
  then have "i \<in> live_inodes fs d names" by (auto simp: live_inodes_def)
  with h(4) show ?thesis by (simp add: is_done_def file_inode_def pruned_get[OF h(1)])
qed

text \<open>A commit that goes through, then a new process with the same configuration.\<close>

definition dir_wf :: "(string \<Rightarrow> (string \<Rightarrow> bool) option) \<Rightarrow> dirInput \<Rightarrow> bool" where
  "dir_wf compile d = (dc_OffsetCommitEvery (d_cfg d) \<noteq> 0
     \<and> d_include d = compilePatterns compile (dc_Include (d_cfg d))
     \<and> d_exclude d = compilePatterns compile (dc_Exclude (d_cfg d))
     \<and> int64_ok (d_offset d) \<and> (\<forall>(k, v) \<in> set (d_doneInodes d). int64_ok v) \<and> gm_wf (d_doneInodes d))"

lemma commit_reload:
  assumes wf: "dir_wf compile d" and mp: "dc_MetaPath (d_cfg d) \<noteq> []" and "mf_script m = []"
    and c: "dir_Commit fs d m = (d', m')"
  defines "e \<equiv> NewDirInput compile (d_cfg d) m'"
  shows "d_currentF e = None" "d_stopped e = False" "d_currentFile e = d_currentFile d" "d_offset e = d_offset d"
    "d_cfg e = d_cfg d" "d_include e = d_include d" "d_exclude e = d_exclude d"
    "gm_get (d_doneInodes e) = gm_get (d_doneInodes (pruneStaleInodes fs (updateLag fs d)))"
proof -
  let ?p = "pruneStaleInodes fs (updateLag fs d)"
  have cfg: "d_cfg ?p = d_cfg d" by (simp add: frame_simps)
  obtain w where w: "write_rename (dc_MetaPath (d_cfg d)) (json_print (state_json ?p)) m = (True, w)"
    using write_rename_ok[OF assms(3)] by blast
  with c mp have m': "m' = w" by (simp add: dir_Commit_def commitState_def cfg Let_def)
  have rd: "os_ReadFile m' (dc_MetaPath (d_cfg d)) = Some (json_print (state_json ?p))"
    using write_rename_atomic[OF w] m' by simp
  have ok: "int64_ok (d_offset ?p)" "\<forall>(k, v) \<in> set (d_doneInodes ?p). int64_ok v" "gm_wf (d_doneInodes ?p)"
    using wf set_pruned[of fs "updateLag fs d"] pruned_wf[of "updateLag fs d" fs]
    by (auto simp: dir_wf_def frame_simps)
  have "dc_OffsetCommitEvery (d_cfg d) \<noteq> 0" using wf by (simp add: dir_wf_def)
  let ?e0 = "\<lparr>d_cfg = d_cfg d, d_currentF = None, d_currentFile = [], d_currentInode = 0, d_offset = 0,
       d_doneInodes = [], d_include = compilePatterns compile (dc_Include (d_cfg d)),
       d_exclude = compilePatterns compile (dc_Exclude (d_cfg d)), d_stopped = False, d_lag = 0, d_readCount = 0\<rparr>"
  have "e = loadState m' ?e0"
    using \<open>dc_OffsetCommitEvery (d_cfg d) \<noteq> 0\<close> by (simp add: e_def NewDirInput_def Let_def)
  also have "\<dots> = ?e0\<lparr>d_currentFile := d_currentFile ?p, d_offset := d_offset ?p,
      d_doneInodes := sort_key fst (d_doneInodes ?p)\<rparr>"
    by (rule loadState_saved) (use rd mp ok in simp_all)
  finally have e: "e = ?e0\<lparr>d_currentFile := d_currentFile ?p, d_offset := d_offset ?p,
      d_doneInodes := sort_key fst (d_doneInodes ?p)\<rparr>" .
  show "d_currentF e = None" "d_stopped e = False" "d_currentFile e = d_currentFile d" "d_offset e = d_offset d"
    "d_cfg e = d_cfg d" "d_include e = d_include d" "d_exclude e = d_exclude d"
    "gm_get (d_doneInodes e) = gm_get (d_doneInodes ?p)"
    using wf ok(3) by (simp_all add: e dir_wf_def gm_get_sort_key frame_simps)
qed

end
