(* ===== verification/DirDrain.thy ===== *)
theory DirDrain
  imports DirInput
begin

text \<open>
  What the directory input delivers: everything, in order, when started fresh on a directory nobody is
  writing to (\<open>ReadBatch_reads_all\<close>), and exactly the rest after a commit and a restart
  (\<open>restart_resumes\<close>); the invariants that hold whatever other processes do to the file system; and
  what happens when a file is rotated.
\<close>

section \<open>From the start, and after a restart\<close>

definition all_turns :: "fsys \<Rightarrow> string list \<Rightarrow> nat" where
  "all_turns fs files = sum_list (map (\<lambda>g. turns (file_data fs g)) files)"

definition all_lines :: "fsys \<Rightarrow> string list \<Rightarrow> string list" where
  "all_lines fs files = concat (map (\<lambda>g. lines_of (file_data fs g)) files)"

text \<open>The first turn opens the file, then behaves as if it had been open.\<close>

lemma dir_loop_opening:
  assumes "d_currentF d = None" "openFile fs d = (True, d1)" "at fs d1 f pos" "quiet fs ts" "ts \<noteq> []"
  shows "dir_loop ts sz recs d = dir_loop ts sz recs d1 \<or> \<not> int (length recs) < sz"
proof -
  obtain t ts' where ts: "ts = t # ts'" using assms(5) by (cases ts) auto
  obtain y where "d_currentF d1 = Some y" using assms(3) unfolding at_def by (auto elim!: readingE)
  then have "readLine fs d = readLine fs d1" using assms(1,2) by (simp add: readLine_def)
  then show ?thesis using assms(4) ts by simp
qed

lemma turns_pos: "0 < turns s"
  by (simp add: turns_def)

lemma ReadBatch_drain:
  assumes start: "d_stopped d = False" "d_currentF d = None" "openFile fs d = (True, d1)" "at fs d1 f pos"
    "same_input d d1" "d_doneInodes d1 = d_doneInodes d"
    and files: "listFiles fs d = pre @ f # post" "readable_dir fs (pre @ f # post)"
    and seen: "\<forall>g\<in>set (pre @ f # post). is_done fs d g \<longleftrightarrow> g \<in> set pre"
    and "quiet fs ts" and "turns (drop pos (file_data fs f)) + all_turns fs post \<le> length ts"
    and "int (turns (drop pos (file_data fs f)) + all_turns fs post) \<le> sz"
  shows "\<exists>d'. dir_ReadBatch ts sz d =
      (map line_record (lines_of (drop pos (file_data fs f)) @ all_lines fs post), d')
    \<and> drained fs d' (pre @ f # post) \<and> same_input d d'"
proof -
  have "ts \<noteq> []" "0 < sz" using assms(11,12) turns_pos[of "drop pos (file_data fs f)"] by auto
  then have "dir_ReadBatch ts sz d = dir_loop ts sz [] d1"
    using dir_loop_opening[OF start(2-4) \<open>quiet fs ts\<close>, of sz "[]"] start(1) by (simp add: dir_ReadBatch_def)
  moreover have "listFiles fs d1 = pre @ f # post" using same_input_files[OF start(5)] files(1) by simp
  moreover have "\<forall>g\<in>set (pre @ f # post). is_done fs d1 g \<longleftrightarrow> g \<in> set pre"
    using seen by (simp add: is_done_def start(6))
  ultimately show ?thesis
    using dir_loop_drain[OF start(4) \<open>quiet fs ts\<close> _ files(2), where sz = sz and recs = "[]"] assms(11,12) start(5)
    by (auto simp: all_turns_def all_lines_def dest: same_input_trans)
qed

lemma openFile_first:
  assumes "d_currentFile d = []" "dc_ReadFrom (d_cfg d) \<noteq> ''newest''" "listFiles fs d = f # files" "readable fs f"
  shows "\<exists>d1. openFile fs d = (True, d1) \<and> at fs d1 f 0 \<and> same_input d d1 \<and> d_doneInodes d1 = d_doneInodes d"
proof -
  let ?d = "d\<lparr>d_currentFile := f, d_offset := 0\<rparr>"
  have ne: "f \<noteq> []" using assms(4) by (auto elim!: readableE)
  have "openFile fs d = openFile fs ?d"
    using assms(4) ne by (elim readableE) (simp add: openFile_def os_Open_def assms(1-3) Let_def)
  moreover obtain d1 where "openFile fs ?d = (True, d1)" "at fs d1 f 0" "same_input ?d d1" "d_doneInodes d1 = d_doneInodes ?d"
    using openFile_at[OF assms(4), of ?d 0] by auto
  ultimately show ?thesis by (auto simp: same_input_def)
qed

section \<open>Whatever happens to the file system\<close>

definition dir_inv :: "dirInput \<Rightarrow> bool" where
  "dir_inv d = (case d_currentF d of None \<Rightarrow> True | Some (i, p) \<Rightarrow> d_offset d = int p \<and> d_currentInode d = i)"

lemma dir_inv_iff:
  "dir_inv d \<longleftrightarrow> (\<forall>i p. d_currentF d = Some (i, p) \<longrightarrow> d_offset d = int p \<and> d_currentInode d = i)"
  by (auto simp: dir_inv_def split: option.splits)

lemma dir_inv_updateLag [simp]: "dir_inv (updateLag fs d) = dir_inv d"
  by (simp add: dir_inv_iff frame_simps)

text \<open>What a successful open does.\<close>

lemma openFile_True:
  assumes "openFile fs d = (True, d')"
  obtains target i off where "os_Open fs target = Some i" "0 \<le> off"
    "target = d_currentFile d \<or> d_currentFile d = [] \<and> target \<in> set (listFiles fs d)"
    "d' = updateLag fs (d\<lparr>d_currentF := Some (i, nat off), d_currentFile := target, d_offset := off, d_currentInode := i\<rparr>)"
proof -
  define pick where "pick =
    (if d_currentFile d \<noteq> [] then Some (d_currentFile d, d_offset d)
     else (case listFiles fs d of
        [] \<Rightarrow> None
      | f # files \<Rightarrow>
          (if dc_ReadFrom (d_cfg d) = ''newest'' then Some (last (f # files), - 1) else Some (f, 0))))"
  note o = assms[unfolded openFile_def, folded pick_def, unfolded Let_def]
  from o obtain target off where pick: "pick = Some (target, off)" by (cases pick) auto
  note o = o[unfolded pick option.case prod.case]
  from o obtain i where i: "os_Open fs target = Some i" by (cases "os_Open fs target") auto
  note o = o[unfolded i option.case]
  define start where "start = (if off < 0 then os_Size fs i
     else if 0 < off then (case os_Seek off of None \<Rightarrow> Some 0 | Some p \<Rightarrow> Some (int p)) else Some 0)"
  note o = o[folded start_def]
  from o obtain off' where off': "start = Some off'" by (cases start) auto
  from off' have "0 \<le> off'" by (auto simp: start_def os_Size_def os_Seek_def split: if_splits)
  moreover have "target = d_currentFile d \<or> d_currentFile d = [] \<and> target \<in> set (listFiles fs d)"
    using pick by (cases "listFiles fs d") (auto simp: pick_def split: if_splits)
  moreover have "d' = updateLag fs (d\<lparr>d_currentF := Some (i, nat off'), d_currentFile := target, d_offset := off', d_currentInode := i\<rparr>)"
    using o off' by simp
  ultimately show thesis using i that by blast
qed

lemma openFile_False: "openFile fs d = (False, d') \<Longrightarrow> d' = d \<or> d' = d\<lparr>d_currentFile := []\<rparr>"
  unfolding openFile_def Let_def by (auto split: option.split_asm)

lemma openFile_inv:
  assumes "openFile fs d = (ok, d')" "d_currentF d = None"
  shows "dir_inv d'"
proof (cases ok)
  case False
  with assms openFile_False[of fs d d'] show ?thesis by (auto simp: dir_inv_iff)
next
  case True
  with assms(1) have "openFile fs d = (True, d')" by simp
  then show ?thesis by (rule openFile_True) (simp add: dir_inv_iff frame_simps)
qed

lemma strip_eol_last: "strip_eol s \<noteq> [] \<Longrightarrow> last (strip_eol s) \<noteq> NL \<and> last (strip_eol s) \<noteq> CHR 0x0D"
proof -
  let ?P = "\<lambda>c. c = NL \<or> c = CHR 0x0D"
  assume "strip_eol s \<noteq> []"
  then have ne: "dropWhile ?P (rev s) \<noteq> []" unfolding strip_eol_def by simp
  then have "last (strip_eol s) = hd (dropWhile ?P (rev s))" unfolding strip_eol_def by (simp only: last_rev)
  with hd_dropWhile[OF ne] show ?thesis by simp
qed

lemma readLine_inv:
  assumes "readLine fs d = ((line, n, err), d1)" "dir_inv d"
  shows "dir_inv (if 0 < n then d1\<lparr>d_offset := d_offset d1 + int n\<rparr> else d1) \<and> (\<exists>raw. line = strip_eol raw)"
proof -
  obtain ok d0 where o: "(if d_currentF d = None then openFile fs d else (True, d)) = (ok, d0)" by fastforce
  then have inv: "dir_inv d0" using openFile_inv assms(2) by (auto split: if_splits)
  consider (fail) "\<not> ok" | (rot) "ok" "detectRotation fs d0" | (none) "ok" "\<not> detectRotation fs d0" "d_currentF d0 = None"
    | (opened) i p where "ok" "\<not> detectRotation fs d0" "d_currentF d0 = Some (i, p)"
    by (cases "d_currentF d0") auto
  then show ?thesis
  proof cases
    case opened
    obtain raw e where rs: "ReadString fs i p = (raw, e)" by fastforce
    from opened inv have "d_offset d0 = int p" "d_currentInode d0 = i" by (auto simp: dir_inv_iff)
    with opened rs o assms(1) show ?thesis
      by (cases "raw = []") (auto simp: readLine_def Let_def dir_inv_iff intro: exI[of _ "[]"])
  qed (use assms(1) o inv in \<open>auto simp: readLine_def dir_inv_iff frame_simps intro: exI[of _ "[]"]\<close>)
qed

lemma advance_loop_inv:
  "advance_loop fs b paths d = (ok, d') \<Longrightarrow> dir_inv d \<Longrightarrow> dir_inv d'"
proof (induction fs b paths d rule: advance_loop.induct)
  case (2 fs b path paths d)
  show ?case
  proof (cases "inodeFromPath fs path")
    case None
    with 2 show ?thesis by simp
  next
    case (Some i)
    let ?d1 = "case d_currentF d of None \<Rightarrow> d | Some f \<Rightarrow> (markCurrentDone d)\<lparr>d_currentF := None\<rparr>"
    let ?d2 = "?d1\<lparr>d_currentFile := path, d_offset := 0\<rparr>"
    obtain o3 d3 where o3: "openFile fs ?d2 = (o3, d3)" by fastforce
    have "d_currentF ?d2 = None" by (cases "d_currentF d") simp_all
    with openFile_inv[OF o3] have "dir_inv d3" by blast
    with "2.IH"(2)[OF Some] "2.IH"(3)[OF Some] "2.IH"(4)[OF Some _ _ refl refl o3[symmetric]] "2.prems" Some o3
    show ?thesis by (cases o3) (auto simp: Let_def split: if_splits)
  qed
qed simp

lemma advanceFile_inv: "advanceFile fs d = (ok, d') \<Longrightarrow> dir_inv d \<Longrightarrow> dir_inv d'"
  by (auto simp: advanceFile_def Let_def split: if_splits dest: advance_loop_inv)

definition record_ok :: "LogRecord \<Rightarrow> bool" where
  "record_ok r = (rec_Data r \<noteq> [] \<and> last (rec_Data r) \<noteq> NL \<and> last (rec_Data r) \<noteq> CHR 0x0D)"

text \<open>One turn of the loop.\<close>

lemma dir_loop_step:
  assumes rl: "readLine (tk_fs t) d = ((line, n, err), d1)" and go: "int (length recs) < sz" "\<not> tk_done t"
  defines "d2 \<equiv> if 0 < n then updateLag (tk_fs t) (d1\<lparr>d_offset := d_offset d1 + int n\<rparr>) else d1"
    and "recs1 \<equiv> if line \<noteq> [] then recs @ [line_record line] else recs"
  defines "d3 \<equiv> if line \<noteq> [] then d2\<lparr>d_readCount := d_readCount d2 + 1\<rparr> else d2"
  shows "dir_loop (t # ts) sz recs d = (case err of
      None \<Rightarrow> dir_loop ts sz recs1 d3
    | Some EOF \<Rightarrow> (case advanceFile (tk_fs t) d3 of (True, d4) \<Rightarrow> dir_loop ts sz recs1 d4 | (False, d4) \<Rightarrow> (recs1, d4))
    | Some (IOErr e) \<Rightarrow> (recs1, d3))"
  unfolding dir_loop.simps(2) rl prod.case Let_def d3_def d2_def recs1_def
  by (simp only: go not_True_eq_False if_False)

lemma dir_loop_inv:
  assumes "dir_loop ts sz recs d = (recs', d')" "dir_inv d" "\<forall>r\<in>set recs. record_ok r"
  shows "dir_inv d' \<and> (\<forall>r\<in>set recs'. record_ok r) \<and> int (length recs') \<le> max sz (int (length recs))"
  using assms
proof (induction ts arbitrary: recs d)
  case Nil
  then show ?case by auto
next
  case (Cons t ts)
  show ?case
  proof (cases "int (length recs) < sz \<and> \<not> tk_done t")
    case False
    then have "dir_loop (t # ts) sz recs d = (recs, d)" by (simp only: dir_loop.simps split: if_split) auto
    with Cons.prems show ?thesis by auto
  next
    case True
    obtain line n err d1 where rl: "readLine (tk_fs t) d = ((line, n, err), d1)" by (metis surj_pair)
    define d2 where "d2 = (if 0 < n then updateLag (tk_fs t) (d1\<lparr>d_offset := d_offset d1 + int n\<rparr>) else d1)"
    define r where "r = (if line \<noteq> [] then recs @ [line_record line] else recs)"
    define d3 where "d3 = (if line \<noteq> [] then d2\<lparr>d_readCount := d_readCount d2 + 1\<rparr> else d2)"
    note step = dir_loop_step[OF rl, of recs sz ts, folded d2_def r_def, folded d3_def]
    note ri = readLine_inv[OF rl Cons.prems(2)]
    then have "dir_inv d2" by (auto simp: d2_def split: if_splits)
    then have inv: "dir_inv d3" by (auto simp: d3_def dir_inv_iff)
    have ok: "\<forall>x\<in>set r. record_ok x" "int (length r) \<le> sz"
      using ri strip_eol_last Cons.prems(3) True by (auto simp: record_ok_def line_record_def r_def)
    obtain o4 d4 where o4: "advanceFile (tk_fs t) d3 = (o4, d4)" by fastforce
    have inv4: "dir_inv d4" by (rule advanceFile_inv[OF o4 inv])
    have "dir_loop ts sz r d3 = (recs', d') \<or> dir_loop ts sz r d4 = (recs', d')
        \<or> recs' = r \<and> d' = d3 \<or> recs' = r \<and> d' = d4"
    proof (cases err)
      case None
      with step True Cons.prems(1) show ?thesis by simp
    next
      case (Some e)
      with step True Cons.prems(1) o4 show ?thesis by (cases e; cases o4) simp_all
    qed
    then consider (a) "dir_loop ts sz r d3 = (recs', d')" | (b) "dir_loop ts sz r d4 = (recs', d')"
      | (c) "recs' = r" "dir_inv d'" using inv inv4 by blast
    then show ?thesis
    proof cases
      case a
      from Cons.IH[OF a inv ok(1)] ok(2) show ?thesis by (auto intro: max.coboundedI1)
    next
      case b
      from Cons.IH[OF b inv4 ok(1)] ok(2) show ?thesis by (auto intro: max.coboundedI1)
    qed (use ok in \<open>auto intro: max.coboundedI1\<close>)
  qed
qed

section \<open>Inodes marked done\<close>

lemma path_join_ne: "name \<noteq> [] \<Longrightarrow> path_join [dir, name] \<noteq> []"
  by (auto simp: path_join_def path_clean_def Let_def)

lemma listFiles_ne: "[] \<notin> set (listFiles fs d)"
proof
  assume "[] \<in> set (listFiles fs d)"
  then obtain names name where h: "os_ReadDir fs (dc_Dir (d_cfg d)) = Some names" "name \<in> set names"
    "[] = path_join [dc_Dir (d_cfg d), name]" by (rule listFiles_mem)
  then have "name \<noteq> []"
    by (auto simp: os_ReadDir_def child_name_def set_map_filter Let_def split: option.splits if_splits)
  with h(3) path_join_ne show False by metis
qed

lemma openFile_target:
  assumes "openFile fs d = (True, d')" "d_currentFile d = f" "f \<noteq> []"
  shows "d_currentFile d' = f" "inodeFromPath fs f = Some (d_currentInode d')"
proof -
  from assms(1) obtain target i off where o: "os_Open fs target = Some i"
    "target = d_currentFile d \<or> d_currentFile d = [] \<and> target \<in> set (listFiles fs d)"
    "d' = updateLag fs (d\<lparr>d_currentF := Some (i, nat off), d_currentFile := target, d_offset := off, d_currentInode := i\<rparr>)"
    by (rule openFile_True)
  with assms(2,3) show "d_currentFile d' = f" "inodeFromPath fs f = Some (d_currentInode d')"
    by (auto simp: frame_simps os_Open_def inodeFromPath_def split: option.splits if_splits)
qed

lemma advance_loop_fresh:
  assumes "advance_loop fs b paths d = (True, d')" "[] \<notin> set paths"
  shows "gm_get (d_doneInodes d) (inode_key (d_currentInode d')) = None \<and> d_currentFile d' \<in> set paths"
  using assms
proof (induction paths arbitrary: d)
  case (Cons path paths)
  show ?case
  proof (cases "inodeFromPath fs path")
    case None
    with Cons show ?thesis by auto
  next
    case (Some i)
    define d1 where "d1 = (case d_currentF d of None \<Rightarrow> d | Some f \<Rightarrow> (markCurrentDone d)\<lparr>d_currentF := None\<rparr>)"
    define d2 where "d2 = d1\<lparr>d_currentFile := path, d_offset := 0\<rparr>"
    obtain o3 d3 where o3: "openFile fs d2 = (o3, d3)" by fastforce
    have grow: "gm_get (d_doneInodes d3) k = None \<Longrightarrow> gm_get (d_doneInodes d) k = None" for k
      using openFile_frame(2)[OF o3]
      by (auto simp: d2_def d1_def frame_simps gomap_simps split: option.splits if_splits)
    consider (skip) "advance_loop fs b paths d = (True, d')"
      | (opened) "o3" "d3 = d'" "gm_get (d_doneInodes d) (inode_key i) = None"
      | (later) "advance_loop fs b paths d3 = (True, d')"
      using Cons.prems(1) Some o3 by (cases o3) (auto simp: d2_def d1_def Let_def split: if_splits)
    then show ?thesis
    proof cases
      case skip
      with Cons show ?thesis by auto
    next
      case opened
      with openFile_target[of fs d2 d3 path] o3 Some Cons.prems(2) show ?thesis by (auto simp: d2_def)
    next
      case later
      with Cons.IH[OF later] Cons.prems(2) grow show ?thesis by auto
    qed
  qed
qed simp

section \<open>A small directory\<close>

text \<open>Two files \<open>a\<close> (older) and \<open>b\<close> under \<open>/l\<close>; \<open>a\<close> alone; \<open>a\<close> renamed; \<open>a\<close> renamed and recreated.\<close>

definition demo_dir :: fnode where
  "demo_dir = \<lparr>fn_data = [], fn_mtime = 0, fn_dir = True, fn_deny = False, fn_bad = False\<rparr>"

definition demo_file :: "string \<Rightarrow> int \<Rightarrow> fnode" where
  "demo_file s t = \<lparr>fn_data = s, fn_mtime = t, fn_dir = False, fn_deny = False, fn_bad = False\<rparr>"

definition demo_cfg :: DirConfig where
  "demo_cfg = \<lparr>dc_Dir = ''/l'', dc_MetaPath = ''/m'', dc_ReadFrom = ''oldest'', dc_Include = [], dc_Exclude = [],
     dc_OffsetCommitEvery = 0\<rparr>"

definition demo_xy :: string where
  "demo_xy = [CHR ''x'', NL, CHR ''y'', NL]"

definition demo_nodes :: "(inode, fnode) gomap" where
  "demo_nodes = [(1, demo_dir), (2, demo_file demo_xy 5), (3, demo_file [CHR ''z'', NL] 7)]"

definition fs_two :: fsys where
  "fs_two = \<lparr>fs_names = [(''/l'', 1), (''/l/b'', 3), (''/l/a'', 2)], fs_nodes = demo_nodes\<rparr>"

definition fs_one :: fsys where
  "fs_one = \<lparr>fs_names = [(''/l'', 1), (''/l/a'', 2)], fs_nodes = demo_nodes\<rparr>"

definition fs_moved :: fsys where
  "fs_moved = \<lparr>fs_names = [(''/l'', 1), (''/l/a.1'', 2)], fs_nodes = demo_nodes\<rparr>"

definition fs_rotated :: fsys where
  "fs_rotated = \<lparr>fs_names = [(''/l'', 1), (''/l/a.1'', 2), (''/l/a'', 3)], fs_nodes = demo_nodes\<rparr>"

definition tick_of :: "fsys \<Rightarrow> tick" where
  "tick_of fs = \<lparr>tk_done = False, tk_fs = fs\<rparr>"

definition demo_meta :: metafs where
  "demo_meta = \<lparr>mf_files = [], mf_script = []\<rparr>"

definition demo_start :: dirInput where
  "demo_start = NewDirInput (\<lambda>s. None) demo_cfg demo_meta"

definition demo_mid :: dirInput where
  "demo_mid = snd (dir_ReadBatch [tick_of fs_two] 10 demo_start)"

definition demo_done :: dirInput where
  "demo_done = snd (dir_ReadBatch (replicate 3 (tick_of fs_one)) 10 demo_start)"

section \<open>Properties\<close>

text \<open>C5: a fresh reader of a directory that nobody writes to, reading from the oldest file, returns in one
  batch every non-empty line of every file, in order of modification time, each exactly once, if the
  window allows one turn for each line and one for each end of file. It then stands at the end of the
  last file, every other file is marked done, and the lag it reports is 0.\<close>

theorem ReadBatch_reads_all:
  assumes "d_stopped d = False" "d_currentF d = None" "d_currentFile d = []" "dc_ReadFrom (d_cfg d) \<noteq> ''newest''"
    and files: "listFiles fs d = files" "files \<noteq> []" "readable_dir fs files"
    and "\<forall>g\<in>set files. \<not> is_done fs d g"
    and "quiet fs ts" "all_turns fs files \<le> length ts" "int (all_turns fs files) \<le> sz"
  shows "\<exists>d'. dir_ReadBatch ts sz d = (map line_record (all_lines fs files), d')
    \<and> drained fs d' files \<and> dir_Lag d' = 0"
proof -
  obtain f post where fp: "files = [] @ f # post" using files(2) by (cases files) auto
  then have "readable fs f" using files(3) by (simp add: readable_dir_def)
  with openFile_first[OF assms(3,4), of fs f post] files(1) fp obtain d1 where
    d1: "openFile fs d = (True, d1)" "at fs d1 f 0" "same_input d d1" "d_doneInodes d1 = d_doneInodes d" by auto
  obtain d' where "dir_ReadBatch ts sz d = (map line_record (lines_of (drop 0 (file_data fs f)) @ all_lines fs post), d')"
    "drained fs d' ([] @ f # post)"
    using ReadBatch_drain[OF assms(1,2) d1, of "[]" post ts sz] files assms(8-) fp
    by (auto simp: all_turns_def)
  then show ?thesis using fp by (auto simp: all_lines_def drained_def at_def dir_Lag_def)
qed

theorem ReadBatch_reads_all_witness:
  "\<exists>d'. dir_ReadBatch (replicate 5 (tick_of fs_two)) 9 demo_start = (map line_record [''x'', ''y'', ''z''], d')
    \<and> drained fs_two d' [''/l/a'', ''/l/b''] \<and> dir_Lag d' = 0"
proof -
  have lf: "listFiles fs_two demo_start = [''/l/a'', ''/l/b'']" by code_simp
  have al: "all_lines fs_two [''/l/a'', ''/l/b''] = [''x'', ''y'', ''z'']" by code_simp
  have tn: "all_turns fs_two [''/l/a'', ''/l/b''] = 5" by code_simp
  have rd: "readable_dir fs_two [''/l/a'', ''/l/b'']" by code_simp
  have st: "d_stopped demo_start = False" "d_currentF demo_start = None" "d_currentFile demo_start = []"
    "dc_ReadFrom (d_cfg demo_start) \<noteq> ''newest''" by code_simp+
  have nd: "\<forall>g\<in>set [''/l/a'', ''/l/b'']. \<not> is_done fs_two demo_start g" by code_simp
  have q: "quiet fs_two (replicate 5 (tick_of fs_two))" by (simp add: quiet_def tick_of_def)
  show ?thesis
    using ReadBatch_reads_all[OF st lf _ rd nd q, of 9] al tn by simp
qed

text \<open>C4: a reader that stands somewhere in a file, with exactly the earlier files marked done, commits its
  state, and a new process is started on the state file. If nobody writes to the directory, the new
  process returns exactly the rest of that file and all later files: over the restart no line is lost
  and none is read twice.\<close>

theorem restart_resumes:
  assumes "dir_wf compile d" "dc_MetaPath (d_cfg d) \<noteq> []" "mf_script m = []" "at fs d f pos"
    and files: "listFiles fs d = pre @ f # post" "readable_dir fs (pre @ f # post)"
    and "\<forall>g\<in>set (pre @ f # post). is_done fs d g \<longleftrightarrow> g \<in> set pre"
    and "quiet fs ts" "turns (drop pos (file_data fs f)) + all_turns fs post \<le> length ts"
    and "int (turns (drop pos (file_data fs f)) + all_turns fs post) \<le> sz"
    and "dir_Commit fs d m = (d0, m')"
  shows "\<exists>d'. dir_ReadBatch ts sz (NewDirInput compile (d_cfg d) m') =
      (map line_record (lines_of (drop pos (file_data fs f)) @ all_lines fs post), d')
    \<and> drained fs d' (pre @ f # post)"
proof -
  let ?e = "NewDirInput compile (d_cfg d) m'"
  note e = commit_reload[OF assms(1-3,11)]
  have lf: "listFiles fs ?e = pre @ f # post"
    using files(1) listFiles_cong[OF e(5-7)] by simp
  have "is_done fs ?e g = is_done fs (pruneStaleInodes fs (updateLag fs d)) g" for g
    by (simp add: is_done_def e(8))
  moreover have "listFiles fs (updateLag fs d) = pre @ f # post"
    using files(1) listFiles_cong[of "updateLag fs d" d] by (simp add: frame_simps)
  moreover have "is_done fs (updateLag fs d) g = is_done fs d g" for g
    by (simp add: is_done_def frame_simps)
  ultimately have dn: "\<forall>g\<in>set (pre @ f # post). is_done fs ?e g \<longleftrightarrow> g \<in> set pre"
    using is_done_pruned[of _ fs "updateLag fs d"] assms(7) by simp
  have "readable fs f" using files(2) by (simp add: readable_dir_def)
  moreover have "d_currentFile ?e = f" "d_offset ?e = int pos" "pos \<le> length (file_data fs f)"
    using assms(4) e(3,4) unfolding at_def by (auto elim!: readingE)
  ultimately obtain d1 where d1: "openFile fs ?e = (True, d1)" "at fs d1 f pos" "same_input ?e d1"
    "d_doneInodes d1 = d_doneInodes ?e"
    using openFile_at by blast
  show ?thesis
    using ReadBatch_drain[OF e(2,1) d1 lf files(2) dn assms(8-10)] by blast
qed

theorem restart_resumes_witness:
  "\<exists>d'. dir_ReadBatch (replicate 4 (tick_of fs_two)) 9
      (NewDirInput (\<lambda>s. None) (d_cfg demo_mid) (snd (dir_Commit fs_two demo_mid demo_meta))) =
      (map line_record [''y'', ''z''], d')
    \<and> drained fs_two d' [''/l/a'', ''/l/b'']"
proof -
  have "length (d_include demo_mid) = 0" "length (d_exclude demo_mid) = 0" "dc_Include (d_cfg demo_mid) = []"
    "dc_Exclude (d_cfg demo_mid) = []" "dc_OffsetCommitEvery (d_cfg demo_mid) = 20000" "int64_ok (d_offset demo_mid)"
    "d_doneInodes demo_mid = []" by code_simp+
  then have wf: "dir_wf (\<lambda>s. None) demo_mid"
    by (simp add: dir_wf_def compilePatterns_def List.map_filter_simps)
  have mp: "dc_MetaPath (d_cfg demo_mid) \<noteq> []" "mf_script demo_meta = []" by code_simp+
  have at: "at fs_two demo_mid ''/l/a'' 2" by code_simp
  have lf: "listFiles fs_two demo_mid = [] @ ''/l/a'' # [''/l/b'']" by code_simp
  have rd: "readable_dir fs_two ([] @ ''/l/a'' # [''/l/b''])" by code_simp
  have nd: "\<forall>g\<in>set ([] @ ''/l/a'' # [''/l/b'']). is_done fs_two demo_mid g \<longleftrightarrow> g \<in> set []" by code_simp
  have q: "quiet fs_two (replicate 4 (tick_of fs_two))" by (simp add: quiet_def tick_of_def)
  have tn: "turns (drop 2 (file_data fs_two ''/l/a'')) + all_turns fs_two [''/l/b''] = 4" by code_simp
  have al: "lines_of (drop 2 (file_data fs_two ''/l/a'')) @ all_lines fs_two [''/l/b''] = [''y'', ''z'']" by code_simp
  have c: "dir_Commit fs_two demo_mid demo_meta =
      (fst (dir_Commit fs_two demo_mid demo_meta), snd (dir_Commit fs_two demo_mid demo_meta))" by simp
  show ?thesis
    using restart_resumes[OF wf mp at lf rd nd q _ _ c, of 9] tn al by simp
qed

text \<open>Moving on to another file, the reader only opens a file of the listing whose inode is not marked
  done, whatever name it has: a renamed file that was read before is not opened again on this path.\<close>

theorem advanceFile_opens_new:
  assumes "advanceFile fs d = (True, d')"
  shows "gm_get (d_doneInodes d) (inode_key (d_currentInode d')) = None \<and> d_currentFile d' \<in> set (listFiles fs d)"
  using assms listFiles_ne[of fs d] advance_loop_fresh[of fs _ "listFiles fs d" d d']
  by (auto simp: advanceFile_def Let_def split: if_splits)

theorem advanceFile_opens_new_witness:
  "gm_get (d_doneInodes demo_done) (inode_key (d_currentInode (snd (advanceFile fs_two demo_done)))) = None
    \<and> d_currentFile (snd (advanceFile fs_two demo_done)) \<in> set (listFiles fs_two demo_done)"
proof -
  have "fst (advanceFile fs_two demo_done) = True" by code_simp
  then have "advanceFile fs_two demo_done = (True, snd (advanceFile fs_two demo_done))" by (metis prod.collapse)
  then show ?thesis by (rule advanceFile_opens_new)
qed

text \<open>C8: whatever other processes do to the directory between two turns of the loop, a batch has at most
  the size asked for, each of its records is non-empty and does not end in a line feed or carriage
  return, and between batches the recorded offset is the number of bytes consumed of the file held
  open, whose inode is the recorded one.\<close>

theorem ReadBatch_invariant:
  assumes "dir_inv d" "dir_ReadBatch ts sz d = (records, d')" "0 \<le> sz"
  shows "dir_inv d' \<and> int (length records) \<le> sz \<and> (\<forall>r\<in>set records. record_ok r)"
  using assms dir_loop_inv[of ts sz "[]" d records d']
  by (auto simp: dir_ReadBatch_def split: if_splits)

theorem ReadBatch_invariant_witness:
  "dir_inv demo_mid \<and> map record_ok (fst (dir_ReadBatch [tick_of fs_two] 10 demo_start)) = [True]"
proof -
  have inv: "dir_inv demo_start" by code_simp
  have run: "dir_ReadBatch [tick_of fs_two] 10 demo_start = (fst (dir_ReadBatch [tick_of fs_two] 10 demo_start), demo_mid)"
    by (simp add: demo_mid_def)
  have "length (fst (dir_ReadBatch [tick_of fs_two] 10 demo_start)) = 1" by code_simp
  with ReadBatch_invariant[OF inv run] show ?thesis
    by (cases "fst (dir_ReadBatch [tick_of fs_two] 10 demo_start)") auto
qed

text \<open>C30: a commit is atomic. Whichever of its system calls fails, and however much of a failed write got
  through, the state file afterwards holds either what it held or the whole new state.\<close>

theorem Commit_atomic:
  assumes "dir_Commit fs d m = (d', m')" "dc_MetaPath (d_cfg d) \<noteq> []"
  shows "os_ReadFile m' (dc_MetaPath (d_cfg d)) \<in>
    {os_ReadFile m (dc_MetaPath (d_cfg d)), Some (json_print (state_json d'))}"
proof -
  let ?p = "pruneStaleInodes fs (updateLag fs d)"
  obtain ok w where w: "write_rename (dc_MetaPath (d_cfg d)) (json_print (state_json ?p)) m = (ok, w)" by fastforce
  with assms have "d' = ?p" "m' = w" by (auto simp: dir_Commit_def commitState_def frame_simps Let_def)
  with write_rename_atomic[OF w] show ?thesis by simp
qed

theorem Commit_atomic_witness:
  "os_ReadFile (snd (dir_Commit fs_two demo_mid \<lparr>mf_files = [(''/m'', ''old'')], mf_script = [SysOk, SysFail 3]\<rparr>)) ''/m''
     = Some ''old''"
proof -
  let ?m = "\<lparr>mf_files = [(''/m'', ''old'')], mf_script = [SysOk, SysFail 3]\<rparr>"
  have c: "dir_Commit fs_two demo_mid ?m = (fst (dir_Commit fs_two demo_mid ?m), snd (dir_Commit fs_two demo_mid ?m))"
    by simp
  have mp: "dc_MetaPath (d_cfg demo_mid) = ''/m''" by code_simp
  then have "dc_MetaPath (d_cfg demo_mid) \<noteq> []" by simp
  note a = Commit_atomic[OF c this, unfolded mp]
  have "os_ReadFile (snd (dir_Commit fs_two demo_mid ?m)) ''/m'' \<noteq>
      Some (json_print (state_json (fst (dir_Commit fs_two demo_mid ?m))))" by code_simp
  moreover have "os_ReadFile ?m ''/m'' = Some ''old''" by (simp add: os_ReadFile_def gm_get_Cons)
  ultimately show ?thesis using a by auto
qed

text \<open>What the reader does at a rotation. When the current name has gone or leads to another inode, the
  next read returns nothing, whatever bytes are left in the file still held open; the inode is marked
  done at the offset reached, the file is closed and its name forgotten.\<close>

theorem readLine_rotation:
  assumes "d_currentF d = Some (i, p)" "d_currentInode d = i" "i \<noteq> 0" "d_currentFile d \<noteq> []"
    and "case os_Stat fs (d_currentFile d) of None \<Rightarrow> True | Some (j, n) \<Rightarrow> j \<noteq> 0 \<and> j \<noteq> i"
  shows "readLine fs d = (([], 0, Some EOF), d\<lparr>d_currentF := None, d_currentFile := [], d_offset := 0,
      d_doneInodes := gm_put (inode_key i) (d_offset d) (d_doneInodes d)\<rparr>)"
proof -
  have "detectRotation fs d" using assms by (auto simp: detectRotation_def split: option.splits)
  with assms show ?thesis by (simp add: readLine_def markCurrentDone_def)
qed

theorem readLine_rotation_witness:
  "fst (readLine fs_rotated demo_mid) = ([], 0, Some EOF)
    \<and> d_doneInodes (snd (readLine fs_rotated demo_mid)) = [(''2'', 2)]"
proof -
  have h: "d_currentF demo_mid = Some (2, 2)" "d_currentInode demo_mid = 2" "(2 :: inode) \<noteq> 0"
    "d_currentFile demo_mid \<noteq> []"
    "case os_Stat fs_rotated (d_currentFile demo_mid) of None \<Rightarrow> True | Some (j, n) \<Rightarrow> j \<noteq> 0 \<and> j \<noteq> 2"
    by code_simp+
  have "gm_put (inode_key 2) (d_offset demo_mid) (d_doneInodes demo_mid) = [(''2'', 2)]" by code_simp
  with readLine_rotation[OF h] show ?thesis by simp
qed

text \<open>The tail of a rotated file is lost. A file of two lines, of which one was read when it is renamed
  and a new file takes its name: the later batches deliver the line of the new file and never the
  second line of the old one, although that file is still in the directory.\<close>

theorem rotation_loses_tail:
  "let (b1, d1) = dir_ReadBatch [tick_of fs_one] 10 demo_start;
       (b2, d2) = dir_ReadBatch (replicate 9 (tick_of fs_rotated)) 10 d1;
       (b3, d3) = dir_ReadBatch (replicate 9 (tick_of fs_rotated)) 10 d2
   in map rec_Data b1 = [''x''] \<and> map rec_Data b2 = [''z''] \<and> b3 = []
      \<and> listFiles fs_rotated d1 = [''/l/a.1'', ''/l/a''] \<and> dir_Lag d3 = 0"
  by code_simp

text \<open>A finished file is sent again when it is renamed and no new file has taken its name yet. The turn
  that sees the rename marks the inode done, but the next batch opens the first file of the listing
  without asking which inodes are done, and reads it from the start.\<close>

theorem rename_resends:
  "let (b1, d1) = dir_ReadBatch (replicate 9 (tick_of fs_one)) 10 demo_start;
       (b2, d2) = dir_ReadBatch (replicate 9 (tick_of fs_moved)) 10 d1;
       (b3, d3) = dir_ReadBatch (replicate 9 (tick_of fs_moved)) 10 d2
   in map rec_Data b1 = [''x'', ''y''] \<and> b2 = [] \<and> d_doneInodes d2 = [(''2'', 4)]
      \<and> map rec_Data b3 = [''x'', ''y'']"
  by code_simp

end
