(* ===== verification/Outputs.thy ===== *)
theory Outputs
  imports Transforms FileSys
begin

text \<open>
  \<open>internal/log-pilot-agent/output\<close>: the JSON entry both outputs send for a record, the file output, the
  HTTP output, and the factory.

  What is outside the program enters as follows. A write system call consumes one answer of the
  script \<open>of_script\<close>: it succeeds, or fails after some bytes got through; an exhausted script means
  success. \<open>http.Client.Do\<close> is the argument \<open>send\<close>, from the request and the state of the world to
  a status code or a transport error. \<open>AppendCertsFromPEM\<close> is the argument \<open>pem_ok\<close>.
\<close>

section \<open>The entry of a record\<close>

definition entry_map :: "LogRecord \<Rightarrow> (string, string) gomap" where
  "entry_map r = gm_copy [(''data'', rec_Data r)] (rec_meta r)"

text \<open>\<open>encoding/json\<close> writes a map in the order of its keys.\<close>

definition map_json :: "(string, string) gomap \<Rightarrow> json" where
  "map_json m = JObj (map (\<lambda>(k, v). (k, JStr v)) (sort_key fst m))"

definition entry_json :: "LogRecord \<Rightarrow> json" where
  "entry_json r = map_json (entry_map r)"

section \<open>The file output\<close>

datatype wres = WFail nat gerr | WOk

record osfile =
  of_text :: string
  of_script :: "wres list"

definition os_write :: "string \<Rightarrow> osfile \<Rightarrow> gerr option \<times> osfile" where
  "os_write s w =
     (case of_script w of
        [] \<Rightarrow> (None, w\<lparr>of_text := of_text w @ s\<rparr>)
      | WOk # sc \<Rightarrow> (None, w\<lparr>of_text := of_text w @ s, of_script := sc\<rparr>)
      | WFail n e # sc \<Rightarrow> (Some e, w\<lparr>of_text := of_text w @ take n s, of_script := sc\<rparr>))"

text \<open>Opening for append: the file is created when it is missing, and its text is kept.\<close>

definition os_open :: "osfile \<Rightarrow> gerr option \<times> osfile" where
  "os_open w =
     (case of_script w of
        [] \<Rightarrow> (None, w)
      | WOk # sc \<Rightarrow> (None, w\<lparr>of_script := sc\<rparr>)
      | WFail n e # sc \<Rightarrow> (Some e, w\<lparr>of_script := sc\<rparr>))"

record fileOutput =
  fo_path :: string
  fo_f :: bool

definition entry_line :: "LogRecord \<Rightarrow> string" where
  "entry_line r = json_print (entry_json r) @ [CHR 0x0A]"

fun file_entries :: "LogRecord list \<Rightarrow> osfile \<Rightarrow> gerr option \<times> osfile" where
  "file_entries [] w = (None, w)"
| "file_entries (r # rs) w =
     (case os_write (entry_line r) w of
        (Some e, w') \<Rightarrow> (Some e, w')
      | (None, w') \<Rightarrow> file_entries rs w')"

definition file_WriteBatch ::
    "LogRecord list \<Rightarrow> fileOutput \<Rightarrow> osfile \<Rightarrow> gerr option \<times> fileOutput \<times> osfile" where
  "file_WriteBatch records out w =
     (if fo_f out then (case file_entries records w of (e, w') \<Rightarrow> (e, out, w'))
      else
        (case os_open w of
           (Some e, w') \<Rightarrow> (Some e, out, w')
         | (None, w') \<Rightarrow>
             (case file_entries records w' of (e, w'') \<Rightarrow> (e, out\<lparr>fo_f := True\<rparr>, w''))))"

text \<open>Closing leaves the field \<open>f\<close> set; what is in the file stays.\<close>

definition file_Close :: "fileOutput \<Rightarrow> osfile \<Rightarrow> gerr option \<times> fileOutput \<times> osfile" where
  "file_Close out w = (None, out, w)"

section \<open>The HTTP output\<close>

record HTTPConfig =
  hc_URL :: string
  hc_Headers :: "(string, string) gomap"
  hc_TLSSkipVerify :: bool
  hc_TLSCACert :: string

record http_request =
  rq_Method :: string
  rq_URL :: string
  rq_Header :: "(string, string) gomap"
  rq_Body :: string

datatype http_error = TransportError gerr | StatusError int string

text \<open>
  \<open>http.Header.Set\<close> stores under the canonical form of the key: the first letter and every letter
  after a hyphen in upper case, the rest in lower case.
\<close>

definition ascii_upper :: "char \<Rightarrow> char" where
  "ascii_upper c = (let n = of_char c :: nat in if 97 \<le> n \<and> n \<le> 122 then char_of (n - 32) else c)"

fun canon_key :: "bool \<Rightarrow> string \<Rightarrow> string" where
  "canon_key up [] = []"
| "canon_key up (c # s) = (if up then ascii_upper c else ascii_lower c) # canon_key (c = CHR ''-'') s"

definition header_set :: "string \<Rightarrow> string \<Rightarrow> (string, string) gomap \<Rightarrow> (string, string) gomap" where
  "header_set k v h = gm_put (canon_key True k) v h"

fun header_set_all :: "(string, string) gomap \<Rightarrow> (string, string) gomap \<Rightarrow> (string, string) gomap" where
  "header_set_all h [] = h"
| "header_set_all h ((k, v) # hs) = header_set_all (header_set k v h) hs"

definition http_request_of :: "HTTPConfig \<Rightarrow> LogRecord list \<Rightarrow> http_request" where
  "http_request_of cfg records =
     \<lparr>rq_Method = ''POST'', rq_URL = hc_URL cfg,
      rq_Header = header_set_all (header_set ''Content-Type'' ''application/json'' []) (hc_Headers cfg),
      rq_Body = json_print (JArr (map entry_json records))\<rparr>"

definition http_WriteBatch ::
    "(http_request \<Rightarrow> 'w \<Rightarrow> (gerr + int) \<times> 'w) \<Rightarrow> HTTPConfig \<Rightarrow> LogRecord list \<Rightarrow> 'w
       \<Rightarrow> http_error option \<times> 'w" where
  "http_WriteBatch send cfg records w =
     (case send (http_request_of cfg records) w of
        (Inl e, w') \<Rightarrow> (Some (TransportError e), w')
      | (Inr status, w') \<Rightarrow>
          (if 400 \<le> status then (Some (StatusError status (hc_URL cfg)), w') else (None, w')))"

definition NewHTTPOutput :: "(string \<Rightarrow> bool) \<Rightarrow> HTTPConfig \<Rightarrow> factory_error + HTTPConfig" where
  "NewHTTPOutput pem_ok cfg =
     (if hc_TLSCACert cfg \<noteq> [] \<and> \<not> pem_ok (hc_TLSCACert cfg) then Inl BadCACert else Inr cfg)"

section \<open>The factory\<close>

datatype sink = HTTPOutput HTTPConfig | FileOutput fileOutput

definition extractBool :: "config \<Rightarrow> string \<Rightarrow> config_error + bool" where
  "extractBool c key = extractValue dec_bool c key"

text \<open>An optional setting keeps its default when it is missing or of the wrong type.\<close>

definition default_or :: "'a \<Rightarrow> 'e + 'a \<Rightarrow> 'a" where
  "default_or d r = (case r of Inl _ \<Rightarrow> d | Inr x \<Rightarrow> x)"

definition NewOutput :: "(string \<Rightarrow> bool) \<Rightarrow> OutputSpec \<Rightarrow> factory_error + sink" where
  "NewOutput pem_ok spec =
     (if out_Type spec = ''http'' then
        (case extractString (out_Config spec) ''url'' of
           Inl e \<Rightarrow> Inl (ConfigError ''http output'' e)
         | Inr url \<Rightarrow>
             map_sum id HTTPOutput (NewHTTPOutput pem_ok
               \<lparr>hc_URL = url,
                hc_Headers = default_or [] (extractStringMap (out_Config spec) ''headers''),
                hc_TLSSkipVerify = default_or False (extractBool (out_Config spec) ''tlsSkipVerify''),
                hc_TLSCACert = default_or [] (extractString (out_Config spec) ''tlsCACert'')\<rparr>))
      else if out_Type spec = ''file'' then
        (case extractString (out_Config spec) ''path'' of
           Inl e \<Rightarrow> Inl (ConfigError ''file output'' e)
         | Inr path \<Rightarrow> Inr (FileOutput \<lparr>fo_path = path, fo_f = False\<rparr>))
      else Inl (UnknownType (out_Type spec)))"

section \<open>Entries\<close>

lemma entry_map_get:
  assumes "gm_wf (rec_meta r)"
  shows "gm_get (entry_map r) k =
    (case gm_get (rec_meta r) k of Some v \<Rightarrow> Some v | None \<Rightarrow> if k = ''data'' then Some (rec_Data r) else None)"
  using assms by (simp add: entry_map_def gomap_simps gm_get_Cons split: option.split)

lemma entry_map_wf [simp]: "gm_wf (entry_map r)"
  by (simp add: entry_map_def gm_wf_def[of "[_]"])

text \<open>An object written from a string map decodes into the same map, in the order of its keys.\<close>

lemma dec_map_json: "gm_wf m \<Longrightarrow> dec_string_map (map_json m) = Some (Some (sort_key fst m))"
  using dec_members_map[of "[]" "sort_key fst m" dec_string JStr]
  by (simp add: dec_string_map_def map_json_def gm_wf_def distinct_sort_key)

lemma int_nums_map_json [simp]: "int_nums (map_json m)"
  by (auto simp: map_json_def)

lemma entry_json_parse:
  "Option.bind (json_parse (json_print (entry_json r))) dec_string_map = Some (Some (sort_key fst (entry_map r)))"
  by (simp add: json_parse_print entry_json_def dec_map_json)

text \<open>A printed string holds no line feed, so a line of the output file is one entry.\<close>

lemma esc_char_no_nl: "CHR 0x0A \<notin> set (esc_char c)"
proof -
  have nl: "hex_digit d \<noteq> CHR 0x0A" if "d < 16" for d
  proof
    assume "hex_digit d = CHR 0x0A"
    then have "hex_val (hex_digit d) = None" by (simp add: hex_val_def Let_def)
    with that show False by simp
  qed
  have "(of_char c :: nat) < 128 \<Longrightarrow> (of_char c :: nat) div 16 < 16" by simp
  then show ?thesis
    using nl[of "of_char c div 16"] nl[of "of_char c mod 16"]
    by (auto simp: esc_char_def)
qed

lemma str_print_no_nl: "CHR 0x0A \<notin> set (str_print s)"
  by (auto simp: str_print_def esc_char_no_nl)

lemma set_str_join: "set (str_join sep xs) \<subseteq> set sep \<union> (\<Union>x \<in> set xs. set x)"
  by (induction sep xs rule: str_join.induct) auto

lemma str_join_notin: "c \<notin> set sep \<Longrightarrow> \<forall>x \<in> set xs. c \<notin> set x \<Longrightarrow> c \<notin> set (str_join sep xs)"
  using set_str_join[of sep xs] by blast

lemma entry_no_nl: "CHR 0x0A \<notin> set (json_print (entry_json r))"
proof -
  let ?xs = "map (\<lambda>(k, v). str_print k @ '':'' @ str_print v) (sort_key fst (entry_map r))"
  have "CHR 0x0A \<notin> set (str_join '','' ?xs)"
    by (rule str_join_notin) (auto simp: str_print_no_nl)
  moreover have "json_print (entry_json r) = ''{'' @ str_join '','' ?xs @ ''}''"
    by (simp add: entry_json_def map_json_def case_prod_beta' comp_def)
  ultimately show ?thesis by simp
qed

section \<open>The file output\<close>

lemma os_write_cases:
  "os_write s w = (e, w') \<Longrightarrow>
     (e = None \<and> of_text w' = of_text w @ s) \<or> (e \<noteq> None \<and> (\<exists>n. of_text w' = of_text w @ take n s))"
  by (auto simp: os_write_def split: list.splits wres.splits)

lemma os_open_text [simp]: "os_open w = (e, w') \<Longrightarrow> of_text w' = of_text w"
  by (auto simp: os_open_def split: list.splits wres.splits)

lemma file_entries_ok:
  "file_entries rs w = (None, w') \<Longrightarrow> of_text w' = of_text w @ concat (map entry_line rs)"
  by (induction rs w rule: file_entries.induct) (auto split: prod.splits option.splits dest: os_write_cases)

lemma file_entries_err:
  "file_entries rs w = (Some e, w') \<Longrightarrow>
     \<exists>pre r post n. rs = pre @ r # post \<and> of_text w' = of_text w @ concat (map entry_line pre) @ take n (entry_line r)"
proof (induction rs w rule: file_entries.induct)
  case (1 w)
  then show ?case by simp
next
  case (2 r rs w)
  obtain d w1 where wr: "os_write (entry_line r) w = (d, w1)" by fastforce
  show ?case
  proof (cases d)
    case (Some x)
    with wr "2.prems" have "w' = w1" by simp
    with os_write_cases[OF wr] Some show ?thesis
      by (intro exI[of _ "[]"] exI[of _ r] exI[of _ rs]) auto
  next
    case None
    with wr "2.prems" have "file_entries rs w1 = (Some e, w')" by simp
    with "2.IH"[OF wr[symmetric] None] obtain pre r' post n where
      "rs = pre @ r' # post" "of_text w' = of_text w1 @ concat (map entry_line pre) @ take n (entry_line r')"
      by auto
    with os_write_cases[OF wr] None show ?thesis
      by (intro exI[of _ "r # pre"] exI[of _ r'] exI[of _ post] exI[of _ n]) auto
  qed
qed

lemma file_WriteBatch_ok:
  "file_WriteBatch rs out w = (None, out', w') \<Longrightarrow> of_text w' = of_text w @ concat (map entry_line rs)"
  by (auto simp: file_WriteBatch_def file_entries_ok split: if_splits prod.splits option.splits dest: os_open_text)

lemma file_WriteBatch_prefix:
  assumes "file_WriteBatch rs out w = (e, out', w')"
  shows "\<exists>n. of_text w' = of_text w @ take n (concat (map entry_line rs))"
proof -
  have entries: "\<exists>n. of_text w2 = of_text w1 @ take n (concat (map entry_line rs))"
    if "file_entries rs w1 = (d, w2)" for d w1 w2
  proof (cases d)
    case None
    with that show ?thesis
      by (intro exI[of _ "length (concat (map entry_line rs))"]) (simp add: file_entries_ok)
  next
    case (Some e)
    with that obtain pre r post n where *: "rs = pre @ r # post"
      "of_text w2 = of_text w1 @ concat (map entry_line pre) @ take n (entry_line r)"
      using file_entries_err by blast
    then show ?thesis
      by (intro exI[of _ "length (concat (map entry_line pre)) + min n (length (entry_line r))"])
        (simp add: min_def)
  qed
  have "\<exists>n. of_text w = of_text w @ take n (concat (map entry_line rs))"
    by (intro exI[of _ 0]) simp
  with assms entries show ?thesis
    by (auto simp: file_WriteBatch_def split: if_splits prod.splits option.splits dest: os_open_text) fastforce+
qed

section \<open>The HTTP output and the factory\<close>

lemma header_set_all_get:
  "\<forall>(k', v) \<in> set hs. canon_key True k' \<noteq> k \<Longrightarrow> gm_get (header_set_all h hs) k = gm_get h k"
  by (induction h hs rule: header_set_all.induct) (auto simp: header_set_def gomap_simps)

lemma http_WriteBatch_ok_iff:
  "fst (http_WriteBatch send cfg rs w) = None \<longleftrightarrow>
     (\<exists>status. fst (send (http_request_of cfg rs) w) = Inr status \<and> status < 400)"
  by (auto simp: http_WriteBatch_def split: prod.splits sum.splits)

lemma http_body_parse:
  "json_parse (rq_Body (http_request_of cfg rs)) = Some (JArr (map entry_json rs))"
  by (simp add: http_request_of_def json_parse_print entry_json_def del: json_print.simps)

lemma NewOutput_file: 
  "NewOutput pem_ok spec = Inr (FileOutput out) \<longleftrightarrow>
     out_Type spec = ''file'' \<and> extractString (out_Config spec) ''path'' = Inr (fo_path out) \<and> \<not> fo_f out"
  by (cases out) (auto simp: NewOutput_def map_sum_def split: sum.splits)

section \<open>Properties\<close>



text \<open>C35: writing a batch to the file output appends all its lines when it succeeds, and when it fails at any
  system call a prefix of their bytes, possibly cut inside a line.\<close>

theorem file_WriteBatch_appends:
  assumes "file_WriteBatch rs out w = (e, out', w')"
  shows "\<exists>n. of_text w' = of_text w @ take n (concat (map entry_line rs))
    \<and> (e = None \<longrightarrow> n = length (concat (map entry_line rs)))"
proof (cases e)
  case None
  with assms file_WriteBatch_ok[of rs out w out' w'] show ?thesis
    by (intro exI[of _ "length (concat (map entry_line rs))"]) simp
next
  case (Some x)
  with file_WriteBatch_prefix[OF assms] show ?thesis by auto
qed

theorem file_WriteBatch_appends_witness:
  "\<exists>n. of_text (snd (snd (file_WriteBatch [\<lparr>rec_Data = ''a'', rec_Offset = 0, rec_Meta = None\<rparr>] \<lparr>fo_path = ''/o'', fo_f = True\<rparr>
      \<lparr>of_text = [], of_script = [WFail 3 ''disk full'']\<rparr>))) = take n (entry_line \<lparr>rec_Data = ''a'', rec_Offset = 0, rec_Meta = None\<rparr>)"
proof -
  let ?w = "\<lparr>of_text = [], of_script = [WFail 3 ''disk full'']\<rparr>"
  obtain e o' w' where c: "file_WriteBatch [\<lparr>rec_Data = ''a'', rec_Offset = 0, rec_Meta = None\<rparr>] \<lparr>fo_path = ''/o'', fo_f = True\<rparr> ?w = (e, o', w')"
    by (metis surj_pair)
  from file_WriteBatch_appends[OF c] show ?thesis using c by auto
qed

text \<open>A short write followed by the runner's retry corrupts the file. The batch is acknowledged, but its
  record is not on a line of its own: the line holds the broken start and the retried entry, and does
  not parse as JSON.\<close>

theorem retry_after_short_write:
  "let w = \<lparr>of_text = [], of_script = [WFail 5 ''disk full'']\<rparr>; out = \<lparr>fo_path = ''/o'', fo_f = True\<rparr>;
       (e1, o1, w1) = file_WriteBatch [\<lparr>rec_Data = ''a'', rec_Offset = 0, rec_Meta = None\<rparr>] out w;
       (e2, o2, w2) = file_WriteBatch [\<lparr>rec_Data = ''a'', rec_Offset = 0, rec_Meta = None\<rparr>] o1 w1
   in e1 = Some ''disk full'' \<and> e2 = None \<and> length (segments (of_text w2)) = 1
      \<and> json_parse (hd (segments (of_text w2))) = None"
  by code_simp

text \<open>The HTTP output posts the batch as one JSON array of its records' objects and reports success
  exactly when the server answers with a status below 400.\<close>

theorem http_WriteBatch_succeeds:
  "json_parse (rq_Body (http_request_of cfg rs)) = Some (JArr (map entry_json rs))
    \<and> (fst (http_WriteBatch send cfg rs w) = None) =
        (case fst (send (http_request_of cfg rs) w) of Inl e \<Rightarrow> False | Inr status \<Rightarrow> status < 400)"
  by (auto simp: http_body_parse http_WriteBatch_def split: prod.splits sum.splits)

end
