(* ===== verification/Cleaner.thy ===== *)
theory Cleaner
  imports ApiTypes FileSys
begin

text \<open>
  \<open>internal/log-pilot-agent/clean\<close>: the three cleanup strategies and their factory. Errors of the
  directory listing are swallowed, so both methods always return a nil error; what is modelled is the
  answer of \<open>ShouldClean\<close> and the file system \<open>Clean\<close> leaves. Times are seconds (UTC days of 86400).
\<close>

datatype cleaner = neverClean | afterCollectedClean string | retainClean string int

definition NewClean :: "CleanSpec \<Rightarrow> string \<Rightarrow> cleaner" where
  "NewClean spec logDir =
     (if cl_Strategy spec = ''never'' then neverClean
      else if cl_Strategy spec = ''retain'' then
        retainClean logDir (if cl_RetainDays spec \<le> 0 then 7 else cl_RetainDays spec)
      else afterCollectedClean logDir)"

text \<open>\<open>os.Remove\<close>: a file, or a directory without entries.\<close>

definition has_entry :: "fsys \<Rightarrow> string \<Rightarrow> bool" where
  "has_entry fs dir = list_ex (\<lambda>(p, i). child_name dir p \<noteq> None) (fs_names fs)"

definition removable :: "fsys \<Rightarrow> string \<Rightarrow> bool" where
  "removable fs path =
     (case os_Stat fs path of None \<Rightarrow> False | Some (i, n) \<Rightarrow> \<not> (fn_dir n \<and> has_entry fs path))"

definition os_Remove :: "string \<Rightarrow> fsys \<Rightarrow> fsys" where
  "os_Remove path fs =
     (if removable fs path then fs\<lparr>fs_names := gm_del path (fs_names fs)\<rparr> else fs)"

definition cutoff :: "int \<Rightarrow> int \<Rightarrow> int" where
  "cutoff now days = now - 86400 * days"

definition older :: "fsys \<Rightarrow> string \<Rightarrow> int \<Rightarrow> string \<Rightarrow> bool" where
  "older fs logDir before name =
     (case os_Stat fs (logDir @ ''/'' @ name) of None \<Rightarrow> False | Some (i, n) \<Rightarrow> fn_mtime n < before)"

fun ShouldClean :: "cleaner \<Rightarrow> int \<Rightarrow> int \<Rightarrow> fsys \<Rightarrow> bool" where
  "ShouldClean neverClean lag now fs = False"
| "ShouldClean (afterCollectedClean logDir) lag now fs =
     (if 0 < lag then False
      else (case os_ReadDir fs logDir of None \<Rightarrow> False | Some names \<Rightarrow> names \<noteq> []))"
| "ShouldClean (retainClean logDir days) lag now fs =
     (case os_ReadDir fs logDir of
        None \<Rightarrow> False
      | Some names \<Rightarrow> list_ex (older fs logDir (cutoff now days)) names)"

fun Clean :: "cleaner \<Rightarrow> int \<Rightarrow> int \<Rightarrow> fsys \<Rightarrow> fsys" where
  "Clean neverClean lag now fs = fs"
| "Clean (afterCollectedClean logDir) lag now fs =
     (case os_ReadDir fs logDir of
        None \<Rightarrow> fs
      | Some names \<Rightarrow> fold (\<lambda>name. os_Remove (logDir @ ''/'' @ name)) names fs)"
| "Clean (retainClean logDir days) lag now fs =
     (case os_ReadDir fs logDir of
        None \<Rightarrow> fs
      | Some names \<Rightarrow>
          fold (\<lambda>name fs'. if older fs' logDir (cutoff now days) name
                           then os_Remove (logDir @ ''/'' @ name) fs' else fs') names fs)"

section \<open>What is removed\<close>

lemma os_Remove_frame [simp]: "fs_nodes (os_Remove p fs) = fs_nodes fs"
  by (simp add: os_Remove_def)

lemma os_Remove_names:
  "gm_get (fs_names (os_Remove p fs)) q = (if q = p \<and> removable fs p then None else gm_get (fs_names fs) q)"
  by (auto simp: os_Remove_def gomap_simps)

lemma os_Remove_stat:
  "os_Stat (os_Remove p fs) q = (if q = p \<and> removable fs p then None else os_Stat fs q)"
  by (simp add: os_Stat_def os_Remove_names split: option.split)

lemma child_name_Some: "child_name dir p = Some n \<longleftrightarrow> p = dir @ ''/'' @ n \<and> n \<noteq> [] \<and> CHR ''/'' \<notin> set n"
proof -
  have "take (Suc (length dir)) p = dir @ ''/'' \<Longrightarrow> p = (dir @ ''/'') @ drop (Suc (length dir)) p"
    by (metis append_take_drop_id)
  then show ?thesis by (auto simp: child_name_def Let_def)
qed

text \<open>Entries of one directory are never entries of one another.\<close>

lemma child_not_parent:
  "CHR ''/'' \<notin> set m \<Longrightarrow> child_name (dir @ ''/'' @ n) (dir @ ''/'' @ m) = None"
  by (cases "child_name (dir @ ''/'' @ n) (dir @ ''/'' @ m)") (auto simp: child_name_Some)

lemma has_entry_iff: "has_entry fs dir \<longleftrightarrow> (\<exists>q\<in>fst ` set (fs_names fs). child_name dir q \<noteq> None)"
  by (force simp: has_entry_def list_ex_iff)

lemma removable_os_Remove:
  assumes "CHR ''/'' \<notin> set m" "m \<noteq> n"
  shows "removable (os_Remove (dir @ ''/'' @ m) fs) (dir @ ''/'' @ n) = removable fs (dir @ ''/'' @ n)"
proof -
  let ?p = "dir @ ''/'' @ m"
  have np: "child_name (dir @ ''/'' @ n) ?p = None" by (rule child_not_parent[OF assms(1)])
  have upd: "fs_names (fs\<lparr>fs_names := x\<rparr>) = x" for x by simp
  have "has_entry (fs\<lparr>fs_names := gm_del ?p (fs_names fs)\<rparr>) (dir @ ''/'' @ n) = has_entry fs (dir @ ''/'' @ n)"
    unfolding has_entry_iff upd set_map_gm_del using np by (metis Diff_iff singletonD)
  then have "has_entry (os_Remove ?p fs) (dir @ ''/'' @ n) = has_entry fs (dir @ ''/'' @ n)"
    by (simp add: os_Remove_def)
  with assms(2) show ?thesis by (simp add: removable_def os_Remove_stat split: option.split)
qed

definition remove_where :: "(string \<Rightarrow> bool) \<Rightarrow> string \<Rightarrow> string list \<Rightarrow> fsys \<Rightarrow> fsys" where
  "remove_where P dir names fs = fold (\<lambda>name fs'. if P name then os_Remove (dir @ ''/'' @ name) fs' else fs') names fs"

lemma remove_where_stat:
  assumes "\<forall>n\<in>set names. CHR ''/'' \<notin> set n" "distinct names"
  shows "os_Stat (remove_where P dir names fs) q =
    (if \<exists>n\<in>set names. q = dir @ ''/'' @ n \<and> P n \<and> removable fs q then None else os_Stat fs q)"
  using assms
proof (induction names arbitrary: fs)
  case (Cons n names)
  let ?fs = "if P n then os_Remove (dir @ ''/'' @ n) fs else fs"
  have same: "removable ?fs (dir @ ''/'' @ m) = removable fs (dir @ ''/'' @ m)" if "m \<in> set names" for m
    using that Cons.prems removable_os_Remove[of n m dir fs] by auto
  have "os_Stat (remove_where P dir (n # names) fs) q =
      (if \<exists>m\<in>set names. q = dir @ ''/'' @ m \<and> P m \<and> removable ?fs q then None else os_Stat ?fs q)"
    using Cons.IH[of ?fs] Cons.prems by (simp add: remove_where_def)
  also have "\<dots> = (if \<exists>m\<in>set (n # names). q = dir @ ''/'' @ m \<and> P m \<and> removable fs q then None else os_Stat fs q)"
    using same Cons.prems by (auto simp: os_Remove_stat)
  finally show ?case .
qed (simp add: remove_where_def)

text \<open>Which entries a strategy removes.\<close>

definition doomed :: "cleaner \<Rightarrow> int \<Rightarrow> fsys \<Rightarrow> string \<Rightarrow> bool" where
  "doomed cl now fs name =
     (case cl of
        neverClean \<Rightarrow> False
      | afterCollectedClean dir \<Rightarrow> True
      | retainClean dir days \<Rightarrow> older fs dir (cutoff now days) name)"

definition cleaner_dir :: "cleaner \<Rightarrow> string" where
  "cleaner_dir cl = (case cl of neverClean \<Rightarrow> [] | afterCollectedClean dir \<Rightarrow> dir | retainClean dir days \<Rightarrow> dir)"

lemma ReadDir_names:
  assumes "os_ReadDir fs dir = Some names"
  shows "n \<in> set names \<longleftrightarrow> dir @ ''/'' @ n \<in> fst ` set (fs_names fs) \<and> n \<noteq> [] \<and> CHR ''/'' \<notin> set n"
  using assms by (force simp: os_ReadDir_def set_map_filter child_name_Some split: option.splits if_splits)

lemma ReadDir_distinct:
  assumes "os_ReadDir fs dir = Some names" "gm_wf (fs_names fs)"
  shows "distinct names"
proof -
  have "distinct (List.map_filter (\<lambda>(p, j). child_name dir p) m)" if "distinct (map fst m)" for m :: "(string, inode) gomap"
    using that
    by (induction m) (force simp: List.map_filter_simps set_map_filter child_name_Some split: option.splits)+
  with assms show ?thesis by (auto simp: os_ReadDir_def gm_wf_def split: option.splits if_splits)
qed

text \<open>The age of an entry does not change while its siblings are removed.\<close>

lemma retain_fold:
  assumes "distinct names" "\<forall>n\<in>set names. older gs dir b n = older fs dir b n"
  shows "fold (\<lambda>name fs'. if older fs' dir b name then os_Remove (dir @ ''/'' @ name) fs' else fs') names gs
    = remove_where (older fs dir b) dir names gs"
  using assms
proof (induction names arbitrary: gs)
  case (Cons n names)
  let ?gs = "if older fs dir b n then os_Remove (dir @ ''/'' @ n) gs else gs"
  have "\<forall>m\<in>set names. older ?gs dir b m = older fs dir b m"
    using Cons.prems by (auto simp: older_def os_Remove_stat)
  from Cons.IH[OF _ this] Cons.prems show ?case by (simp add: remove_where_def)
qed (simp add: remove_where_def)

lemma Clean_remove_where:
  assumes "os_ReadDir fs (cleaner_dir cl) = Some names" "gm_wf (fs_names fs)"
  shows "Clean cl lag now fs = remove_where (doomed cl now fs) (cleaner_dir cl) names fs"
proof (cases cl)
  case neverClean
  have "remove_where (\<lambda>name. False) d names fs = fs" for d by (induction names) (simp_all add: remove_where_def)
  moreover have "doomed neverClean now fs = (\<lambda>name. False)" by (simp add: doomed_def fun_eq_iff)
  ultimately show ?thesis using neverClean by simp
next
  case (afterCollectedClean dir)
  with assms show ?thesis by (simp add: doomed_def cleaner_dir_def remove_where_def)
next
  case (retainClean dir days)
  moreover have "doomed (retainClean dir days) now fs = older fs dir (cutoff now days)"
    by (simp add: doomed_def fun_eq_iff)
  ultimately show ?thesis
    using assms retain_fold[OF ReadDir_distinct[OF assms]] by (simp add: cleaner_dir_def)
qed

section \<open>Properties\<close>

text \<open>C31: cleaning removes exactly the entries of the managed directory the strategy dooms and the system
  can remove: none for \<open>never\<close>, all for \<open>afterCollected\<close>, those last modified before the cutoff for
  \<open>retain\<close>; a directory that has entries stays, and nothing outside the managed directory is touched.\<close>

theorem Clean_removes:
  assumes "os_ReadDir fs (cleaner_dir cl) = Some names" "gm_wf (fs_names fs)"
  shows "os_Stat (Clean cl lag now fs) q =
    (if \<exists>n\<in>set names. q = cleaner_dir cl @ ''/'' @ n \<and> doomed cl now fs n \<and> removable fs q then None
     else os_Stat fs q)"
  unfolding Clean_remove_where[OF assms]
  by (rule remove_where_stat) (use ReadDir_names[OF assms(1)] ReadDir_distinct[OF assms] in auto)

theorem Clean_removes_witness:
  "os_Stat (Clean (retainClean ''/l'' 7) 0 1000000
      \<lparr>fs_names = [(''/l'', 1), (''/l/a'', 2), (''/l/b'', 3)],
       fs_nodes = [(1, \<lparr>fn_data = [], fn_mtime = 0, fn_dir = True, fn_deny = False, fn_bad = False\<rparr>),
         (2, \<lparr>fn_data = [], fn_mtime = 5, fn_dir = False, fn_deny = False, fn_bad = False\<rparr>),
         (3, \<lparr>fn_data = [], fn_mtime = 999999, fn_dir = False, fn_deny = False, fn_bad = False\<rparr>)]\<rparr>) ''/l/b''
    = Some (3, \<lparr>fn_data = [], fn_mtime = 999999, fn_dir = False, fn_deny = False, fn_bad = False\<rparr>)"
  (is "os_Stat (Clean ?c 0 1000000 ?fs) ''/l/b'' = Some ?r")
proof -
  have rd: "os_ReadDir ?fs (cleaner_dir ?c) = Some [''a'', ''b'']" by code_simp
  have wf: "gm_wf (fs_names ?fs)" by code_simp
  have "\<not> (\<exists>n\<in>set [''a'', ''b'']. ''/l/b'' = cleaner_dir ?c @ ''/'' @ n \<and> doomed ?c 1000000 ?fs n \<and> removable ?fs ''/l/b'')"
    by code_simp
  moreover have "os_Stat ?fs ''/l/b'' = Some ?r" by code_simp
  ultimately show ?thesis using Clean_removes[OF rd wf, of 0 1000000 "''/l/b''"] by simp
qed

end
