(* ===== verification/Pipeline.thy ===== *)
theory Pipeline
  imports Runner DirDrain Outputs Cleaner
begin

text \<open>
  The runner on the components the agent gives it for a container policy of type file: the directory
  input, the configured transforms, the file output and a cleaner, over one world. The world has a
  clock in milliseconds; \<open>wd_fs t\<close> is the file system other processes have produced at time \<open>t\<close>, the run
  context is cancelled at \<open>wd_stop\<close>, the drain context expires at \<open>wd_deadline\<close>, and one \<open>ReadBatch\<close> makes
  at most \<open>wd_window + 1\<close> turns, one a millisecond. The last three fields record what the contract
  speaks of: the records read, those acknowledged, and how many the state file covers.
\<close>

record world =
  wd_now :: int
  wd_fs :: "int \<Rightarrow> fsys"
  wd_stop :: int
  wd_deadline :: int
  wd_window :: nat
  wd_in :: dirInput
  wd_meta :: metafs
  wd_out :: fileOutput
  wd_file :: osfile
  wd_read :: "LogRecord list"
  wd_acked :: "LogRecord list"
  wd_committed :: nat

definition expiry :: "ctx \<Rightarrow> world \<Rightarrow> int" where
  "expiry c w = (case c of RunCtx \<Rightarrow> wd_stop w | DrainCtx \<Rightarrow> wd_deadline w)"

definition window :: "ctx \<Rightarrow> world \<Rightarrow> tick list" where
  "window c w = map (\<lambda>k. \<lparr>tk_done = (expiry c w \<le> wd_now w + int k), tk_fs = wd_fs w (wd_now w + int k)\<rparr>) [0..<Suc (wd_window w)]"

definition w_done :: "ctx \<Rightarrow> world \<Rightarrow> bool" where
  "w_done c w = (expiry c w \<le> wd_now w)"

definition w_wait :: "ctx \<Rightarrow> int \<Rightarrow> world \<Rightarrow> bool \<times> world" where
  "w_wait c k w =
     (if expiry c w \<le> wd_now w + k then (True, w\<lparr>wd_now := max (wd_now w) (expiry c w)\<rparr>)
      else (False, w\<lparr>wd_now := wd_now w + max k 0\<rparr>))"

definition w_cancel :: "world \<Rightarrow> world" where
  "w_cancel w = w\<lparr>wd_stop := min (wd_stop w) (wd_now w)\<rparr>"

definition w_timeout :: "int \<Rightarrow> world \<Rightarrow> world" where
  "w_timeout k w = w\<lparr>wd_deadline := wd_now w + k\<rparr>"

definition w_env :: "world env" where
  "w_env = \<lparr>ev_done = w_done, ev_wait = w_wait, ev_cancel = w_cancel, ev_timeout = w_timeout\<rparr>"

definition w_ReadBatch :: "ctx \<Rightarrow> int \<Rightarrow> world \<Rightarrow> (gerr + LogRecord list) \<times> world" where
  "w_ReadBatch c sz w =
     (case dir_ReadBatch (window c w) sz (wd_in w) of
        (records, d) \<Rightarrow>
          (Inr records, w\<lparr>wd_in := d, wd_now := wd_now w + int (Suc (wd_window w)), wd_read := wd_read w @ records\<rparr>))"

definition w_saved :: "dirInput \<Rightarrow> metafs \<Rightarrow> world \<Rightarrow> world" where
  "w_saved d m w =
     w\<lparr>wd_in := d, wd_meta := m,
       wd_committed := (if os_ReadFile m (dc_MetaPath (d_cfg d)) = Some (json_print (state_json d))
                        then length (wd_read w) else wd_committed w)\<rparr>"

definition w_Commit :: "world \<Rightarrow> gerr option \<times> world" where
  "w_Commit w = (case dir_Commit (wd_fs w (wd_now w)) (wd_in w) (wd_meta w) of (d, m) \<Rightarrow> (None, w_saved d m w))"

definition w_Close :: "world \<Rightarrow> gerr option \<times> world" where
  "w_Close w = (case dir_Close (wd_fs w (wd_now w)) (wd_in w) (wd_meta w) of (d, m) \<Rightarrow> (None, w_saved d m w))"

definition w_input :: "world input_ops" where
  "w_input = \<lparr>io_ReadBatch = w_ReadBatch, io_Commit = w_Commit, io_Lag = (\<lambda>w. dir_Lag (wd_in w)), io_Close = w_Close\<rparr>"

definition w_WriteBatch :: "ctx \<Rightarrow> LogRecord list \<Rightarrow> world \<Rightarrow> gerr option \<times> world" where
  "w_WriteBatch c records w =
     (case file_WriteBatch records (wd_out w) (wd_file w) of
        (e, fo, f) \<Rightarrow>
          (e, w\<lparr>wd_out := fo, wd_file := f, wd_acked := (if e = None then wd_acked w @ records else wd_acked w)\<rparr>))"

definition w_out_Close :: "world \<Rightarrow> gerr option \<times> world" where
  "w_out_Close w =
     (case file_Close (wd_out w) (wd_file w) of (e, fo, f) \<Rightarrow> (e, w\<lparr>wd_out := fo, wd_file := f\<rparr>))"

definition w_output :: "world output_ops" where
  "w_output = \<lparr>oo_WriteBatch = w_WriteBatch, oo_Close = w_out_Close\<rparr>"

definition w_Clean :: "cleaner \<Rightarrow> int \<Rightarrow> world \<Rightarrow> gerr option \<times> world" where
  "w_Clean cl lag w =
     (None, w\<lparr>wd_fs := (\<lambda>t. if wd_now w \<le> t then Clean cl lag (wd_now w div 1000) (wd_fs w t) else wd_fs w t)\<rparr>)"

definition w_config :: "transform list \<Rightarrow> cleaner \<Rightarrow> int \<Rightarrow> world Config" where
  "w_config ts cl n =
     \<lparr>rc_Name = ''container'', rc_Input = Some w_input, rc_Transforms = map Transform ts, rc_Output = Some w_output,
      rc_Clean = Some \<lparr>ko_Clean = w_Clean cl\<rparr>, rc_BatchLen = n\<rparr>"

lemmas w_ops = w_env_def w_input_def w_output_def w_config_def

section \<open>The contract holds\<close>

lemma file_WriteBatch_calm:
  assumes "of_script f = []"
  shows "file_WriteBatch rs fo f =
    (None, fo\<lparr>fo_f := True\<rparr>, f\<lparr>of_text := of_text f @ concat (map entry_line rs)\<rparr>)"
proof -
  have "of_script f = [] \<Longrightarrow> file_entries rs f = (None, f\<lparr>of_text := of_text f @ concat (map entry_line rs)\<rparr>)" for f
    by (induction rs arbitrary: f) (simp_all add: os_write_def)
  with assms show ?thesis by (simp add: file_WriteBatch_def os_open_def)
qed

interpretation pl: pipeline w_env "w_config ts cl n" w_input w_output "chain ts" wd_read wd_acked wd_committed
    "\<lambda>w. of_script (wd_file w) = []" for ts cl n
proof
  show "applyTransforms (rc_Transforms (w_config ts cl n)) rs = concat (map (chain ts) rs)" for rs
    by (simp add: w_ops applyTransforms_chain)
next
  fix c rs w w' and e :: gerr
  assume "oo_WriteBatch w_output c rs w = (Some e, w')"
  then show "of_script (wd_file w) \<noteq> [] \<and> wd_read w' = wd_read w \<and> wd_acked w' = wd_acked w \<and> wd_committed w' = wd_committed w"
    using file_WriteBatch_calm[of "wd_file w" rs "wd_out w"]
    by (auto simp: w_ops w_WriteBatch_def split: prod.splits)
next
  fix c rs w w'
  assume "oo_WriteBatch w_output c rs w = (None, w')"
  then show "wd_read w' = wd_read w \<and> wd_acked w' = wd_acked w @ rs \<and> wd_committed w' = wd_committed w
      \<and> (of_script (wd_file w) = [] \<longrightarrow> of_script (wd_file w') = [])"
    using file_WriteBatch_calm[of "wd_file w" rs "wd_out w"]
    by (auto simp: w_ops w_WriteBatch_def split: prod.splits)
qed (auto simp: w_ops w_ReadBatch_def w_Commit_def w_Close_def w_saved_def w_wait_def w_cancel_def w_timeout_def
    w_out_Close_def file_Close_def w_Clean_def split: prod.splits if_splits)

definition w_left :: "ctx \<Rightarrow> world \<Rightarrow> nat" where
  "w_left c w = nat (expiry c w - wd_now w)"

lemma ReadBatch_expired: "expiry c w \<le> wd_now w \<Longrightarrow> dir_ReadBatch (window c w) sz d = ([], d)"
  by (simp add: dir_ReadBatch_def window_def upt_conv_Cons del: upt_Suc)

interpretation ck: clocked w_env "w_config ts cl n" w_input w_output w_left for ts cl n
proof
  fix c sz w w' and rs :: "LogRecord list"
  assume r: "io_ReadBatch w_input c sz w = (Inr rs, w')" "rs \<noteq> []"
  then have "\<not> expiry c w \<le> wd_now w"
    using ReadBatch_expired[of c w sz "wd_in w"] by (auto simp: w_ops w_ReadBatch_def)
  with r show "w_left c w' < w_left c w"
    by (auto simp: w_left_def expiry_def w_ops w_ReadBatch_def split: prod.splits ctx.splits)
qed (auto simp: w_ops w_left_def expiry_def w_done_def w_ReadBatch_def w_WriteBatch_def w_Commit_def w_saved_def
    w_wait_def w_cancel_def w_timeout_def split: prod.splits if_splits ctx.splits)

section \<open>What is in the output file\<close>

definition written :: "string \<Rightarrow> world \<Rightarrow> bool" where
  "written old w = (of_script (wd_file w) = [] \<and> of_text (wd_file w) = old @ concat (map entry_line (wd_acked w)))"

interpretation wr: stable w_env "w_config ts cl n" w_input "written old" "written old" for ts cl n old
proof
  fix outp c rs w
  assume "rc_Output (w_config ts cl n) = Some outp" "written old w"
  then show "written old (snd (oo_WriteBatch outp c rs w))"
    using file_WriteBatch_calm[of "wd_file w" rs "wd_out w"]
    by (auto simp: w_ops written_def w_WriteBatch_def)
qed (auto simp: written_def w_ops w_ReadBatch_def w_Commit_def w_Close_def w_saved_def w_wait_def w_cancel_def w_timeout_def
    w_out_Close_def file_Close_def w_Clean_def split: prod.splits if_splits)

section \<open>A directory read to the end stays so\<close>

definition idle :: "fsys \<Rightarrow> string list \<Rightarrow> dirInput \<Rightarrow> bool" where
  "idle fs files d = (drained fs d files \<and> listFiles fs d = files \<and> readable_dir fs files)"

lemma idle_ReadBatch:
  assumes "idle fs files d" "wd_fs w = (\<lambda>t. fs)"
  shows "dir_ReadBatch (window c w) sz d = ([], d)"
proof -
  obtain pre f where files: "files = pre @ [f]" using assms(1) by (cases files rule: rev_cases) (auto simp: idle_def drained_def)
  have at: "at fs d f (length (file_data fs f))" using assms(1) files by (simp add: idle_def drained_def)
  have "advanceFile fs d = (False, d)"
    using advanceFile_at[OF at, of pre "[]"] assms(1) files by (auto simp: idle_def drained_def readable_dir_def)
  then have "dir_loop (t # ts) sz [] d = ([], d)" if "tk_fs t = fs" for t ts
    using that readLine_at_end[OF at] by simp
  then show ?thesis using assms(2) by (simp add: dir_ReadBatch_def window_def upt_conv_Cons del: upt_Suc dir_loop.simps)
qed

lemma at_updateLag: "at fs d f pos \<Longrightarrow> at fs (updateLag fs d) f pos"
  unfolding at_def by (auto simp: reading_lag) (auto simp: reading_def frame_simps split: option.splits)

lemma at_prune: "at fs (pruneStaleInodes fs d) f pos = at fs d f pos"
  by (simp add: at_def reading_def frame_simps split: option.split)

lemma idle_Commit: "idle fs files d \<Longrightarrow> idle fs files (fst (dir_Commit fs d m))"
proof -
  assume i: "idle fs files d"
  let ?d = "pruneStaleInodes fs (updateLag fs d)"
  have lf: "listFiles fs ?d = listFiles fs d" "listFiles fs (updateLag fs d) = listFiles fs d"
    by (intro listFiles_cong; simp add: frame_simps)+
  have "\<forall>g\<in>set files. is_done fs ?d g = is_done fs d g"
    using is_done_pruned[of _ fs "updateLag fs d"] i lf(2) by (simp add: idle_def is_done_def frame_simps)
  with i lf(1) have "idle fs files ?d" by (auto simp: idle_def drained_def at_prune at_updateLag)
  then show ?thesis by (simp add: dir_Commit_def commitState_def Let_def)
qed

definition reading_over :: "fsys \<Rightarrow> string list \<Rightarrow> LogRecord list \<Rightarrow> world \<Rightarrow> bool" where
  "reading_over fs files rs w = (wd_read w = rs \<and> wd_fs w = (\<lambda>t. fs) \<and> idle fs files (wd_in w))"

interpretation ov: stable w_env "w_config ts cl n" w_input "reading_over fs files rs" "\<lambda>w. wd_read w = rs"
  for ts cl n fs files rs
proof
  fix c sz w
  assume "reading_over fs files rs w"
  then show "reading_over fs files rs (snd (io_ReadBatch w_input c sz w))"
    using idle_ReadBatch[of fs files "wd_in w" w c sz] by (simp add: reading_over_def w_ops w_ReadBatch_def)
next
  fix w
  assume "reading_over fs files rs w"
  then show "reading_over fs files rs (snd (io_Commit w_input w))"
    using idle_Commit[of fs files "wd_in w" "wd_meta w"]
    by (auto simp: reading_over_def w_ops w_Commit_def w_saved_def split: prod.splits)
qed (auto simp: reading_over_def w_ops w_Close_def w_saved_def w_wait_def w_cancel_def w_timeout_def
    w_WriteBatch_def w_out_Close_def file_Close_def w_Clean_def split: prod.splits if_splits)

definition fresh :: "world \<Rightarrow> bool" where
  "fresh w = (wd_read w = [] \<and> wd_acked w = [] \<and> wd_committed w = 0)"

lemma fresh_exact: "fresh w \<Longrightarrow> pl.exact ts w"
  by (simp add: fresh_def pl.exact_def pl.xfs_def)

section \<open>A small world\<close>

definition demo_world :: "(int \<Rightarrow> fsys) \<Rightarrow> wres list \<Rightarrow> int \<Rightarrow> world" where
  "demo_world fs script stop =
     \<lparr>wd_now = 0, wd_fs = fs, wd_stop = stop, wd_deadline = 0, wd_window = 8, wd_in = demo_start, wd_meta = demo_meta,
      wd_out = \<lparr>fo_path = ''/out'', fo_f = False\<rparr>, wd_file = \<lparr>of_text = [], of_script = script\<rparr>,
      wd_read = [], wd_acked = [], wd_committed = 0\<rparr>"

definition demo_runner :: "cleaner \<Rightarrow> world Runner" where
  "demo_runner cl = New (w_config [LabelTransform [(''pod'', ''p'')]] cl 0)"

definition demo_label :: "transform list" where
  "demo_label = [LabelTransform [(''pod'', ''p'')]]"

lemma demo_runner_cfg: "rn_cfg (demo_runner cl) = w_config demo_label cl 1000" "rn_cancel (demo_runner cl) = CancelNil"
  by (simp_all add: demo_runner_def demo_label_def New_def w_config_def)

lemma demo_fresh: "fresh (demo_world fs script stop)" "of_script (wd_file (demo_world fs [] stop)) = []"
  by (simp_all add: fresh_def demo_world_def)

lemma demo_run_ok:
  "case Run 9 w_env (demo_runner neverClean) (demo_world (\<lambda>t. fs_two) [] 100) of None \<Rightarrow> False
   | Some (x, r, w) \<Rightarrow> map rec_Data (wd_read w) = [''x'', ''y'', ''z'']"
  by code_simp

lemma demo_run:
  obtains x r w where "Run 9 w_env (demo_runner neverClean) (demo_world (\<lambda>t. fs_two) [] 100) = Some (x, r, w)"
    "map rec_Data (wd_read w) = [''x'', ''y'', ''z'']"
  using demo_run_ok by (auto split: option.splits)

section \<open>Properties\<close>

lemma Run_log:
  assumes "fresh w" "of_script (wd_file w) = []" "rn_cfg r = w_config ts cl n" "Run k w_env r w = Some (x, r', w')"
  shows "of_text (wd_file w') = of_text (wd_file w) @ concat (map entry_line (concat (map (chain ts) (wd_read w'))))
    \<and> rn_sent r' - rn_sent r = int (length (concat (map (chain ts) (wd_read w')))) \<and> x \<noteq> WriteAborted"
proof -
  note e = fresh_exact[OF assms(1), of ts]
  note na = pl.Run_calm[OF e assms(2-4)]
  have "wd_acked w' = concat (map (chain ts) (wd_read w'))"
    using pl.Run_delivers(2)[OF e assms(3,4) na assms(2)] by (simp add: pl.xfs_def)
  moreover have "written (of_text (wd_file w)) w" using assms(1,2) by (simp add: written_def fresh_def)
  from wr.Run_stable[OF assms(3,4) this] have "written (of_text (wd_file w)) w'" .
  ultimately show ?thesis
    using pl.Run_delivers(3)[OF e assms(3,4) na] assms(1) na by (simp add: written_def fresh_def)
qed

text \<open>C2: exactly-once delivery. If no write to the output file fails, a run that returns has put into the
  file, after what was there, exactly one line for each record that the transforms make of the records
  read, in the order read, and its counter of sent records has advanced by their number. This holds
  whatever happens to the log directory and whenever the run is stopped.\<close>

theorem Run_exactly_once:
  assumes "fresh w" "of_script (wd_file w) = []" "rn_cfg r = w_config ts cl n" "Run k w_env r w = Some (x, r', w')"
  shows "of_text (wd_file w') = of_text (wd_file w) @ concat (map entry_line (concat (map (chain ts) (wd_read w'))))
    \<and> rn_sent r' - rn_sent r = int (length (concat (map (chain ts) (wd_read w')))) \<and> x \<noteq> WriteAborted"
  by (rule Run_log[OF assms])

theorem Run_exactly_once_witness:
  "\<exists>x r w. Run 9 w_env (demo_runner neverClean) (demo_world (\<lambda>t. fs_two) [] 100) = Some (x, r, w)
    \<and> map rec_Data (wd_read w) = [''x'', ''y'', ''z''] \<and> rn_sent r = 3
    \<and> of_text (wd_file w) = concat (map entry_line (concat (map (chain demo_label) (wd_read w))))"
proof -
  obtain x r w where run: "Run 9 w_env (demo_runner neverClean) (demo_world (\<lambda>t. fs_two) [] 100) = Some (x, r, w)"
    and rd: "map rec_Data (wd_read w) = [''x'', ''y'', ''z'']" by (rule demo_run)
  note t = Run_exactly_once[OF demo_fresh demo_runner_cfg(1) run]
  have "length (wd_read w) = 3" using arg_cong[OF rd, of length] by simp
  moreover have "length (concat (map (chain demo_label) rs)) = length rs" for rs
    by (induction rs) (simp_all add: demo_label_def)
  moreover have "rn_sent (demo_runner neverClean) = 0" by (simp add: demo_runner_def New_def)
  ultimately show ?thesis using run rd t by (simp add: demo_world_def)
qed

text \<open>C3: no position runs ahead of the data while the loop of the runner is going. Whatever writes and
  commits fail, when the loop ends the state file covers only records whose transforms were
  acknowledged by the output, exactly once and in order.\<close>

theorem run_loop_commits_sent:
  assumes "fresh w" "run_loop k w_env (w_config ts cl n) sent w = Some (x, sent', w')"
  shows "\<exists>rs us. wd_read w' = rs @ us \<and> wd_acked w' = concat (map (chain ts) rs) \<and> wd_committed w' \<le> length rs
    \<and> (x \<noteq> WriteAborted \<longrightarrow> us = [])"
proof -
  note e = pl.run_loop_exact[OF fresh_exact[OF assms(1), of ts] assms(2)]
  show ?thesis
  proof (cases "x = WriteAborted")
    case True
    with e show ?thesis by (auto simp: pl.pending_def pl.xfs_def)
  next
    case False
    with e show ?thesis by (auto simp: pl.exact_def pl.xfs_def intro!: exI[of _ "wd_read w'"])
  qed
qed

theorem run_loop_commits_sent_witness:
  "case run_loop 9 w_env (w_config demo_label neverClean 2) 0 (demo_world (\<lambda>t. fs_two) [WOk, WOk, WOk, WFail 0 ''refused''] 100) of
     None \<Rightarrow> False
   | Some (x, sent, w) \<Rightarrow> length (wd_read w) = 3 \<and> length (wd_acked w) = 2 \<and> wd_committed w = 2
       \<and> (\<exists>rs us. wd_read w = rs @ us \<and> wd_acked w = concat (map (chain demo_label) rs) \<and> wd_committed w \<le> length rs)"
proof -
  let ?w = "demo_world (\<lambda>t. fs_two) [WOk, WOk, WOk, WFail 0 ''refused''] 100"
  have "case run_loop 9 w_env (w_config demo_label neverClean 2) 0 ?w of None \<Rightarrow> False
     | Some (x, sent, w) \<Rightarrow> length (wd_read w) = 3 \<and> length (wd_acked w) = 2 \<and> wd_committed w = 2" by code_simp
  then obtain x sent w where run: "run_loop 9 w_env (w_config demo_label neverClean 2) 0 ?w = Some (x, sent, w)"
    and "length (wd_read w) = 3 \<and> length (wd_acked w) = 2 \<and> wd_committed w = 2" by (auto split: option.splits)
  then show ?thesis using run_loop_commits_sent[OF demo_fresh(1) run] unfolding run by auto
qed

text \<open>C7: a run that is cancelled at a known time returns and closes its Done channel, whatever the
  directory, the output and the state file do: the loop ends at the cancellation, the shutdown within
  its five seconds.\<close>

theorem Run_terminates:
  assumes "rn_cfg r = w_config ts cl n" "wd_stop w - wd_now w < int k" "5000 < k"
  shows "\<exists>x r' w'. Run k w_env r w = Some (x, r', w') \<and> rn_done r'"
  by (rule ck.Run_returns[OF assms(1) _ assms(3)]) (use assms(2,3) in \<open>auto simp: w_left_def expiry_def\<close>)


theorem Run_terminates_witness:
  "\<exists>x r w. Run 5001 w_env (demo_runner (afterCollectedClean ''/l'')) (demo_world (\<lambda>t. fs_one) [WFail 0 ''refused''] 100)
     = Some (x, r, w) \<and> rn_done r"
  by (rule Run_terminates[OF demo_runner_cfg(1)]) (simp_all add: demo_world_def)



end
