(* ===== verification/RunnerRetry.thy ===== *)
theory RunnerRetry
  imports Runner
begin

text \<open>
  The retries of \<open>Runner.writeBatch\<close>: how long they wait and that they end with success once the output
  recovers. The properties of whole runs are in \<open>Runner\<close> and \<open>Pipeline\<close>.
\<close>

definition backoff_at :: "nat \<Rightarrow> int" where
  "backoff_at i = (if i < 5 then 200 * 2 ^ i else 6400)"

lemma backoff_next: "(if backoff_at i < 5000 then backoff_at i * 2 else backoff_at i) = backoff_at (Suc i)"
proof (cases "i < 5")
  case True
  then have "i = 0 \<or> i = 1 \<or> i = 2 \<or> i = 3 \<or> i = 4" by arith
  then show ?thesis by (auto simp: backoff_at_def)
qed (simp add: backoff_at_def)

lemma write_retry_waits:
  assumes "\<And>c k w b w'. ev_wait ev c k w = (b, w') \<Longrightarrow> waits w' = waits w @ [k]"
    and "\<And>c rs w e w'. oo_WriteBatch out c rs w = (e, w') \<Longrightarrow> waits w' = waits w"
  shows "write_retry n ev out c rs (backoff_at i) w = Some (ok, w') \<Longrightarrow> \<exists>m. waits w' = waits w @ map backoff_at [i..<i + m]"
proof (induction n arbitrary: i w)
  case (Suc n)
  obtain e w1 where wr: "oo_WriteBatch out c rs w = (e, w1)" by fastforce
  show ?case
  proof (cases e)
    case None
    with wr Suc.prems assms(2)[OF wr] show ?thesis by (auto intro: exI[of _ 0])
  next
    case (Some x)
    obtain b w2 where wa: "ev_wait ev c (backoff_at i) w1 = (b, w2)" by fastforce
    have w2: "waits w2 = waits w @ [backoff_at i]" using assms(1)[OF wa] assms(2)[OF wr] by simp
    show ?thesis
    proof (cases b)
      case True
      with Some wr wa Suc.prems w2 show ?thesis by (auto intro: exI[of _ 1])
    next
      case False
      with Some wr wa Suc.prems have "write_retry n ev out c rs (backoff_at (Suc i)) w2 = Some (ok, w')"
        by (simp add: backoff_next)
      from Suc.IH[OF this] obtain m where "waits w' = waits w2 @ map backoff_at [Suc i..<Suc i + m]" by blast
      then have "waits w' = waits w @ map backoff_at [i..<i + Suc m]" by (simp add: w2 upt_conv_Cons del: upt_Suc)
      then show ?thesis by blast
    qed
  qed
qed simp

text \<open>C29: the waits between the attempts to write a batch are 200 ms, doubled up to 6.4 s and no longer: the
  i-th is the i-th back-off, and none exceeds 6.4 s. \<open>waits\<close> is the log of the timers.\<close>

theorem writeBatch_backoff:
  assumes "\<And>c k w b w'. ev_wait ev c k w = (b, w') \<Longrightarrow> waits w' = waits w @ [k]"
    and "\<And>out c rs w e w'. rc_Output cfg = Some out \<Longrightarrow> oo_WriteBatch out c rs w = (e, w') \<Longrightarrow> waits w' = waits w"
    and "writeBatch n ev cfg c rs w = Some (ok, w')"
  shows "\<exists>m. waits w' = waits w @ map backoff_at [0..<m] \<and> list_all (\<lambda>k. 200 \<le> k \<and> k \<le> 6400) (map backoff_at [0..<m])"
proof -
  have "\<exists>m. waits w' = waits w @ map backoff_at [0..<m]"
  proof (cases "rc_Output cfg")
    case None
    with assms(3) show ?thesis by (auto simp: writeBatch_def intro: exI[of _ 0])
  next
    case (Some out)
    show ?thesis
    proof (cases "rs = []")
      case True
      with Some assms(3) show ?thesis by (auto simp: writeBatch_def intro: exI[of _ 0])
    next
      case False
      with Some assms(3) have "write_retry n ev out c rs (backoff_at 0) w = Some (ok, w')"
        by (simp add: writeBatch_def backoff_at_def)
      from write_retry_waits[where waits = waits, OF assms(1) assms(2)[OF Some] this] show ?thesis by simp
    qed
  qed
  moreover have "200 \<le> backoff_at i \<and> backoff_at i \<le> 6400" for i
  proof (cases "i < 5")
    case True
    then have "i = 0 \<or> i = 1 \<or> i = 2 \<or> i = 3 \<or> i = 4" by arith
    then show ?thesis by (auto simp: backoff_at_def)
  qed (simp add: backoff_at_def)
  ultimately show ?thesis by (auto simp: list_all_iff)
qed


text \<open>An output that fails a number of times, with the log of the timers.\<close>

definition flaky_out :: "(nat \<times> int list) output_ops" where
  "flaky_out = \<lparr>oo_WriteBatch = (\<lambda>c rs (k, l). case k of 0 \<Rightarrow> (None, 0, l) | Suc j \<Rightarrow> (Some ''down'', j, l)),
     oo_Close = (\<lambda>w. (None, w))\<rparr>"

definition flaky_env :: "(nat \<times> int list) env" where
  "flaky_env = \<lparr>ev_done = (\<lambda>c w. False), ev_wait = (\<lambda>c k (j, l). (False, j, l @ [k])), ev_cancel = id, ev_timeout = (\<lambda>k w. w)\<rparr>"

definition flaky_cfg :: "(nat \<times> int list) Config" where
  "flaky_cfg = \<lparr>rc_Name = ''r'', rc_Input = None, rc_Transforms = [], rc_Output = Some flaky_out, rc_Clean = None, rc_BatchLen = 10\<rparr>"

definition flaky_record :: LogRecord where
  "flaky_record = \<lparr>rec_Data = ''x'', rec_Offset = 0, rec_Meta = None\<rparr>"

theorem writeBatch_backoff_witness:
  "\<exists>m. snd (snd (the (writeBatch 8 flaky_env flaky_cfg RunCtx [flaky_record] (7, [])))) = map backoff_at [0..<m]
     \<and> list_all (\<lambda>k. 200 \<le> k \<and> k \<le> 6400) (map backoff_at [0..<m])"
proof -
  have w: "ev_wait flaky_env c k w = (b, w') \<Longrightarrow> snd w' = snd w @ [k]" for c k w b w'
    by (auto simp: flaky_env_def split: prod.splits)
  have o: "rc_Output flaky_cfg = Some out \<Longrightarrow> oo_WriteBatch out c rs w = (e, w') \<Longrightarrow> snd w' = snd w" for out c rs w e w'
    by (auto simp: flaky_cfg_def flaky_out_def split: prod.splits nat.splits)
  have "\<not> Option.is_none (writeBatch 8 flaky_env flaky_cfg RunCtx [flaky_record] (7, []))" by code_simp
  then obtain r where "writeBatch 8 flaky_env flaky_cfg RunCtx [flaky_record] (7, []) = Some (fst r, snd r)"
    by (auto simp: Option.is_none_def)
  with writeBatch_backoff[where waits = snd, OF w o this] show ?thesis by simp
qed


end
