(* ===== verification/FileInput.thy ===== *)
theory FileInput
  imports DirInput
begin

text \<open>
  \<open>internal/log-pilot-agent/input/file.go\<close>: the input that follows one file with the library \<open>nxadm/tail\<close>.

  The library is the argument \<open>TailFile\<close> and the record \<open>tail_ops\<close>; a value of type \<open>'t\<close> stands for the handle it
  returns. \<open>ReadBatch\<close> runs under a list of \<open>lines_turn\<close>s, one for each time a \<open>select\<close> of the code looks at the
  channel of lines and the context; the context is done where the list ends.
\<close>

section \<open>The saved offset\<close>

definition offset_json :: "int \<Rightarrow> json" where
  "offset_json n = JObj [(''offset'', JNum (show_int n))]"

fun dec_offset :: "json \<Rightarrow> int option" where
  "dec_offset (JObj ms) = dec_field dec_int64 0 (field_vals [''offset''] ''offset'' ms)"
| "dec_offset JNull = Some 0"
| "dec_offset _ = None"

definition loadOffset :: "metafs \<Rightarrow> string \<Rightarrow> int" where
  "loadOffset m path =
     (if path = [] then - 1
      else (case os_ReadFile m path of
         None \<Rightarrow> - 1
       | Some raw \<Rightarrow> (case Option.bind (json_parse raw) dec_offset of None \<Rightarrow> - 1 | Some n \<Rightarrow> n)))"

section \<open>The input\<close>

record FileConfig =
  fc_Path :: string
  fc_MetaPath :: string
  fc_ReadFrom :: string
  fc_Include :: "string list"
  fc_Exclude :: "string list"
  fc_OffsetCommitEvery :: int

text \<open>The fields of \<open>tail.Config\<close> and \<open>tail.SeekInfo\<close> the code sets, apart from the logger.\<close>

record TailConfig =
  tc_Follow :: bool
  tc_ReOpen :: bool
  tc_MustExist :: bool
  tc_Offset :: int
  tc_Whence :: int

record 't tail_ops =
  tl_Tell :: "'t \<Rightarrow> gerr + int"
  tl_Stop :: "'t \<Rightarrow> gerr option \<times> 't"

record 't fileInput =
  fi_cfg :: FileConfig
  fi_tail :: 't
  fi_stopped :: bool
  fi_lag :: int
  fi_readCount :: nat
  fi_include :: "(string \<Rightarrow> bool) list"
  fi_exclude :: "(string \<Rightarrow> bool) list"

definition file_config :: "FileConfig \<Rightarrow> string \<Rightarrow> FileConfig" where
  "file_config cfg metaDir =
     (let cfg1 = (if fc_OffsetCommitEvery cfg = 0 then cfg\<lparr>fc_OffsetCommitEvery := 20000\<rparr> else cfg)
      in if fc_MetaPath cfg1 = [] \<and> metaDir \<noteq> [] then cfg1\<lparr>fc_MetaPath := path_join [metaDir, path_base (fc_Path cfg1) @ ''.offset'']\<rparr>
         else cfg1)"

definition seek_info :: "FileConfig \<Rightarrow> int \<Rightarrow> int \<times> int" where
  "seek_info cfg savedOffset =
     (if 0 \<le> savedOffset then (savedOffset, 0) else if fc_ReadFrom cfg = ''oldest'' then (0, 0) else (0, 2))"

definition NewFileInput ::
    "(string \<Rightarrow> (string \<Rightarrow> bool) option) \<Rightarrow> (string \<Rightarrow> TailConfig \<Rightarrow> gerr + 't) \<Rightarrow> FileConfig \<Rightarrow> string \<Rightarrow> metafs \<Rightarrow> fsys
       \<Rightarrow> gerr + 't fileInput" where
  "NewFileInput compile TailFile cfg0 metaDir m fs =
     (let cfg = file_config cfg0 metaDir; savedOffset = loadOffset m (fc_MetaPath cfg); loc = seek_info cfg savedOffset
      in case TailFile (fc_Path cfg)
           \<lparr>tc_Follow = True, tc_ReOpen = True, tc_MustExist = False, tc_Offset = fst loc, tc_Whence = snd loc\<rparr> of
         Inl e \<Rightarrow> Inl e
       | Inr t \<Rightarrow>
           (let fi = \<lparr>fi_cfg = cfg, fi_tail = t, fi_stopped = False, fi_lag = 0, fi_readCount = 0,
                  fi_include = compilePatterns compile (fc_Include cfg), fi_exclude = compilePatterns compile (fc_Exclude cfg)\<rparr>
            in (case os_Stat fs (fc_Path cfg) of
                  None \<Rightarrow> Inr fi
                | Some (i, n) \<Rightarrow>
                    (let len = int (length (fn_data n));
                         startOffset = (if 0 \<le> savedOffset then savedOffset else if fc_ReadFrom cfg = ''newest'' then len else 0)
                     in Inr (fi\<lparr>fi_lag := max (len - startOffset) 0\<rparr>)))))"

text \<open>What a \<open>select\<close> chooses: a line of the channel with its error, the closed channel, the context, or nothing is ready
  (the \<open>default\<close> of the outer \<open>select\<close>; the inner one waits for the next turn).\<close>

datatype lines_turn = TLine string "gerr option" | TClosed | TDone | TNone

definition fi_passesFilter :: "'t fileInput \<Rightarrow> string \<Rightarrow> bool" where
  "fi_passesFilter f filename = passes (fi_include f) (fi_exclude f) filename"

fun file_loop :: "lines_turn list \<Rightarrow> int \<Rightarrow> LogRecord list \<Rightarrow> 't fileInput \<Rightarrow> LogRecord list \<times> 't fileInput" where
  "file_loop [] sz rs f = (rs, f)"
| "file_loop (t # ts) sz rs f =
     (if \<not> int (length rs) < sz then (rs, f)
      else (case t of
         TLine line err \<Rightarrow>
           (if err \<noteq> None then file_loop ts sz rs f
            else if \<not> fi_passesFilter f (path_base (fc_Path (fi_cfg f))) then file_loop ts sz rs f
            else file_loop ts sz (rs @ [line_record line]) (f\<lparr>fi_readCount := fi_readCount f + 1\<rparr>))
       | TClosed \<Rightarrow> (rs, f)
       | TDone \<Rightarrow> (rs, f)
       | TNone \<Rightarrow> (if rs \<noteq> [] then (rs, f) else file_loop ts sz rs f)))"

definition fi_ReadBatch :: "lines_turn list \<Rightarrow> int \<Rightarrow> 't fileInput \<Rightarrow> LogRecord list \<times> 't fileInput" where
  "fi_ReadBatch ts sz f = (if fi_stopped f then ([], f) else file_loop ts sz [] f)"

definition fi_Lag :: "'t fileInput \<Rightarrow> int" where
  "fi_Lag f = fi_lag f"

definition commitOffset :: "'t tail_ops \<Rightarrow> fsys \<Rightarrow> 't fileInput \<Rightarrow> metafs \<Rightarrow> 't fileInput \<times> metafs" where
  "commitOffset ops fs f m =
     (let pos = (case tl_Tell ops (fi_tail f) of Inl e \<Rightarrow> 0 | Inr p \<Rightarrow> p);
          f1 = (case os_Stat fs (fc_Path (fi_cfg f)) of
                  None \<Rightarrow> f
                | Some (i, n) \<Rightarrow> f\<lparr>fi_lag := max (int (length (fn_data n)) - pos) 0\<rparr>)
      in if fc_MetaPath (fi_cfg f1) = [] then (f1, m)
         else (f1, snd (write_rename (fc_MetaPath (fi_cfg f1)) (json_print (offset_json pos)) m)))"

definition fi_Commit :: "'t tail_ops \<Rightarrow> fsys \<Rightarrow> 't fileInput \<Rightarrow> metafs \<Rightarrow> 't fileInput \<times> metafs" where
  "fi_Commit ops fs f m = commitOffset ops fs f m"

definition fi_Close :: "'t tail_ops \<Rightarrow> fsys \<Rightarrow> 't fileInput \<Rightarrow> metafs \<Rightarrow> gerr option \<times> 't fileInput \<times> metafs" where
  "fi_Close ops fs f m =
     (case commitOffset ops fs (f\<lparr>fi_stopped := True\<rparr>) m of
        (f1, m1) \<Rightarrow> (case tl_Stop ops (fi_tail f1) of (e, t) \<Rightarrow> (e, f1\<lparr>fi_tail := t\<rparr>, m1)))"

section \<open>Reading\<close>

text \<open>The lines a call may deliver: those received without an error before the channel or the context ends.\<close>

fun received :: "lines_turn list \<Rightarrow> string list" where
  "received [] = []"
| "received (TLine line None # ts) = line # received ts"
| "received (TLine line (Some e) # ts) = received ts"
| "received (TNone # ts) = received ts"
| "received (TClosed # ts) = []"
| "received (TDone # ts) = []"

abbreviation accepts :: "'t fileInput \<Rightarrow> bool" where
  "accepts f \<equiv> fi_passesFilter f (path_base (fc_Path (fi_cfg f)))"

lemma filter_readCount [simp]: "fi_passesFilter (f\<lparr>fi_readCount := n\<rparr>) name = fi_passesFilter f name"
  by (simp add: fi_passesFilter_def)

lemma file_loop_rejected: "file_loop ts sz rs f = (rs', f') \<Longrightarrow> \<not> accepts f \<Longrightarrow> rs' = rs \<and> f' = f"
  by (induction ts sz rs f rule: file_loop.induct) (auto split: if_splits lines_turn.splits)

lemma file_loop_prefix:
  assumes "file_loop ts sz rs f = (rs', f')" "int (length rs) \<le> max sz 0" "accepts f"
  shows "\<exists>ls more. rs' = rs @ map line_record ls \<and> received ts = ls @ more \<and> int (length rs') \<le> max sz 0
     \<and> f' = f\<lparr>fi_readCount := fi_readCount f + length ls\<rparr>"
  using assms
proof (induction ts arbitrary: rs f)
  case (Cons t ts)
  have stop: ?case if "rs' = rs \<and> f' = f"
    using that Cons.prems(2) by (intro exI[of _ "[]"] exI[of _ "received (t # ts)"]) simp
  show ?case
  proof (cases "int (length rs) < sz")
    case False
    then show ?thesis using Cons.prems stop by simp
  next
    case go: True
    show ?thesis
    proof (cases t)
      case (TLine line err)
      show ?thesis
      proof (cases err)
        case None
        let ?f = "f\<lparr>fi_readCount := fi_readCount f + 1\<rparr>"
        have e: "file_loop ts sz (rs @ [line_record line]) ?f = (rs', f')" using Cons.prems TLine None go by simp
        have b: "int (length (rs @ [line_record line])) \<le> max sz 0" using go by simp
        from Cons.IH[OF e b] Cons.prems(3) obtain ls more where
          "rs' = (rs @ [line_record line]) @ map line_record ls" "received ts = ls @ more" "int (length rs') \<le> max sz 0"
          "f' = ?f\<lparr>fi_readCount := fi_readCount ?f + length ls\<rparr>" by auto
        then show ?thesis using TLine None by (intro exI[of _ "line # ls"] exI[of _ more]) simp
      next
        case (Some e)
        then show ?thesis using Cons TLine go by simp
      qed
    next
      case TNone
      show ?thesis
      proof (cases "rs = []")
        case True
        then have e: "file_loop ts sz rs f = (rs', f')" using Cons.prems(1) TNone go by simp
        from Cons.IH[OF e Cons.prems(2,3)] show ?thesis using TNone by simp
      qed (use Cons.prems stop go TNone in simp)
    qed (use Cons.prems stop go in simp_all)
  qed
qed auto

text \<open>A batch holds at most the size asked for and is a prefix of the lines received without an error, in order and with nothing
  skipped, and the count of lines read grows by its length; an input whose file name the patterns reject, or that is closed,
  returns nothing.\<close>

theorem file_ReadBatch_prefix:
  assumes "fi_ReadBatch ts sz f = (rs, f')"
  shows "\<exists>ls more. rs = map line_record ls \<and> received ts = ls @ more \<and> int (length rs) \<le> max sz 0
     \<and> f' = f\<lparr>fi_readCount := fi_readCount f + length ls\<rparr> \<and> (fi_stopped f \<or> \<not> accepts f \<longrightarrow> ls = [])"
proof (cases "fi_stopped f \<or> \<not> accepts f")
  case True
  then have "rs = []" "f' = f" using assms file_loop_rejected[of ts sz "[]" f] by (auto simp: fi_ReadBatch_def split: if_splits)
  then show ?thesis by (intro exI[of _ "[]"] exI[of _ "received ts"]) simp
next
  case False
  then have "file_loop ts sz [] f = (rs, f')" using assms by (simp add: fi_ReadBatch_def)
  from file_loop_prefix[OF this] False show ?thesis by auto
qed

section \<open>Saving and restarting\<close>

lemma dec_offset_json: "int64_ok n \<Longrightarrow> dec_offset (offset_json n) = Some n"
  by (simp add: offset_json_def field_vals_def field_match_def read_int_show_int)

lemma loadOffset_saved:
  assumes "os_ReadFile m path = Some (json_print (offset_json n))" "path \<noteq> []" "int64_ok n"
  shows "loadOffset m path = n"
proof -
  have "int_nums (offset_json n)" by (auto simp: offset_json_def)
  then show ?thesis using assms by (simp add: loadOffset_def json_parse_print dec_offset_json)
qed

lemma file_config_again:
  assumes "fc_MetaPath (file_config cfg metaDir) \<noteq> []"
  shows "file_config (file_config cfg metaDir) d = file_config cfg metaDir"
  using assms by (auto simp: file_config_def Let_def)

lemma commitOffset_saves:
  assumes "commitOffset ops fs f m = (f', m')" "mf_script m = []" "fc_MetaPath (fi_cfg f) \<noteq> []" "tl_Tell ops (fi_tail f) = Inr p"
  shows "os_ReadFile m' (fc_MetaPath (fi_cfg f)) = Some (json_print (offset_json p))"
    "os_Stat fs (fc_Path (fi_cfg f)) = Some (i, n) \<Longrightarrow> fi_lag f' = max (int (length (fn_data n)) - p) 0"
proof -
  obtain w where w: "write_rename (fc_MetaPath (fi_cfg f)) (json_print (offset_json p)) m = (True, w)"
    using write_rename_ok[OF assms(2)] by blast
  have "m' = w" using assms w by (auto simp: commitOffset_def Let_def split: option.splits if_splits)
  then show "os_ReadFile m' (fc_MetaPath (fi_cfg f)) = Some (json_print (offset_json p))"
    using write_rename_atomic[OF w] by simp
  show "os_Stat fs (fc_Path (fi_cfg f)) = Some (i, n) \<Longrightarrow> fi_lag f' = max (int (length (fn_data n)) - p) 0"
    using assms by (auto simp: commitOffset_def Let_def split: if_splits)
qed

text \<open>After a commit whose system calls succeed, an input made again from the same configuration follows the file from the
  position the library told, whatever \<open>ReadFrom\<close> says, and starts with the lag the commit computed.\<close>

theorem file_restart:
  assumes "fi_Commit ops fs f m = (f', m')" "mf_script m = []" "tl_Tell ops (fi_tail f) = Inr p" "0 \<le> p" "int64_ok p"
    "fi_cfg f = file_config cfg metaDir" "fc_MetaPath (fi_cfg f) \<noteq> []" "os_Stat fs (fc_Path (fi_cfg f)) = Some (i, n)"
    "TailFile (fc_Path (fi_cfg f)) \<lparr>tc_Follow = True, tc_ReOpen = True, tc_MustExist = False, tc_Offset = p, tc_Whence = 0\<rparr> = Inr t"
  shows "\<exists>g. NewFileInput compile TailFile cfg metaDir m' fs = Inr g \<and> fi_tail g = t \<and> fi_lag g = fi_lag f'"
proof -
  have c: "commitOffset ops fs f m = (f', m')" using assms(1) by (simp add: fi_Commit_def)
  note s = commitOffset_saves[OF c assms(2,7,3)]
  have "loadOffset m' (fc_MetaPath (file_config cfg metaDir)) = p"
    using loadOffset_saved[OF s(1) assms(7,5)] assms(6) by simp
  with assms(4,6,8,9) s(2)[OF assms(8)] show ?thesis by (simp add: NewFileInput_def Let_def seek_info_def)
qed

section \<open>Concrete runs\<close>

definition file_demo_fs :: fsys where
  "file_demo_fs = \<lparr>fs_names = [(''/l/a.log'', 7)], fs_nodes = [(7, \<lparr>fn_data = ''one'' @ [NL] @ ''two'' @ [NL], fn_mtime = 1, fn_dir = False,
     fn_deny = False, fn_bad = False\<rparr>)]\<rparr>"

text \<open>The handle of the runs: where the library was told to start; \<open>Tell\<close> reports that place, or fails.\<close>

definition file_demo_tail :: "string \<Rightarrow> TailConfig \<Rightarrow> gerr + int" where
  "file_demo_tail path c = Inr (if tc_Whence c = 2 then 8 + tc_Offset c else tc_Offset c)"

definition file_demo_ops :: "bool \<Rightarrow> int tail_ops" where
  "file_demo_ops ok = \<lparr>tl_Tell = (\<lambda>t. if ok then Inr t else Inl ''closed''), tl_Stop = (\<lambda>t. (None, t))\<rparr>"

definition file_demo_cfg :: "string \<Rightarrow> FileConfig" where
  "file_demo_cfg readFrom = \<lparr>fc_Path = ''/l/a.log'', fc_MetaPath = [], fc_ReadFrom = readFrom, fc_Include = [], fc_Exclude = [], fc_OffsetCommitEvery = 0\<rparr>"

definition file_demo_input :: "string \<Rightarrow> metafs \<Rightarrow> gerr + int fileInput" where
  "file_demo_input readFrom m = NewFileInput (\<lambda>s. Some (\<lambda>n. True)) file_demo_tail (file_demo_cfg readFrom) ''/m'' m file_demo_fs"

definition file_demo_open :: "int fileInput" where
  "file_demo_open = \<lparr>fi_cfg = file_config (file_demo_cfg ''oldest'') ''/m'', fi_tail = 4, fi_stopped = False, fi_lag = 8, fi_readCount = 1,
     fi_include = [], fi_exclude = []\<rparr>"

definition file_demo_store :: metafs where
  "file_demo_store = \<lparr>mf_files = [], mf_script = []\<rparr>"

theorem file_ReadBatch_prefix_witness:
  "\<exists>ls more. fst (fi_ReadBatch [TNone, TLine ''one'' None, TLine ''x'' (Some ''e''), TLine ''two'' None, TNone] 5 file_demo_open) = map line_record ls
     \<and> received [TNone, TLine ''one'' None, TLine ''x'' (Some ''e''), TLine ''two'' None, TNone] = ls @ more
     \<and> int (length (fst (fi_ReadBatch [TNone, TLine ''one'' None, TLine ''x'' (Some ''e''), TLine ''two'' None, TNone] 5 file_demo_open))) \<le> max 5 0"
  using file_ReadBatch_prefix[OF prod.collapse[symmetric, of "fi_ReadBatch [TNone, TLine ''one'' None, TLine ''x'' (Some ''e''), TLine ''two'' None, TNone] 5 file_demo_open"]]
  by blast

theorem file_restart_witness:
  "\<exists>g. file_demo_input ''oldest'' (snd (fi_Commit (file_demo_ops True) file_demo_fs file_demo_open file_demo_store)) = Inr g \<and> fi_tail g = 4
     \<and> fi_lag g = fi_lag (fst (fi_Commit (file_demo_ops True) file_demo_fs file_demo_open file_demo_store))"
  unfolding file_demo_input_def
  by (rule file_restart[OF prod.collapse[symmetric], where p = 4 and i = 7 and n = "\<lparr>fn_data = ''one'' @ [NL] @ ''two'' @ [NL], fn_mtime = 1,
       fn_dir = False, fn_deny = False, fn_bad = False\<rparr>"]; code_simp)

text \<open>With no saved offset and \<open>ReadFrom\<close> left empty, the documented default \<open>newest\<close>, the library starts at the end of the file, yet the
  lag is the whole size of the file, unlike with \<open>newest\<close> written out; and when \<open>Tell\<close> fails, a commit saves 0, so the next start
  reads the file from its beginning.\<close>

theorem file_input_defaults:
  "(case file_demo_input [] file_demo_store of Inr f \<Rightarrow> (fi_tail f, fi_lag f) | Inl e \<Rightarrow> (0, 0)) = (8, 8)
   \<and> (case file_demo_input ''newest'' file_demo_store of Inr f \<Rightarrow> (fi_tail f, fi_lag f) | Inl e \<Rightarrow> (0, 0)) = (8, 0)
   \<and> (case file_demo_input ''newest'' (snd (fi_Commit (file_demo_ops False) file_demo_fs file_demo_open file_demo_store)) of Inr f \<Rightarrow> (fi_tail f, fi_lag f) | Inl e \<Rightarrow> (9, 9)) = (0, 8)"
  by code_simp

end
