(* ===== verification/Injector.thy ===== *)
theory Injector
  imports ApiTypes
begin

text \<open>
  \<open>internal/log-pilot-api\<close>: the mutating webhook. A Pod holds the parts the injector reads or writes;
  \<open>LabelSelectorAsSelector\<close> with \<open>Matches\<close> is the argument \<open>selects\<close> (\<open>None\<close> when the selector does not
  convert). Of the webhook around it, decoding the request and listing the policies are arguments of
  \<open>mutatePod\<close>.
\<close>

datatype env_source = EnvValue string | FieldRef string string

record EnvVar =
  en_Name :: string
  en_Source :: env_source

record VolumeMount =
  vm_Name :: string
  vm_MountPath :: string
  vm_SubPathExpr :: string

datatype volume_source = HostPath string | EmptyDir | OtherSource string

record Volume =
  vo_Name :: string
  vo_Source :: volume_source

record Container =
  ct_Name :: string
  ct_Env :: "EnvVar list"
  ct_VolumeMounts :: "VolumeMount list"

record Pod =
  po_Meta :: ObjectMeta
  po_Containers :: "Container list"
  po_Volumes :: "Volume list"

definition logVolumeName :: string where
  "logVolumeName = ''log-pilot-logs''"

definition logHostPath :: string where
  "logHostPath = ''/var/log/log-pilot''"

definition podLogPolicyAnnotation :: string where
  "podLogPolicyAnnotation = ''beta.logpilot.io/log-policy''"

definition matchesPolicy :: "('sel \<Rightarrow> (string, string) gomap \<Rightarrow> bool option) \<Rightarrow> Pod \<Rightarrow> 'sel LogPilotPolicy \<Rightarrow> bool" where
  "matchesPolicy selects pod policy =
     (case ps_Selector (pp_Spec policy) of
        None \<Rightarrow> False
      | Some sel \<Rightarrow> (case selects sel (om_Labels (po_Meta pod)) of None \<Rightarrow> False | Some b \<Rightarrow> b))"

section \<open>Containers\<close>

definition downwardAPIEnvVars :: "EnvVar list" where
  "downwardAPIEnvVars =
     [\<lparr>en_Name = ''POD_NAME'', en_Source = FieldRef ''v1'' ''metadata.name''\<rparr>,
      \<lparr>en_Name = ''NAMESPACE'', en_Source = FieldRef ''v1'' ''metadata.namespace''\<rparr>,
      \<lparr>en_Name = ''POD_UID'', en_Source = FieldRef ''v1'' ''metadata.uid''\<rparr>]"

definition injectEnvVars :: "Container \<Rightarrow> Container" where
  "injectEnvVars c =
     (let existing = map en_Name (ct_Env c)
      in fold (\<lambda>e c'. if en_Name e \<in> set existing then c' else c'\<lparr>ct_Env := ct_Env c' @ [e]\<rparr>) downwardAPIEnvVars c)"

definition volumeSubPathExpr :: "ContainerPolicy \<Rightarrow> string" where
  "volumeSubPathExpr cp =
     (if cp_Delivery cp = ''bestEffort'' then cp_Name cp @ ''/'' @ cp_LogType cp
      else ''LogPilotPolicy/$(NAMESPACE)/$(POD_NAME)/$(POD_UID)/'' @ cp_Name cp @ ''/'' @ cp_LogType cp)"

fun inject_mounts :: "string list \<Rightarrow> ContainerPolicy list \<Rightarrow> Container \<Rightarrow> Container" where
  "inject_mounts existing [] c = c"
| "inject_mounts existing (cp # cps) c =
     (if cp_Path cp = ''-'' \<or> cp_Path cp \<in> set existing then inject_mounts existing cps c
      else inject_mounts (cp_Path cp # existing) cps
        (c\<lparr>ct_VolumeMounts := ct_VolumeMounts c
           @ [\<lparr>vm_Name = logVolumeName, vm_MountPath = cp_Path cp, vm_SubPathExpr = volumeSubPathExpr cp\<rparr>]\<rparr>))"

definition injectVolumeMounts :: "ContainerPolicy list \<Rightarrow> Container \<Rightarrow> Container" where
  "injectVolumeMounts cps c = inject_mounts (map vm_MountPath (ct_VolumeMounts c)) cps c"

definition ensureLogVolume :: "ContainerPolicy list \<Rightarrow> Pod \<Rightarrow> Pod" where
  "ensureLogVolume cps pod =
     (if list_ex (\<lambda>v. vo_Name v = logVolumeName) (po_Volumes pod) then pod
      else if list_ex (\<lambda>cp. cp_Delivery cp \<noteq> ''bestEffort'') cps then
        pod\<lparr>po_Volumes := po_Volumes pod @ [\<lparr>vo_Name = logVolumeName, vo_Source = HostPath logHostPath\<rparr>]\<rparr>
      else pod\<lparr>po_Volumes := po_Volumes pod @ [\<lparr>vo_Name = logVolumeName, vo_Source = EmptyDir\<rparr>]\<rparr>)"

definition inject_container :: "ContainerPolicy list \<Rightarrow> Container \<Rightarrow> Container" where
  "inject_container cps c =
     (let matched = filter (\<lambda>cp. cp_Name cp = ct_Name c) cps
      in if matched = [] then c else injectVolumeMounts matched (injectEnvVars c))"

definition container_policies ::
    "('sel \<Rightarrow> (string, string) gomap \<Rightarrow> bool option) \<Rightarrow> Pod \<Rightarrow> 'sel LogPilotPolicy list \<Rightarrow> ContainerPolicy list" where
  "container_policies selects pod policies =
     concat (map (\<lambda>p. if matchesPolicy selects pod p then ps_Containers (pp_Spec p) else []) policies)"

definition injectPod ::
    "('sel \<Rightarrow> (string, string) gomap \<Rightarrow> bool option) \<Rightarrow> Pod \<Rightarrow> 'sel LogPilotPolicy list \<Rightarrow> gerr + Pod" where
  "injectPod selects pod policies =
     (let cps = container_policies selects pod policies in
      if cps = [] then Inr pod
      else
        (let pod1 = pod\<lparr>po_Containers := map (inject_container cps) (po_Containers pod)\<rparr>;
             pod2 = ensureLogVolume cps pod1
         in (case marshal_policies cps of
               None \<Rightarrow> Inl ''marshal container policies''
             | Some raw \<Rightarrow>
                 (let anns = (case om_Annotations (po_Meta pod2) of None \<Rightarrow> [] | Some m \<Rightarrow> m)
                  in Inr (pod2\<lparr>po_Meta := (po_Meta pod2)\<lparr>om_Annotations := Some (gm_put podLogPolicyAnnotation raw anns)\<rparr>\<rparr>)))))"

datatype admission = Errored gerr | PatchResponse Pod Pod

definition mutatePod ::
    "(string \<Rightarrow> gerr + Pod) \<Rightarrow> (string \<Rightarrow> gerr + 'sel LogPilotPolicy list)
       \<Rightarrow> ('sel \<Rightarrow> (string, string) gomap \<Rightarrow> bool option) \<Rightarrow> string \<Rightarrow> string \<Rightarrow> admission" where
  "mutatePod decode_pod list_policies selects raw namespace =
     (case decode_pod raw of
        Inl e \<Rightarrow> Errored e
      | Inr pod \<Rightarrow>
          (case list_policies namespace of
             Inl e \<Rightarrow> Errored e
           | Inr policies \<Rightarrow>
               (case injectPod selects pod policies of Inl e \<Rightarrow> Errored e | Inr pod' \<Rightarrow> PatchResponse pod pod')))"

text \<open>The agent's side, \<open>parsePoliciesFromPod\<close> in \<open>watcher.go\<close>: \<open>None\<close> is the decoding error.\<close>

definition parsePoliciesFromPod :: "Pod \<Rightarrow> ContainerPolicy list option" where
  "parsePoliciesFromPod pod =
     (let ann = gm_str (case om_Annotations (po_Meta pod) of None \<Rightarrow> [] | Some m \<Rightarrow> m) podLogPolicyAnnotation
      in if ann = [] then Some [] else unmarshal_policies ann)"

section \<open>Facts\<close>

lemma injectEnvVars_env:
  "ct_Env (injectEnvVars c) =
     ct_Env c @ filter (\<lambda>e. en_Name e \<notin> en_Name ` set (ct_Env c)) downwardAPIEnvVars"
  by (simp add: injectEnvVars_def downwardAPIEnvVars_def Let_def)

lemma injectEnvVars_frame [frame_simps]:
  "ct_Name (injectEnvVars c) = ct_Name c" "ct_VolumeMounts (injectEnvVars c) = ct_VolumeMounts c"
  by (simp_all add: injectEnvVars_def downwardAPIEnvVars_def Let_def)

lemma injectEnvVars_idem: "injectEnvVars (injectEnvVars c) = injectEnvVars c"
proof (rule Container.equality)
  have "en_Name e \<in> en_Name ` set (ct_Env (injectEnvVars c))" if "e \<in> set downwardAPIEnvVars" for e
    using that unfolding injectEnvVars_env by auto
  then show "ct_Env (injectEnvVars (injectEnvVars c)) = ct_Env (injectEnvVars c)"
    by (subst injectEnvVars_env) simp
qed (simp_all add: frame_simps)

lemma inject_mounts_frame [frame_simps]:
  "ct_Name (inject_mounts ex cps c) = ct_Name c" "ct_Env (inject_mounts ex cps c) = ct_Env c"
  by (induction ex cps c rule: inject_mounts.induct) simp_all

lemma inject_mounts_covers:
  "set ex = vm_MountPath ` set (ct_VolumeMounts c) \<Longrightarrow> cp \<in> set cps \<Longrightarrow> cp_Path cp \<noteq> ''-'' \<Longrightarrow>
     cp_Path cp \<in> vm_MountPath ` set (ct_VolumeMounts (inject_mounts ex cps c))"
proof (induction ex cps c rule: inject_mounts.induct)
  case (2 ex p cps c)
  have keeps: "vm_MountPath ` set (ct_VolumeMounts c) \<subseteq> vm_MountPath ` set (ct_VolumeMounts (inject_mounts ex' cps' c))" for ex' cps' c
    by (induction ex' cps' c rule: inject_mounts.induct) auto
  show ?case
  proof (cases "cp_Path p = ''-'' \<or> cp_Path p \<in> set ex")
    case True
    with "2.prems" "2.IH"(1)[OF True] keeps[of c ex cps] show ?thesis by (cases "cp = p") auto
  next
    case False
    let ?c = "c\<lparr>ct_VolumeMounts := ct_VolumeMounts c @ [\<lparr>vm_Name = logVolumeName, vm_MountPath = cp_Path p, vm_SubPathExpr = volumeSubPathExpr p\<rparr>]\<rparr>"
    have "cp_Path p \<in> vm_MountPath ` set (ct_VolumeMounts ?c)" by simp
    with False "2.prems" "2.IH"(2)[OF False] keeps[of ?c "cp_Path p # ex" cps] show ?thesis by (cases "cp = p") auto
  qed
qed simp

lemma inject_mounts_none:
  "\<forall>cp\<in>set cps. cp_Path cp = ''-'' \<or> cp_Path cp \<in> set ex \<Longrightarrow> inject_mounts ex cps c = c"
  by (induction cps) auto

lemma injectVolumeMounts_idem: "injectVolumeMounts cps (injectVolumeMounts cps c) = injectVolumeMounts cps c"
  unfolding injectVolumeMounts_def
  by (rule inject_mounts_none) (metis inject_mounts_covers set_map)

lemma inject_env_mounts: "injectEnvVars (inject_mounts ex cps (injectEnvVars c)) = inject_mounts ex cps (injectEnvVars c)"
proof (rule Container.equality)
  show "ct_Env (injectEnvVars (inject_mounts ex cps (injectEnvVars c))) = ct_Env (inject_mounts ex cps (injectEnvVars c))"
    using arg_cong[OF injectEnvVars_idem, of ct_Env c] by (simp add: injectEnvVars_env frame_simps)
qed (simp_all add: frame_simps)

lemma inject_container_idem: "inject_container cps (inject_container cps c) = inject_container cps c"
proof (cases "filter (\<lambda>cp. cp_Name cp = ct_Name c) cps = []")
  case True
  then show ?thesis by (simp add: inject_container_def)
next
  case False
  let ?m = "filter (\<lambda>cp. cp_Name cp = ct_Name c) cps"
  have n: "ct_Name (injectVolumeMounts ?m (injectEnvVars c)) = ct_Name c"
    by (simp add: injectVolumeMounts_def frame_simps)
  have "injectEnvVars (injectVolumeMounts ?m (injectEnvVars c)) = injectVolumeMounts ?m (injectEnvVars c)"
    unfolding injectVolumeMounts_def by (rule inject_env_mounts)
  then show ?thesis
    using False n injectVolumeMounts_idem[of ?m "injectEnvVars c"] unfolding inject_container_def Let_def by simp
qed

lemma ensureLogVolume_idem:
  "list_ex (\<lambda>v. vo_Name v = logVolumeName) (po_Volumes (ensureLogVolume cps pod))"
  by (simp add: ensureLogVolume_def)

lemma ensureLogVolume_frame [frame_simps]:
  "po_Meta (ensureLogVolume cps pod) = po_Meta pod" "po_Containers (ensureLogVolume cps pod) = po_Containers pod"
  by (simp_all add: ensureLogVolume_def)

lemma injectPod_Inr:
  assumes "injectPod selects pod policies = Inr pod'" "container_policies selects pod policies \<noteq> []"
  obtains raw where "marshal_policies (container_policies selects pod policies) = Some raw"
    "po_Containers pod' = map (inject_container (container_policies selects pod policies)) (po_Containers pod)"
    "om_Labels (po_Meta pod') = om_Labels (po_Meta pod)"
    "gm_get (the (om_Annotations (po_Meta pod'))) podLogPolicyAnnotation = Some raw" "om_Annotations (po_Meta pod') \<noteq> None"
    "list_ex (\<lambda>v. vo_Name v = logVolumeName) (po_Volumes pod')"
  using assms ensureLogVolume_idem[of "container_policies selects pod policies"
      "pod\<lparr>po_Containers := map (inject_container (container_policies selects pod policies)) (po_Containers pod)\<rparr>"]
  by (auto simp: injectPod_def Let_def frame_simps gomap_simps split: option.splits)

section \<open>A small Pod\<close>

definition demo_policy_of :: "string \<Rightarrow> string \<Rightarrow> string \<Rightarrow> string \<Rightarrow> ContainerPolicy" where
  "demo_policy_of name logType path delivery =
     \<lparr>cp_Name = name, cp_LogType = logType, cp_Path = path, cp_Collector = [], cp_Delivery = delivery,
      cp_BatchLen = 0, cp_BatchSize = 0, cp_BatchInterval = 0, cp_Input = zero_InputSpec, cp_Transforms = [],
      cp_Output = zero_OutputSpec\<lparr>out_Type := ''file'', out_Config := [(''path'', Some (JStr ''/o''))]\<rparr>, cp_Clean = zero_CleanSpec\<rparr>"

definition demo_meta_of :: "string \<Rightarrow> ObjectMeta" where
  "demo_meta_of name = \<lparr>om_Name = name, om_Namespace = ''ns'', om_UID = ''u1'', om_Labels = [(''app'', ''web'')],
     om_Annotations = None, om_Generation = 1, om_Finalizers = [], om_DeletionTimestamp = None, om_ResourceVersion = ''1''\<rparr>"

definition demo_lpp :: "nat \<Rightarrow> ContainerPolicy list \<Rightarrow> nat LogPilotPolicy" where
  "demo_lpp sel cps =
     \<lparr>pp_Meta = demo_meta_of ''policy'',
      pp_Spec = \<lparr>ps_Selector = Some sel, ps_Containers = cps, ps_Input = None, ps_Transforms = [], ps_Output = None\<rparr>,
      pp_Conditions = []\<rparr>"

definition demo_selects :: "nat \<Rightarrow> (string, string) gomap \<Rightarrow> bool option" where
  "demo_selects sel l = Some (sel = length l)"

definition demo_pod :: Pod where
  "demo_pod =
     \<lparr>po_Meta = demo_meta_of ''pod'',
      po_Containers = [\<lparr>ct_Name = ''app'', ct_Env = [\<lparr>en_Name = ''POD_UID'', en_Source = EnvValue ''x''\<rparr>], ct_VolumeMounts = []\<rparr>],
      po_Volumes = []\<rparr>"

definition demo_policies :: "nat LogPilotPolicy list" where
  "demo_policies = [demo_lpp 0 [demo_policy_of ''app'' ''other'' ''/o'' []],
     demo_lpp 1 [demo_policy_of ''app'' ''access'' ''/logs'' [], demo_policy_of ''app'' ''std'' ''-'' []]]"

definition demo_injected :: Pod where
  "demo_injected = (case injectPod demo_selects demo_pod demo_policies of Inl e \<Rightarrow> demo_pod | Inr p \<Rightarrow> p)"

lemma demo_inject: "injectPod demo_selects demo_pod demo_policies = Inr demo_injected"
proof -
  have "\<not> isl (injectPod demo_selects demo_pod demo_policies)" by code_simp
  then show ?thesis by (auto simp: demo_injected_def split: sum.splits)
qed

section \<open>Properties\<close>

text \<open>A Pod no policy selects, or whose policies name no container, is left unchanged.\<close>

theorem injectPod_unmatched:
  assumes "list_all (\<lambda>p. \<not> matchesPolicy selects pod p \<or> ps_Containers (pp_Spec p) = []) policies"
  shows "injectPod selects pod policies = Inr pod"
proof -
  have "container_policies selects pod policies = []"
    using assms by (induction policies) (auto simp: container_policies_def)
  then show ?thesis by (simp add: injectPod_def)
qed

theorem injectPod_unmatched_witness:
  "injectPod demo_selects demo_pod [demo_lpp 0 [demo_policy_of ''app'' ''other'' ''/o'' []], demo_lpp 1 []] = Inr demo_pod"
  by (rule injectPod_unmatched) code_simp

lemma injected_parsed:
  assumes "injectPod selects pod policies = Inr pod'" "container_policies selects pod policies \<noteq> []"
    and "list_all policy_ok (container_policies selects pod policies)"
  shows "parsePoliciesFromPod pod' = Some (container_policies selects pod policies)"
proof -
  let ?cps = "container_policies selects pod policies"
  obtain raw anns where raw: "marshal_policies ?cps = Some raw" "om_Annotations (po_Meta pod') = Some anns"
    "gm_get anns podLogPolicyAnnotation = Some raw"
    using injectPod_Inr[OF assms(1,2)] by (metis option.collapse option.sel)
  obtain s where "marshal_policies ?cps = Some s" "unmarshal_policies s = Some ?cps"
    using unmarshal_marshal_policies[of ?cps] assms(3) by (auto simp: list_all_iff)
  with raw(1) have um: "unmarshal_policies raw = Some ?cps" by simp
  moreover have "raw \<noteq> []"
  proof
    assume "raw = []"
    moreover have "unmarshal_policies [] = None" by code_simp
    ultimately show False using um by simp
  qed
  ultimately show ?thesis using raw(2,3) by (simp add: parsePoliciesFromPod_def gm_str_def)
qed

text \<open>C19: from webhook to agent. A Pod that came out of the injection carries, for the agent that parses its
  annotation, exactly the container policies of the policies that select it, in their order.\<close>

theorem injected_policies_parsed:
  assumes "injectPod selects pod policies = Inr pod'" "container_policies selects pod policies \<noteq> []"
    and "list_all policy_ok (container_policies selects pod policies)"
  shows "parsePoliciesFromPod pod' = Some (container_policies selects pod policies)"
  using assms by (rule injected_parsed)

theorem injected_policies_parsed_witness:
  "parsePoliciesFromPod demo_injected = Some [demo_policy_of ''app'' ''access'' ''/logs'' [], demo_policy_of ''app'' ''std'' ''-'' []]"
proof -
  have cps: "container_policies demo_selects demo_pod demo_policies =
      [demo_policy_of ''app'' ''access'' ''/logs'' [], demo_policy_of ''app'' ''std'' ''-'' []]" by code_simp
  have "policy_ok (demo_policy_of ''app'' a b c)" for a b c
    by (simp add: demo_policy_of_def policy_ok_def input_ok_def output_ok_def clean_ok_def
      config_ok_def int64_ok_def zero_InputSpec_def zero_OutputSpec_def zero_CleanSpec_def)
  then have "list_all policy_ok (container_policies demo_selects demo_pod demo_policies)" by (simp add: cps)
  with injected_policies_parsed[OF demo_inject] show ?thesis by (simp add: cps)
qed

text \<open>C28: injection is idempotent, as a webhook that may be called again must be: injecting the result a
  second time changes nothing.\<close>

theorem injectPod_idempotent:
  assumes "injectPod selects pod policies = Inr pod'"
  shows "injectPod selects pod' policies = Inr pod'"
proof (cases "container_policies selects pod policies = []")
  case True
  with assms show ?thesis by (auto simp: injectPod_def)
next
  case False
  let ?cps = "container_policies selects pod policies"
  show ?thesis
  proof (rule injectPod_Inr[OF assms False])
    fix raw
    assume h: "marshal_policies ?cps = Some raw"
      "po_Containers pod' = map (inject_container ?cps) (po_Containers pod)" "om_Labels (po_Meta pod') = om_Labels (po_Meta pod)"
      "gm_get (the (om_Annotations (po_Meta pod'))) podLogPolicyAnnotation = Some raw" "om_Annotations (po_Meta pod') \<noteq> None"
      "list_ex (\<lambda>v. vo_Name v = logVolumeName) (po_Volumes pod')"
    have "matchesPolicy selects pod' = matchesPolicy selects pod" by (rule ext) (simp only: matchesPolicy_def h(3))
    then have cps: "container_policies selects pod' policies = ?cps" by (simp only: container_policies_def)
    have ct: "map (inject_container ?cps) (po_Containers pod') = po_Containers pod'"
      unfolding h(2) by (simp add: inject_container_idem)
    obtain anns where anns: "om_Annotations (po_Meta pod') = Some anns" using h(5) by blast
    have "gm_put podLogPolicyAnnotation raw anns = anns"
      using h(4) by (simp add: anns gm_put_def gm_get_def) (metis update_triv)
    with anns ct h(1,6) False show ?thesis
      unfolding injectPod_def cps Let_def by (simp add: ensureLogVolume_def)
  qed
qed

theorem injectPod_idempotent_witness:
  "injectPod demo_selects demo_injected demo_policies = Inr demo_injected \<and> demo_injected \<noteq> demo_pod"
proof -
  have "demo_injected \<noteq> demo_pod" by code_simp
  with injectPod_idempotent[OF demo_inject] show ?thesis by simp
qed

text \<open>What is added to a matched container. Its own environment is kept and the three variables the sub
  path needs are there; every path of its policies other than - is mounted, paths it had keep their
  mount, and a container no policy names is unchanged.\<close>

theorem inject_container_adds:
  shows "ct_Name (inject_container cps c) = ct_Name c
    \<and> take (length (ct_Env c)) (ct_Env (inject_container cps c)) = ct_Env c
    \<and> (if list_ex (\<lambda>cp. cp_Name cp = ct_Name c) cps
       then en_Name ` set (ct_Env (inject_container cps c)) = en_Name ` set (ct_Env c) \<union> {''POD_NAME'', ''NAMESPACE'', ''POD_UID''}
         \<and> vm_MountPath ` set (ct_VolumeMounts (inject_container cps c))
           = vm_MountPath ` set (ct_VolumeMounts c) \<union> (cp_Path ` set (filter (\<lambda>cp. cp_Name cp = ct_Name c) cps) - {''-''})
       else inject_container cps c = c)"
proof -
  have mounts: "vm_MountPath ` set (ct_VolumeMounts (inject_mounts ex m d)) =
      vm_MountPath ` set (ct_VolumeMounts d) \<union> (cp_Path ` set m - {''-''})"
    if "set ex = vm_MountPath ` set (ct_VolumeMounts d)" for ex m d
    using that by (induction ex m d rule: inject_mounts.induct) auto
  let ?m = "filter (\<lambda>cp. cp_Name cp = ct_Name c) cps"
  show ?thesis
  proof (cases "?m = []")
    case True
    then have "\<not> list_ex (\<lambda>cp. cp_Name cp = ct_Name c) cps" by (simp add: list_ex_iff filter_empty_conv)
    with True show ?thesis by (simp add: inject_container_def)
  next
    case False
    then have ex: "list_ex (\<lambda>cp. cp_Name cp = ct_Name c) cps" by (simp add: list_ex_iff filter_empty_conv)
    have ic: "inject_container cps c = injectVolumeMounts ?m (injectEnvVars c)" using False by (simp add: inject_container_def)
    have un: "N \<union> en_Name ` set (filter (\<lambda>e. en_Name e \<notin> N) xs) = N \<union> en_Name ` set xs" for N xs by auto
    have "en_Name ` set downwardAPIEnvVars = {''POD_NAME'', ''NAMESPACE'', ''POD_UID''}"
      by (simp add: downwardAPIEnvVars_def)
    then have "en_Name ` set (ct_Env (injectEnvVars c)) = en_Name ` set (ct_Env c) \<union> {''POD_NAME'', ''NAMESPACE'', ''POD_UID''}"
      unfolding injectEnvVars_env set_append image_Un un by simp
    moreover have e: "ct_Env (inject_container cps c) = ct_Env (injectEnvVars c)"
      by (simp add: ic injectVolumeMounts_def frame_simps)
    moreover have "take (length (ct_Env c)) (ct_Env (inject_container cps c)) = ct_Env c"
      unfolding e injectEnvVars_env by simp
    moreover have "ct_Name (inject_container cps c) = ct_Name c" by (simp add: ic injectVolumeMounts_def frame_simps)
    moreover have "vm_MountPath ` set (ct_VolumeMounts (inject_container cps c))
        = vm_MountPath ` set (ct_VolumeMounts c) \<union> (cp_Path ` set ?m - {''-''})"
      unfolding ic injectVolumeMounts_def by (subst mounts) (simp_all add: frame_simps)
    ultimately show ?thesis using ex by (simp only: if_True simp_thms)
  qed
qed

end
