(* ===== verification/PolicyValidation.thy ===== *)
theory PolicyValidation
  imports Outputs
begin

text \<open>
  \<open>internal/log-pilot-operator/policy_validation.go\<close> and the two policy reconcilers. A validation
  error is its message. The Kubernetes client is a pair of functions over a world, \<open>get\<close> and
  \<open>update\<close> (of the status), and \<open>meta.SetStatusCondition\<close> is the argument \<open>set_cond\<close>.
\<close>

section \<open>Messages\<close>

text \<open>\<open>%q\<close>: a Go string literal. Bytes from 128 on are taken to be printable runes.\<close>

definition quote_char :: "char \<Rightarrow> string" where
  "quote_char c =
     (let n = of_char c :: nat in
      if c = CHR 0x22 \<or> c = CHR 0x5C then [CHR 0x5C, c]
      else if n = 7 then [CHR 0x5C, CHR ''a'']
      else if n = 8 then [CHR 0x5C, CHR ''b'']
      else if n = 12 then [CHR 0x5C, CHR ''f'']
      else if n = 10 then [CHR 0x5C, CHR ''n'']
      else if n = 13 then [CHR 0x5C, CHR ''r'']
      else if n = 9 then [CHR 0x5C, CHR ''t'']
      else if n = 11 then [CHR 0x5C, CHR ''v'']
      else if n < 32 \<or> n = 127 then [CHR 0x5C, CHR ''x'', hex_digit (n div 16), hex_digit (n mod 16)]
      else [c])"

definition go_quote :: "string \<Rightarrow> string" where
  "go_quote s = [CHR 0x22] @ concat (map quote_char s) @ [CHR 0x22]"

section \<open>Validation\<close>

definition inputTypeK8sEvent :: string where
  "inputTypeK8sEvent = ''k8sEvent''"

definition inputTypeK8sObjectState :: string where
  "inputTypeK8sObjectState = ''k8sObjectState''"

definition validateInput :: "InputSpec \<Rightarrow> gerr option" where
  "validateInput i =
     (if in_Type i \<in> {''file'', ''dir'', inputTypeK8sEvent, inputTypeK8sObjectState} then None
      else Some (''unknown input type '' @ go_quote (in_Type i)))"

definition has_key :: "config \<Rightarrow> string \<Rightarrow> bool" where
  "has_key c k = (gm_get c k \<noteq> None)"

definition validateOutput :: "OutputSpec \<Rightarrow> gerr option" where
  "validateOutput out =
     (if out_Type out = ''http'' then
        (if has_key (out_Config out) ''url'' then None else Some ''http output requires config.url'')
      else if out_Type out = ''file'' then
        (if has_key (out_Config out) ''path'' then None else Some ''file output requires config.path'')
      else Some (''unknown output type '' @ go_quote (out_Type out)))"

definition missing_keys :: "config \<Rightarrow> string list" where
  "missing_keys c =
     (if has_key c ''key'' then [] else [''key'']) @ (if has_key c ''value'' then [] else [''value''])"

fun validate_transforms_from :: "nat \<Rightarrow> TransformSpec list \<Rightarrow> gerr option" where
  "validate_transforms_from i [] = None"
| "validate_transforms_from i (t # ts) =
     (if tr_Type t = ''json'' then validate_transforms_from (Suc i) ts
      else if tr_Type t = ''label'' then
        (if has_key (tr_Config t) ''fields'' then validate_transforms_from (Suc i) ts
         else Some (''transforms['' @ show_nat i @ ''] label requires config.fields''))
      else if tr_Type t = ''drop'' then
        (if missing_keys (tr_Config t) = [] then validate_transforms_from (Suc i) ts
         else Some (''transforms['' @ show_nat i @ ''] drop requires config.''
           @ str_join '' and config.'' (missing_keys (tr_Config t))))
      else Some (''unknown transform type '' @ go_quote (tr_Type t)))"

definition validateTransforms :: "TransformSpec list \<Rightarrow> gerr option" where
  "validateTransforms ts = validate_transforms_from 0 ts"

fun validate_containers_from :: "nat \<Rightarrow> ContainerPolicy list \<Rightarrow> gerr option" where
  "validate_containers_from i [] = None"
| "validate_containers_from i (cp # cps) =
     (if out_Type (cp_Output cp) = [] then Some (''containers['' @ show_nat i @ ''].output.type is required'')
      else (case validateOutput (cp_Output cp) of
         Some e \<Rightarrow> Some (''containers['' @ show_nat i @ '']: '' @ e)
       | None \<Rightarrow>
           (case validateTransforms (cp_Transforms cp) of
              Some e \<Rightarrow> Some (''containers['' @ show_nat i @ '']: '' @ e)
            | None \<Rightarrow> validate_containers_from (Suc i) cps)))"

definition validate_standalone :: "InputSpec \<Rightarrow> OutputSpec \<Rightarrow> gerr option" where
  "validate_standalone i out =
     (if in_Type i = inputTypeK8sEvent \<or> in_Type i = inputTypeK8sObjectState
      then Some ''Kubernetes cluster inputs must use ClusterLogPilotPolicy''
      else (case validateInput i of Some e \<Rightarrow> Some e | None \<Rightarrow> validateOutput out))"

definition verdict :: "gerr option \<Rightarrow> bool \<times> string" where
  "verdict e = (case e of None \<Rightarrow> (True, ''policy accepted'') | Some m \<Rightarrow> (False, m))"

definition validateLogPilotPolicy :: "'sel LogPilotPolicy \<Rightarrow> bool \<times> string" where
  "validateLogPilotPolicy policy =
     (let spec = pp_Spec policy;
          hasContainers = (ps_Selector spec \<noteq> None \<and> ps_Containers spec \<noteq> []);
          hasStandalone = (ps_Input spec \<noteq> None \<and> ps_Output spec \<noteq> None)
      in if \<not> hasContainers \<and> \<not> hasStandalone then
           (False, ''spec must define selector+containers or input+output'')
         else verdict
           (case (case (ps_Input spec, ps_Output spec) of
                    (Some i, Some out) \<Rightarrow> validate_standalone i out
                  | _ \<Rightarrow> None) of
              Some e \<Rightarrow> Some e
            | None \<Rightarrow>
                (case validate_containers_from 0 (ps_Containers spec) of
                   Some e \<Rightarrow> Some e
                 | None \<Rightarrow> validateTransforms (ps_Transforms spec))))"

definition validateClusterLogPilotPolicy :: "ClusterLogPilotPolicy \<Rightarrow> bool \<times> string" where
  "validateClusterLogPilotPolicy policy =
     (let spec = cc_Spec policy in
      if in_Type (cs_Input spec) \<noteq> inputTypeK8sEvent \<and> in_Type (cs_Input spec) \<noteq> inputTypeK8sObjectState then
        (False, ''ClusterLogPilotPolicy currently supports k8sEvent and k8sObjectState inputs'')
      else verdict
        (case validateOutput (cs_Output spec) of
           Some e \<Rightarrow> Some e
         | None \<Rightarrow> validateTransforms (cs_Transforms spec)))"

section \<open>Conditions and reconcilers\<close>

definition acceptedCondition :: "bool \<Rightarrow> int \<Rightarrow> string \<Rightarrow> Condition" where
  "acceptedCondition ok generation message =
     \<lparr>co_Type = ''Accepted'', co_Status = (if ok then ''True'' else ''False''), co_ObservedGeneration = generation,
      co_Reason = (if ok then ''Accepted'' else ''Invalid''), co_Message = message\<rparr>"

type_synonym set_condition = "Condition list \<Rightarrow> Condition \<Rightarrow> Condition list"

definition setLogPilotPolicyCondition ::
    "set_condition \<Rightarrow> 'sel LogPilotPolicy \<Rightarrow> bool \<Rightarrow> string \<Rightarrow> 'sel LogPilotPolicy" where
  "setLogPilotPolicyCondition set_cond policy ok message =
     policy\<lparr>pp_Conditions :=
       set_cond (pp_Conditions policy) (acceptedCondition ok (om_Generation (pp_Meta policy)) message)\<rparr>"

definition setClusterLogPilotPolicyCondition ::
    "set_condition \<Rightarrow> ClusterLogPilotPolicy \<Rightarrow> bool \<Rightarrow> string \<Rightarrow> ClusterLogPilotPolicy" where
  "setClusterLogPilotPolicyCondition set_cond policy ok message =
     policy\<lparr>cc_Conditions :=
       set_cond (cc_Conditions policy) (acceptedCondition ok (om_Generation (cc_Meta policy)) message)\<rparr>"

datatype client_err = NotFound | AlreadyExists | Conflict | OtherError gerr

definition Reconcile_LogPilotPolicy ::
    "set_condition \<Rightarrow> (string \<Rightarrow> 'w \<Rightarrow> client_err + 'sel LogPilotPolicy)
       \<Rightarrow> ('sel LogPilotPolicy \<Rightarrow> 'w \<Rightarrow> client_err option \<times> 'w) \<Rightarrow> string \<Rightarrow> 'w \<Rightarrow> client_err option \<times> 'w" where
  "Reconcile_LogPilotPolicy set_cond get update req w =
     (case get req w of
        Inl NotFound \<Rightarrow> (None, w)
      | Inl e \<Rightarrow> (Some e, w)
      | Inr policy \<Rightarrow>
          (case validateLogPilotPolicy policy of
             (accepted, message) \<Rightarrow> update (setLogPilotPolicyCondition set_cond policy accepted message) w))"

definition Reconcile_ClusterLogPilotPolicy ::
    "set_condition \<Rightarrow> (string \<Rightarrow> 'w \<Rightarrow> client_err + ClusterLogPilotPolicy)
       \<Rightarrow> (ClusterLogPilotPolicy \<Rightarrow> 'w \<Rightarrow> client_err option \<times> 'w) \<Rightarrow> string \<Rightarrow> 'w \<Rightarrow> client_err option \<times> 'w" where
  "Reconcile_ClusterLogPilotPolicy set_cond get update req w =
     (case get req w of
        Inl NotFound \<Rightarrow> (None, w)
      | Inl e \<Rightarrow> (Some e, w)
      | Inr policy \<Rightarrow>
          (case validateClusterLogPilotPolicy policy of
             (accepted, message) \<Rightarrow> update (setClusterLogPilotPolicyCondition set_cond policy accepted message) w))"

section \<open>What is accepted\<close>

definition transform_valid :: "TransformSpec \<Rightarrow> bool" where
  "transform_valid t =
     (tr_Type t = ''json'' \<or> tr_Type t = ''label'' \<and> has_key (tr_Config t) ''fields''
      \<or> tr_Type t = ''drop'' \<and> has_key (tr_Config t) ''key'' \<and> has_key (tr_Config t) ''value'')"

definition output_valid :: "OutputSpec \<Rightarrow> bool" where
  "output_valid x =
     (out_Type x = ''http'' \<and> has_key (out_Config x) ''url'' \<or> out_Type x = ''file'' \<and> has_key (out_Config x) ''path'')"

lemma validate_transforms_iff: "validate_transforms_from i ts = None \<longleftrightarrow> list_all transform_valid ts"
  by (induction i ts rule: validate_transforms_from.induct) (simp_all add: transform_valid_def missing_keys_def)

lemma validateOutput_iff: "validateOutput x = None \<longleftrightarrow> output_valid x"
  by (simp add: validateOutput_def output_valid_def)

lemma validate_containers_iff:
  "validate_containers_from i cps = None \<longleftrightarrow>
     list_all (\<lambda>cp. output_valid (cp_Output cp) \<and> list_all transform_valid (cp_Transforms cp)) cps"
proof (induction i cps rule: validate_containers_from.induct)
  case (2 i cp cps)
  have "out_Type (cp_Output cp) = [] \<Longrightarrow> \<not> output_valid (cp_Output cp)" by (simp add: output_valid_def)
  with 2 show ?case
    using validateOutput_iff[of "cp_Output cp"] validate_transforms_iff[of 0 "cp_Transforms cp"]
    by (auto simp: validateTransforms_def split: option.splits)
qed simp

lemma verdict_fst [simp]: "fst (verdict e) = (e = None)"
  by (simp add: verdict_def split: option.split)

lemma NewTransform_valid: "NewTransform t = Inr x \<Longrightarrow> transform_valid t"
  by (auto simp: NewTransform_def transform_valid_def has_key_def extractStringMap_def extractString_def extractValue_def
      split: if_splits sum.splits option.splits)

lemma NewOutput_valid: "NewOutput pem_ok x = Inr s \<Longrightarrow> output_valid x"
  by (auto simp: NewOutput_def output_valid_def has_key_def extractString_def extractValue_def
      split: if_splits sum.splits option.splits)

section \<open>Properties\<close>


text \<open>Validation never rejects what the agent could run: if the factories build the output and the
  transforms of every container, no container is the reason of a rejection.\<close>

theorem buildable_containers_pass:
  assumes "list_all (\<lambda>cp. (\<exists>s. NewOutput pem_ok (cp_Output cp) = Inr s) \<and> (\<exists>ts. NewSliceFromSpecs (cp_Transforms cp) = Inr ts)) cps"
  shows "validate_containers_from i cps = None"
  unfolding validate_containers_iff
proof (rule list.pred_mono_strong[OF assms])
  fix cp
  assume "(\<exists>s. NewOutput pem_ok (cp_Output cp) = Inr s) \<and> (\<exists>ts. NewSliceFromSpecs (cp_Transforms cp) = Inr ts)"
  then obtain s ts where h: "NewOutput pem_ok (cp_Output cp) = Inr s" "list_all2 (\<lambda>s t. NewTransform s = Inr t) (cp_Transforms cp) ts"
    by (auto simp: NewSliceFromSpecs_Inr)
  have "list_all transform_valid (cp_Transforms cp)"
    using h(2) by (induction rule: list_all2_induct) (auto dest: NewTransform_valid)
  with NewOutput_valid[OF h(1)] show "output_valid (cp_Output cp) \<and> list_all transform_valid (cp_Transforms cp)" by simp
qed

definition demo_cp :: "raw_json \<Rightarrow> ContainerPolicy" where
  "demo_cp path = \<lparr>cp_Name = ''app'', cp_LogType = ''access'', cp_Path = ''/logs'', cp_Collector = [], cp_Delivery = [],
     cp_BatchLen = 0, cp_BatchSize = 0, cp_BatchInterval = 0, cp_Input = zero_InputSpec, cp_Transforms = [],
     cp_Output = zero_OutputSpec\<lparr>out_Type := ''file'', out_Config := [(''path'', path)]\<rparr>, cp_Clean = zero_CleanSpec\<rparr>"

theorem buildable_containers_pass_witness:
  "validate_containers_from 0 [demo_cp (Some (JStr ''/o''))] = None"
  by (rule buildable_containers_pass[of "\<lambda>s. True"]) (simp add: demo_cp_def NewOutput_def extractString_def extractValue_def
    zero_OutputSpec_def gm_get_Cons)

text \<open>The converse fails: validation looks at the presence of a key only. A file output whose path is a
  number passes it, and the agent cannot build its runner.\<close>

theorem accepted_but_unbuildable:
  "validate_containers_from 0 [demo_cp (Some (JNum ''7''))] = None
    \<and> NewOutput (\<lambda>s. True) (cp_Output (demo_cp (Some (JNum ''7'')))) = Inl (ConfigError ''file output'' (BadValue ''path''))"
  by code_simp

text \<open>C39: reconciling a policy that exists sends to the API server the same metadata and spec with the
  Accepted condition, True exactly when validation accepts, for the generation that was read, and
  returns the error of that update; a policy that is gone is no error and nothing is sent. The
  hypothesis is what SetStatusCondition documents: the condition found under the type is the new one.\<close>

theorem Reconcile_sets_condition:
  assumes "\<And>cs c. find (\<lambda>x. co_Type x = co_Type c) (set_cond cs c) = Some c"
  shows "case get req w of
      Inl e \<Rightarrow> Reconcile_LogPilotPolicy set_cond get update req w = (if e = NotFound then None else Some e, w)
    | Inr p \<Rightarrow> \<exists>p' x. Reconcile_LogPilotPolicy set_cond get update req w = update p' w
        \<and> pp_Meta p' = pp_Meta p \<and> pp_Spec p' = pp_Spec p
        \<and> find (\<lambda>x. co_Type x = ''Accepted'') (pp_Conditions p') = Some x
        \<and> co_Status x = (if fst (validateLogPilotPolicy p) then ''True'' else ''False'')
        \<and> co_ObservedGeneration x = om_Generation (pp_Meta p) \<and> co_Message x = snd (validateLogPilotPolicy p)"
proof (cases "get req w")
  case (Inl e)
  then show ?thesis by (cases e) (simp_all add: Reconcile_LogPilotPolicy_def)
next
  case (Inr p)
  obtain ok m where v: "validateLogPilotPolicy p = (ok, m)" by fastforce
  let ?c = "acceptedCondition ok (om_Generation (pp_Meta p)) m"
  let ?p = "setLogPilotPolicyCondition set_cond p ok m"
  have "find (\<lambda>x. co_Type x = ''Accepted'') (pp_Conditions ?p) = Some ?c"
    using assms[of ?c "pp_Conditions p"] by (simp add: setLogPilotPolicyCondition_def acceptedCondition_def)
  moreover have "Reconcile_LogPilotPolicy set_cond get update req w = update ?p w"
    by (simp add: Reconcile_LogPilotPolicy_def Inr v)
  moreover have "pp_Meta ?p = pp_Meta p" "pp_Spec ?p = pp_Spec p" by (simp_all add: setLogPilotPolicyCondition_def)
  moreover have "co_Status ?c = (if ok then ''True'' else ''False'')" "co_ObservedGeneration ?c = om_Generation (pp_Meta p)"
    "co_Message ?c = m" by (simp_all add: acceptedCondition_def)
  ultimately show ?thesis unfolding Inr v fst_conv snd_conv sum.case by blast
qed

definition demo_set_cond :: set_condition where
  "demo_set_cond cs c = c # filter (\<lambda>x. co_Type x \<noteq> co_Type c) cs"

definition demo_policy :: "nat LogPilotPolicy" where
  "demo_policy =
     \<lparr>pp_Meta = \<lparr>om_Name = ''p'', om_Namespace = ''ns'', om_UID = ''u'', om_Labels = [], om_Annotations = None, om_Generation = 3,
        om_Finalizers = [], om_DeletionTimestamp = None, om_ResourceVersion = ''1''\<rparr>,
      pp_Spec = \<lparr>ps_Selector = Some 0, ps_Containers = [demo_cp (Some (JStr ''/o''))], ps_Input = None, ps_Transforms = [],
        ps_Output = None\<rparr>,
      pp_Conditions = []\<rparr>"

theorem Reconcile_sets_condition_witness:
  "\<exists>p' x. snd (Reconcile_LogPilotPolicy demo_set_cond (\<lambda>req w. Inr (hd w)) (\<lambda>p w. (None, [p])) ''p'' [demo_policy]) = [p']
    \<and> find (\<lambda>x. co_Type x = ''Accepted'') (pp_Conditions p') = Some x
    \<and> co_Status x = ''True'' \<and> co_ObservedGeneration x = 3"
proof -
  have law: "find (\<lambda>x. co_Type x = co_Type c) (demo_set_cond cs c) = Some c" for cs c by (simp add: demo_set_cond_def)
  have v: "fst (validateLogPilotPolicy demo_policy) = True" "om_Generation (pp_Meta demo_policy) = 3" by code_simp+
  show ?thesis
    using Reconcile_sets_condition[where set_cond = demo_set_cond and get = "\<lambda>req w. Inr (hd w)" and req = "''p''"
      and w = "[demo_policy]" and update = "\<lambda>p w. (None, [p])", OF law] v
    by auto
qed

end
