(* ===== verification/Watcher.thy ===== *)
theory Watcher
  imports Injector DirInput Cleaner PolicyValidation
begin

text \<open>
  \<open>internal/log-pilot-agent/watcher\<close>, the parts that are not the event loop: the keys and paths of a
  pod's runners, the directories and symbolic links behind the unified log path (\<open>symlink.go\<close>), the
  construction of a runner from a container policy, and the lease of a cluster policy.

  The host's directories are a map of nodes with a script of failures of the calls that create them.
  The Kubernetes client of the lease is a record of functions over a world.
\<close>

record WatcherConfig =
  wc_NodeName :: string
  wc_Namespace :: string
  wc_LogDir :: string
  wc_ConfigDir :: string
  wc_MetaDir :: string

section \<open>Keys and paths\<close>

definition runnerKey :: "string \<Rightarrow> string \<Rightarrow> string \<Rightarrow> string" where
  "runnerKey podUID container logType = podUID @ ''/'' @ container @ ''/'' @ logType"

definition PodLogDir :: "WatcherConfig \<Rightarrow> Pod \<Rightarrow> string" where
  "PodLogDir cfg pod = wc_LogDir cfg @ ''/LogPilotPolicy/'' @ om_Namespace (po_Meta pod) @ ''/'' @ om_Name (po_Meta pod)
     @ ''/'' @ om_UID (po_Meta pod)"

definition logPath :: "WatcherConfig \<Rightarrow> Pod \<Rightarrow> ContainerPolicy \<Rightarrow> string" where
  "logPath cfg pod cp = wc_LogDir cfg @ ''/LogPilotPolicy/'' @ om_Namespace (po_Meta pod) @ ''/'' @ om_Name (po_Meta pod)
     @ ''/'' @ om_UID (po_Meta pod) @ ''/'' @ cp_Name cp @ ''/'' @ cp_LogType cp"

definition metaPath :: "WatcherConfig \<Rightarrow> string \<Rightarrow> ContainerPolicy \<Rightarrow> string" where
  "metaPath cfg podUID cp =
     path_join [wc_MetaDir cfg, ''LogPilotPolicy'', podUID, cp_Name cp @ ''_'' @ cp_LogType cp @ ''_dir.json'']"

section \<open>The unified log path\<close>

datatype hnode = HDir | HFile | HLink string

record hostfs =
  hf_nodes :: "(string, hnode) gomap"
  hf_script :: "sysres list"

definition hf_next :: "hostfs \<Rightarrow> bool \<times> hostfs" where
  "hf_next h = (case hf_script h of [] \<Rightarrow> (True, h) | SysOk # sc \<Rightarrow> (True, h\<lparr>hf_script := sc\<rparr>)
     | SysFail n # sc \<Rightarrow> (False, h\<lparr>hf_script := sc\<rparr>))"

text \<open>\<open>os.MkdirAll\<close>, for the last element of the path: something that is there and no file is left alone.\<close>

definition hf_MkdirAll :: "string \<Rightarrow> hostfs \<Rightarrow> gerr option \<times> hostfs" where
  "hf_MkdirAll path h =
     (case hf_next h of
        (False, h') \<Rightarrow> (Some ''mkdir'', h')
      | (True, h') \<Rightarrow>
          (case gm_get (hf_nodes h') path of
             None \<Rightarrow> (None, h'\<lparr>hf_nodes := gm_put path HDir (hf_nodes h')\<rparr>)
           | Some HFile \<Rightarrow> (Some ''not a directory'', h')
           | Some n \<Rightarrow> (None, h')))"

definition below :: "string \<Rightarrow> string \<Rightarrow> bool" where
  "below dir p = (take (Suc (length dir)) p = dir @ ''/'')"

text \<open>\<open>os.Remove\<close> ignores nothing but a directory with entries; its error is not looked at.\<close>

definition hf_Remove :: "string \<Rightarrow> hostfs \<Rightarrow> hostfs" where
  "hf_Remove path h =
     (if gm_get (hf_nodes h) path = Some HDir \<and> list_ex (\<lambda>(p, n). below path p) (hf_nodes h) then h
      else h\<lparr>hf_nodes := gm_del path (hf_nodes h)\<rparr>)"

definition hf_Symlink :: "string \<Rightarrow> string \<Rightarrow> hostfs \<Rightarrow> gerr option \<times> hostfs" where
  "hf_Symlink target link h =
     (case hf_next h of
        (False, h') \<Rightarrow> (Some ''symlink'', h')
      | (True, h') \<Rightarrow>
          (if gm_get (hf_nodes h') link \<noteq> None then (Some ''file exists'', h')
           else (None, h'\<lparr>hf_nodes := gm_put link (HLink target) (hf_nodes h')\<rparr>)))"

text \<open>\<open>os.RemoveAll\<close>: the path and what is below it; of a link the link. Paths with dot elements are
  not resolved: they name nothing here.\<close>

definition hf_RemoveAll :: "string \<Rightarrow> hostfs \<Rightarrow> hostfs" where
  "hf_RemoveAll path h =
     h\<lparr>hf_nodes := filter (\<lambda>(p, n). p \<noteq> path \<and> \<not> below path p) (hf_nodes h)\<rparr>"

definition forceSymlink :: "string \<Rightarrow> string \<Rightarrow> hostfs \<Rightarrow> gerr option \<times> hostfs" where
  "forceSymlink target link h = hf_Symlink target link (hf_Remove link h)"

definition stdout_target :: "Pod \<Rightarrow> ContainerPolicy \<Rightarrow> string" where
  "stdout_target pod cp = ''/var/log/pods/'' @ om_Namespace (po_Meta pod) @ ''_'' @ om_Name (po_Meta pod) @ ''_''
     @ om_UID (po_Meta pod) @ ''/'' @ cp_Name cp"

definition empty_dir_target :: "Pod \<Rightarrow> ContainerPolicy \<Rightarrow> string" where
  "empty_dir_target pod cp = ''/var/lib/kubelet/pods/'' @ om_UID (po_Meta pod)
     @ ''/volumes/kubernetes.io~empty-dir/log-pilot-logs/'' @ cp_Name cp @ ''/'' @ cp_LogType cp"

definition ensureLogPath :: "Pod \<Rightarrow> ContainerPolicy \<Rightarrow> string \<Rightarrow> hostfs \<Rightarrow> gerr option \<times> hostfs" where
  "ensureLogPath pod cp path h =
     (case hf_MkdirAll (path_dir path) h of
        (Some e, h1) \<Rightarrow> (Some (''create parent dirs for '' @ path @ '': '' @ e), h1)
      | (None, h1) \<Rightarrow>
          (if cp_Path cp = ''-'' then forceSymlink (stdout_target pod cp) path h1
           else if cp_Delivery cp = ''bestEffort'' then forceSymlink (empty_dir_target pod cp) path h1
           else hf_MkdirAll path h1))"

definition removeLogPath :: "string \<Rightarrow> hostfs \<Rightarrow> hostfs" where
  "removeLogPath path h = hf_RemoveAll path h"

definition Cleanup :: "WatcherConfig \<Rightarrow> Pod \<Rightarrow> hostfs \<Rightarrow> hostfs" where
  "Cleanup cfg pod h = hf_RemoveAll (PodLogDir cfg pod) h"

section \<open>Building a runner\<close>

text \<open>What \<open>buildRunner\<close> hands to \<open>runner.New\<close>: the directory input by its configuration.\<close>

record RunnerPlan =
  rp_Name :: string
  rp_Input :: DirConfig
  rp_Transforms :: "transform list"
  rp_Output :: sink
  rp_Clean :: cleaner
  rp_BatchLen :: int

definition buildRunner ::
    "(string \<Rightarrow> bool) \<Rightarrow> ContainerPolicy \<Rightarrow> string \<Rightarrow> string \<Rightarrow> WatcherConfig \<Rightarrow> factory_error + RunnerPlan" where
  "buildRunner pem_ok cp path podUID cfg =
     (case NewSliceFromSpecs (cp_Transforms cp) of
        Inl e \<Rightarrow> Inl e
      | Inr ts \<Rightarrow>
          (case NewOutput pem_ok (cp_Output cp) of
             Inl e \<Rightarrow> Inl e
           | Inr out \<Rightarrow>
               Inr \<lparr>rp_Name = cp_Name cp @ ''/'' @ cp_LogType cp,
                 rp_Input = \<lparr>dc_Dir = path, dc_MetaPath = metaPath cfg podUID cp, dc_ReadFrom = ''oldest'', dc_Include = [],
                   dc_Exclude = [], dc_OffsetCommitEvery = 1000\<rparr>,
                 rp_Transforms = ts, rp_Output = out, rp_Clean = NewClean (cp_Clean cp) path,
                 rp_BatchLen = (if cp_BatchLen cp = 0 then 1000 else cp_BatchLen cp)\<rparr>))"

fun dec_string_list :: "json \<Rightarrow> string list option" where
  "dec_string_list j = dec_list dec_string j"

definition extractStringSlice :: "config \<Rightarrow> string \<Rightarrow> string list" where
  "extractStringSlice c key =
     (case gm_get c key of
        None \<Rightarrow> []
      | Some raw \<Rightarrow> (case Option.bind raw dec_string_list of None \<Rightarrow> [] | Some xs \<Rightarrow> xs))"

section \<open>The name of a lease\<close>

text \<open>Over the ASCII letters a Kubernetes name is made of.\<close>

definition dns_char :: "char \<Rightarrow> bool" where
  "dns_char c = (let n = of_char c :: nat in (97 \<le> n \<and> n \<le> 122) \<or> (48 \<le> n \<and> n \<le> 57) \<or> n = 45)"

definition trim_right_dash :: "string \<Rightarrow> string" where
  "trim_right_dash s = rev (dropWhile (\<lambda>c. c = CHR ''-'') (rev s))"

definition dns1123Name :: "string \<Rightarrow> string" where
  "dns1123Name value =
     (let b = map (\<lambda>c. if dns_char c then c else CHR ''-'') (map ascii_lower value);
          out = trim_right_dash (dropWhile (\<lambda>c. c = CHR ''-'') b);
          out' = (if 63 < length out then trim_right_dash (take 63 out) else out)
      in if out' = [] then ''logpilot-cluster-policy'' else out')"

section \<open>The lease of a cluster policy\<close>

record Lease =
  le_Name :: string
  le_Holder :: "string option"
  le_Duration :: "int option"
  le_Acquire :: "int option"
  le_Renew :: "int option"
  le_Version :: int

record 'w lease_client =
  lc_Get :: "string \<Rightarrow> 'w \<Rightarrow> (client_err + Lease) \<times> 'w"
  lc_Create :: "Lease \<Rightarrow> 'w \<Rightarrow> client_err option \<times> 'w"
  lc_Update :: "Lease \<Rightarrow> 'w \<Rightarrow> client_err option \<times> 'w"
  lc_Now :: "'w \<Rightarrow> int"

definition lease_held :: "string \<Rightarrow> int \<Rightarrow> Lease \<Rightarrow> bool" where
  "lease_held holder now l =
     (case (le_Holder l, le_Renew l) of
        (Some h, Some t) \<Rightarrow> h \<noteq> holder \<and> now - t \<le> 30
      | _ \<Rightarrow> False)"

text \<open>The retries of \<open>acquireClusterPolicyLease\<close>; the code makes three. Times are seconds.\<close>

fun acquire_loop :: "nat \<Rightarrow> 'w lease_client \<Rightarrow> string \<Rightarrow> string \<Rightarrow> 'w \<Rightarrow> bool \<times> 'w" where
  "acquire_loop 0 cl holder name w = (False, w)"
| "acquire_loop (Suc n) cl holder name w =
     (let now = lc_Now cl w in
      case lc_Get cl name w of
        (Inl NotFound, w1) \<Rightarrow>
          (case lc_Create cl \<lparr>le_Name = name, le_Holder = Some holder, le_Duration = Some 30, le_Acquire = Some now,
                  le_Renew = Some now, le_Version = 0\<rparr> w1 of
             (None, w2) \<Rightarrow> (True, w2)
           | (Some AlreadyExists, w2) \<Rightarrow> acquire_loop n cl holder name w2
           | (Some e, w2) \<Rightarrow> (False, w2))
      | (Inl e, w1) \<Rightarrow> (False, w1)
      | (Inr l, w1) \<Rightarrow>
          (if lease_held holder (lc_Now cl w1) l then (False, w1)
           else
             (case lc_Update cl (l\<lparr>le_Holder := Some holder, le_Duration := Some 30, le_Renew := Some now,
                     le_Acquire := (if le_Acquire l = None then Some now else le_Acquire l)\<rparr>) w1 of
                (None, w2) \<Rightarrow> (True, w2)
              | (Some Conflict, w2) \<Rightarrow> acquire_loop n cl holder name w2
              | (Some e, w2) \<Rightarrow> (False, w2))))"

definition acquireClusterPolicyLease :: "'w lease_client \<Rightarrow> WatcherConfig \<Rightarrow> string \<Rightarrow> 'w \<Rightarrow> bool \<times> 'w" where
  "acquireClusterPolicyLease cl cfg policyName w =
     (if wc_Namespace cfg = [] \<or> wc_NodeName cfg = [] then (False, w)
      else acquire_loop 3 cl (wc_NodeName cfg) (dns1123Name (''logpilot-cluster-policy-'' @ policyName)) w)"

section \<open>Names of leases\<close>

lemma trim_right_split: "\<exists>t. s = trim_right_dash s @ t \<and> (\<forall>c\<in>set t. c = CHR ''-'')"
proof -
  have "rev s = takeWhile (\<lambda>c. c = CHR ''-'') (rev s) @ dropWhile (\<lambda>c. c = CHR ''-'') (rev s)" by simp
  then have "s = trim_right_dash s @ rev (takeWhile (\<lambda>c. c = CHR ''-'') (rev s))"
    unfolding trim_right_dash_def by (metis rev_append rev_rev_ident)
  moreover have "\<forall>c\<in>set (rev (takeWhile (\<lambda>c. c = CHR ''-'') (rev s))). c = CHR ''-''" by (auto dest: set_takeWhileD)
  ultimately show ?thesis by blast
qed

lemma trim_right_last: "trim_right_dash s \<noteq> [] \<Longrightarrow> last (trim_right_dash s) \<noteq> CHR ''-''"
proof -
  assume "trim_right_dash s \<noteq> []"
  then have ne: "dropWhile (\<lambda>c. c = CHR ''-'') (rev s) \<noteq> []" by (simp add: trim_right_dash_def)
  then show ?thesis using hd_dropWhile[OF ne] by (simp add: trim_right_dash_def last_rev)
qed

text \<open>What begins with another letter still begins with it after trimming.\<close>

lemma trim_right_hd: "s \<noteq> [] \<Longrightarrow> hd s \<noteq> CHR ''-'' \<Longrightarrow> trim_right_dash s \<noteq> [] \<and> hd (trim_right_dash s) = hd s"
proof -
  assume s: "s \<noteq> []" "hd s \<noteq> CHR ''-''"
  obtain t where t: "s = trim_right_dash s @ t" "\<forall>c\<in>set t. c = CHR ''-''" using trim_right_split by blast
  have "trim_right_dash s \<noteq> []"
  proof
    assume "trim_right_dash s = []"
    with t(1) have "s = t" by simp
    with s t(2) show False by (metis hd_in_set)
  qed
  then show ?thesis by (metis hd_append2 t(1))
qed

lemma trim_right_set: "set (trim_right_dash s) \<subseteq> set s" "length (trim_right_dash s) \<le> length s"
  using trim_right_split[of s] by (metis Un_upper1 set_append, metis le_add1 length_append)

definition dns_label :: "string \<Rightarrow> bool" where
  "dns_label s = (s \<noteq> [] \<and> length s \<le> 63 \<and> list_all dns_char s \<and> hd s \<noteq> CHR ''-'' \<and> last s \<noteq> CHR ''-'')"

text \<open>C37: the name of the lease is a valid DNS-1123 label whatever the name of the policy is.\<close>

theorem dns1123Name_label: "dns_label (dns1123Name value)"
proof -
  define b where "b = map (\<lambda>c. if dns_char c then c else CHR ''-'') (map ascii_lower value)"
  define s where "s = dropWhile (\<lambda>c. c = CHR ''-'') b"
  define out where "out = (if 63 < length (trim_right_dash s) then trim_right_dash (take 63 (trim_right_dash s)) else trim_right_dash s)"
  have eq: "dns1123Name value = (if out = [] then ''logpilot-cluster-policy'' else out)"
    unfolding dns1123Name_def Let_def out_def s_def b_def by (rule refl)
  have "dns_char CHR ''-''" by code_simp
  then have "\<forall>c\<in>set b. dns_char c" by (auto simp: b_def)
  then have s: "\<forall>c\<in>set s. dns_char c" unfolding s_def by (meson set_dropWhileD)
  have "set out \<subseteq> set s"
    unfolding out_def by (auto dest!: subsetD[OF trim_right_set(1)] in_set_takeD split: if_splits)
  with s have chars: "list_all dns_char out" by (auto simp: list_all_iff)
  have len: "length out \<le> 63"
    using trim_right_set(2)[of "take 63 (trim_right_dash s)"] by (auto simp: out_def)
  have "dns_label out" if "out \<noteq> []"
  proof -
    have trim_Nil: "trim_right_dash [] = []" by (simp add: trim_right_dash_def)
    have "s \<noteq> []"
    proof
      assume "s = []"
      then have "out = []" by (simp add: out_def trim_Nil)
      with that show False by simp
    qed
    then have hs: "hd s \<noteq> CHR ''-''" unfolding s_def by (rule hd_dropWhile)
    note ts = trim_right_hd[OF \<open>s \<noteq> []\<close> hs]
    define t where "t = trim_right_dash s"
    have t: "t \<noteq> []" "hd t \<noteq> CHR ''-''" using ts hs by (simp_all add: t_def)
    have tk: "take 63 t \<noteq> []" "hd (take 63 t) = hd t" using t(1) by (cases t; simp)+
    have "hd (trim_right_dash (take 63 t)) = hd t" using trim_right_hd[OF tk(1)] tk(2) t(2) by simp
    then have "hd out \<noteq> CHR ''-''" using t(2) unfolding out_def t_def[symmetric] by simp
    moreover have "last out \<noteq> CHR ''-''" using that trim_right_last unfolding out_def by (metis (full_types))
    ultimately show ?thesis using that len chars by (simp add: dns_label_def)
  qed
  moreover have "dns_label ''logpilot-cluster-policy''" by code_simp
  ultimately show ?thesis by (simp add: eq)
qed

section \<open>Paths of state files and logs\<close>

lemma path_join_elems:
  assumes "path_clean dir = dir" "take 1 dir = ''/''" "dir \<noteq> ''/''" "ns \<noteq> []" "list_all path_elem ns"
  shows "path_join (dir # ns) = dir @ ''/'' @ str_join ''/'' ns"
proof -
  let ?st = "clean_elems True [] (split_slash dir)"
  have d: "dir = CHR ''/'' # str_join ''/'' (rev ?st)" using assms(1,2) by (simp add: path_clean_def)
  with assms(3) have st: "?st \<noteq> []" by auto
  have "dir \<noteq> []" using assms(2) by auto
  then have es: "filter (\<lambda>e. e \<noteq> []) (dir # ns) = dir # ns" using assms(5) by (auto simp: path_elem_def list_all_iff intro!: filter_True)
  have j: "str_join ''/'' (dir # ns) = dir @ ''/'' @ str_join ''/'' ns" using assms(4) by (cases ns) auto
  have sp: "split_slash (str_join ''/'' ns) = ns"
    using assms(4,5)
  proof (induction ns)
    case (Cons n ns)
    then show ?case
      by (cases ns) (auto simp: split_slash_none path_elem_def split_slash_append[of n, simplified])
  qed simp
  have ce: "clean_elems True st ns = rev ns @ st" for st
    using assms(5) by (induction ns arbitrary: st) (auto simp: path_elem_def)
  have jn: "str_join ''/'' (xs @ ys) = str_join ''/'' xs @ ''/'' @ str_join ''/'' ys" if "xs \<noteq> []" "ys \<noteq> []" for xs ys
    using that by (induction xs rule: induct_list012) (auto split: list.splits, (cases ys; simp)+)
  have "path_join (dir # ns) = path_clean (dir @ ''/'' @ str_join ''/'' ns)"
    using \<open>dir \<noteq> []\<close> by (simp only: path_join_def es j Let_def list.distinct if_False)
  also have "\<dots> = CHR ''/'' # str_join ''/'' (rev ?st @ ns)"
    using assms(2) \<open>dir \<noteq> []\<close>
      split_slash_append[of dir "str_join ''/'' ns"] clean_elems_append[of True "[]" "split_slash dir" ns]
    by (cases dir) (simp_all add: path_clean_def sp ce del: split_slash.simps)
  also have "\<dots> = dir @ ''/'' @ str_join ''/'' ns"
  proof -
    have "str_join ''/'' (rev ?st @ ns) = str_join ''/'' (rev ?st) @ ''/'' @ str_join ''/'' ns"
      by (rule jn) (use st assms(4) in auto)
    then show ?thesis by (metis append_Cons d)
  qed
  finally show ?thesis .
qed

lemma metaPath_eq:
  assumes "path_clean (wc_MetaDir cfg) = wc_MetaDir cfg" "take 1 (wc_MetaDir cfg) = ''/''" "wc_MetaDir cfg \<noteq> ''/''"
    and "path_elem u" "CHR ''/'' \<notin> set (cp_Name cp)" "CHR ''/'' \<notin> set (cp_LogType cp)"
  shows "metaPath cfg u cp = wc_MetaDir cfg @ ''/LogPilotPolicy/'' @ u @ ''/'' @ cp_Name cp @ ''_'' @ cp_LogType cp @ ''_dir.json''"
proof -
  let ?f = "cp_Name cp @ ''_'' @ cp_LogType cp @ ''_dir.json''"
  have "length ?f > 2" by simp
  then have "?f \<noteq> ''.''" "?f \<noteq> ''..''" "?f \<noteq> []" by (metis One_nat_def length_Cons list.size(3) less_numeral_extra(4) numeral_2_eq_2 not_less_iff_gr_or_eq lessI Suc_lessD)+
  moreover have "CHR ''/'' \<notin> set ?f" using assms(5,6) by simp
  ultimately have "path_elem ?f" unfolding path_elem_def by blast
  moreover have "path_elem ''LogPilotPolicy''" by code_simp
  ultimately show ?thesis
    using path_join_elems[OF assms(1-3), of "[''LogPilotPolicy'', u, ?f]"] assms(4)
    by (simp add: metaPath_def)
qed

text \<open>The state files of two runners of one node are different: if container names hold no underscore
  and no name holds a slash, the state file determines the Pod, the container and the log type, so no
  two runners with different keys share their offsets.\<close>

theorem metaPath_injective:
  assumes "path_clean (wc_MetaDir cfg) = wc_MetaDir cfg" "take 1 (wc_MetaDir cfg) = ''/''" "wc_MetaDir cfg \<noteq> ''/''"
    and "path_elem u" "path_elem v"
    and "{CHR ''/'', CHR ''_''} \<inter> set (cp_Name cp) = {}" "{CHR ''/'', CHR ''_''} \<inter> set (cp_Name cq) = {}"
    and "CHR ''/'' \<notin> set (cp_LogType cp)" "CHR ''/'' \<notin> set (cp_LogType cq)"
    and "metaPath cfg u cp = metaPath cfg v cq"
  shows "runnerKey u (cp_Name cp) (cp_LogType cp) = runnerKey v (cp_Name cq) (cp_LogType cq)"
proof -
  have split: "a = b \<and> s = t" if eq: "a @ x # s = b @ x # t" and "x \<notin> set a" "x \<notin> set b" for a b s t :: string and x
  proof -
    have tw: "takeWhile (\<lambda>c. c \<noteq> x) (ys @ x # r) = ys" if "x \<notin> set ys" for ys r
      using that by (induction ys) auto
    have "a = b" using tw[of a s] tw[of b t] that by simp
    with eq show ?thesis by simp
  qed
  have n: "CHR ''/'' \<notin> set (cp_Name cp)" "CHR ''/'' \<notin> set (cp_Name cq)"
    "CHR ''_'' \<notin> set (cp_Name cp)" "CHR ''_'' \<notin> set (cp_Name cq)" using assms(6,7) by blast+
  note mp = metaPath_eq[OF assms(1-3) assms(4) n(1) assms(8)] and mq = metaPath_eq[OF assms(1-3) assms(5) n(2) assms(9)]
  from assms(10) have e: "u @ CHR ''/'' # cp_Name cp @ CHR ''_'' # cp_LogType cp @ ''_dir.json''
      = v @ CHR ''/'' # cp_Name cq @ CHR ''_'' # cp_LogType cq @ ''_dir.json''"
    unfolding mp mq by (simp only: same_append_eq append_Cons append_Nil list.inject simp_thms)
  have "CHR ''/'' \<notin> set u" "CHR ''/'' \<notin> set v" using assms(4,5) by (simp_all add: path_elem_def)
  from split[OF e this] have uv: "u = v"
    and e2: "cp_Name cp @ CHR ''_'' # cp_LogType cp @ ''_dir.json'' = cp_Name cq @ CHR ''_'' # cp_LogType cq @ ''_dir.json''"
    by (rule conjunct1, rule conjunct2)
  from split[OF e2 n(3,4)] have "cp_Name cp = cp_Name cq" "cp_LogType cp = cp_LogType cq"
    by (simp_all only: append_same_eq)
  with uv show ?thesis by simp
qed

definition demo_wcfg :: WatcherConfig where
  "demo_wcfg = \<lparr>wc_NodeName = ''n1'', wc_Namespace = ''sys'', wc_LogDir = ''/var/log/log-pilot'', wc_ConfigDir = ''/c'', wc_MetaDir = ''/m''\<rparr>"

theorem metaPath_injective_witness:
  "runnerKey ''u1'' ''app'' ''access'' = runnerKey ''u1'' (cp_Name (demo_policy_of ''app'' ''access'' ''/x'' [])) ''access''"
proof -
  have c: "path_clean (wc_MetaDir demo_wcfg) = wc_MetaDir demo_wcfg" "take 1 (wc_MetaDir demo_wcfg) = ''/''"
    "wc_MetaDir demo_wcfg \<noteq> ''/''" "path_elem ''u1''" by code_simp+
  let ?p = "demo_policy_of ''app'' ''access'' ''/x'' []" and ?q = "demo_policy_of ''app'' ''access'' ''/y'' ''bestEffort''"
  have n: "{CHR ''/'', CHR ''_''} \<inter> set (cp_Name ?p) = {}" "{CHR ''/'', CHR ''_''} \<inter> set (cp_Name ?q) = {}"
    "CHR ''/'' \<notin> set (cp_LogType ?p)" "CHR ''/'' \<notin> set (cp_LogType ?q)" "metaPath demo_wcfg ''u1'' ?p = metaPath demo_wcfg ''u1'' ?q"
    by (simp_all add: demo_policy_of_def metaPath_def)
  show ?thesis using metaPath_injective[OF c c(4) n] by (simp add: demo_policy_of_def)
qed

text \<open>The path the application writes to is the path the agent reads. For guaranteed delivery, with the
  agent's log directory at its default and the kubelet expanding the sub path expression from the
  downward-API variables the webhook injected, the mounted directory of the host volume is the log
  path of the runner. The hypotheses on \<open>expand\<close> are the documented expansion of \<open>$(NAME)\<close>.\<close>

theorem mounted_path_is_log_path:
  assumes expand: "\<And>s. expand (''$(NAMESPACE)'' @ s) = om_Namespace (po_Meta pod) @ expand s"
    "\<And>s. expand (''$(POD_NAME)'' @ s) = om_Name (po_Meta pod) @ expand s"
    "\<And>s. expand (''$(POD_UID)'' @ s) = om_UID (po_Meta pod) @ expand s"
    "\<And>c s. c \<noteq> CHR ''$'' \<Longrightarrow> expand (c # s) = c # expand s" "expand [] = []"
    and "wc_LogDir cfg = logHostPath" "cp_Delivery cp \<noteq> ''bestEffort''"
    and "CHR ''$'' \<notin> set (cp_Name cp)" "CHR ''$'' \<notin> set (cp_LogType cp)"
  shows "logHostPath @ ''/'' @ expand (volumeSubPathExpr cp) = logPath cfg pod cp"
proof -
  have plain: "expand (s @ t) = s @ expand t" if "CHR ''$'' \<notin> set s" for s t
    using that by (induction s) (auto simp: expand(4))
  have tail: "expand (cp_Name cp @ ''/'' @ cp_LogType cp) = cp_Name cp @ ''/'' @ cp_LogType cp"
    using plain[of "cp_Name cp @ ''/'' @ cp_LogType cp" "[]"] assms(8,9) expand(5) by simp
  have e: "volumeSubPathExpr cp = ''LogPilotPolicy/'' @ ''$(NAMESPACE)'' @ ''/'' @ ''$(POD_NAME)'' @ ''/'' @ ''$(POD_UID)'' @ ''/''
      @ cp_Name cp @ ''/'' @ cp_LogType cp"
    using assms(7) by (simp add: volumeSubPathExpr_def)
  have p: "CHR ''$'' \<notin> set ''LogPilotPolicy/''" "CHR ''$'' \<notin> set ''/''" by simp_all
  have "expand (volumeSubPathExpr cp) = ''LogPilotPolicy/'' @ om_Namespace (po_Meta pod) @ ''/'' @ om_Name (po_Meta pod) @ ''/''
      @ om_UID (po_Meta pod) @ ''/'' @ cp_Name cp @ ''/'' @ cp_LogType cp"
    unfolding e by (simp only: plain[OF p(1)] plain[OF p(2)] expand(1-3) tail)
  then show ?thesis using assms(6) by (simp add: logPath_def)
qed

fun demo_expand :: "string \<Rightarrow> string" where
  "demo_expand [] = []"
| "demo_expand (c # s) =
     (if take 12 (c # s) = ''$(NAMESPACE)'' then ''ns'' @ demo_expand (drop 11 s)
      else if take 11 (c # s) = ''$(POD_NAME)'' then ''pod'' @ demo_expand (drop 10 s)
      else if take 10 (c # s) = ''$(POD_UID)'' then ''u1'' @ demo_expand (drop 9 s)
      else c # demo_expand s)"

lemma demo_expand_plain: "c \<noteq> CHR ''$'' \<Longrightarrow> demo_expand (c # s) = c # demo_expand s"
  by (simp add: take_Cons')

lemma demo_expand_vars: "demo_expand (''$(NAMESPACE)'' @ s) = ''ns'' @ demo_expand s"
  "demo_expand (''$(POD_NAME)'' @ s) = ''pod'' @ demo_expand s"
  "demo_expand (''$(POD_UID)'' @ s) = ''u1'' @ demo_expand s"
  by (simp_all add: eval_nat_numeral)

theorem mounted_path_is_log_path_witness:
  "logHostPath @ ''/'' @ demo_expand (volumeSubPathExpr (demo_policy_of ''app'' ''access'' ''/logs'' []))
     = ''/var/log/log-pilot/LogPilotPolicy/ns/pod/u1/app/access''"
proof -
  have m: "om_Namespace (po_Meta demo_pod) = ''ns''" "om_Name (po_Meta demo_pod) = ''pod''" "om_UID (po_Meta demo_pod) = ''u1''"
    by (simp_all add: demo_pod_def demo_meta_of_def)
  let ?p = "demo_policy_of ''app'' ''access'' ''/logs'' []"
  have h: "wc_LogDir demo_wcfg = logHostPath" "cp_Delivery ?p \<noteq> ''bestEffort''" "CHR ''$'' \<notin> set (cp_Name ?p)"
    "CHR ''$'' \<notin> set (cp_LogType ?p)" by (simp_all add: demo_wcfg_def logHostPath_def demo_policy_of_def)
  have "logHostPath @ ''/'' @ demo_expand (volumeSubPathExpr ?p) = logPath demo_wcfg demo_pod ?p"
  proof (rule mounted_path_is_log_path)
    show "demo_expand (''$(NAMESPACE)'' @ s) = om_Namespace (po_Meta demo_pod) @ demo_expand s"
      "demo_expand (''$(POD_NAME)'' @ s) = om_Name (po_Meta demo_pod) @ demo_expand s"
      "demo_expand (''$(POD_UID)'' @ s) = om_UID (po_Meta demo_pod) @ demo_expand s" for s
      by (simp_all only: m demo_expand_vars)
  qed (use h in \<open>simp_all add: demo_expand_plain\<close>)
  then show ?thesis by (simp add: logPath_def m demo_wcfg_def demo_policy_of_def)
qed

section \<open>The lease\<close>

text \<open>The specification of a won lease, over the log of the writes (time, old object, new object), the
  newest first.\<close>

definition may_take :: "string \<Rightarrow> int \<Rightarrow> Lease option \<Rightarrow> bool" where
  "may_take holder t old =
     (case old of None \<Rightarrow> True
      | Some l \<Rightarrow> le_Holder l = None \<or> le_Holder l = Some holder \<or> le_Renew l = None \<or> 30 < t - the (le_Renew l))"

fun lease_win :: "string \<Rightarrow> (int \<times> Lease option \<times> Lease) list \<Rightarrow> bool" where
  "lease_win holder [] = False"
| "lease_win holder ((t, old, new) # ws) =
     (le_Holder new = Some holder \<and> le_Renew new \<noteq> None \<and> may_take holder t old)"

lemma may_take_later: "\<not> lease_held holder t0 l \<Longrightarrow> t0 \<le> t \<Longrightarrow> may_take holder t (Some l)"
  by (auto simp: lease_held_def may_take_def split: option.splits)

lemma acquire_loop_wins:
  assumes create: "\<And>l w w2. lc_Create cl l w = (None, w2) \<Longrightarrow> \<exists>t ws. writes w2 = (t, None, l) # ws"
    and update: "\<And>w l w1 l' w2. lc_Get cl name w = (Inr l, w1) \<Longrightarrow> le_Version l' = le_Version l \<Longrightarrow>
      lc_Update cl l' w1 = (None, w2) \<Longrightarrow> \<exists>t ws. writes w2 = (t, Some l, l') # ws \<and> lc_Now cl w1 \<le> t"
    and "acquire_loop n cl holder name w = (True, w')"
  shows "lease_win holder (writes w')"
  using assms(3)
proof (induction n arbitrary: w)
  case (Suc n)
  obtain r w1 where g: "lc_Get cl name w = (r, w1)" by fastforce
  show ?case
  proof (cases r)
    case (Inl e)
    with Suc g show ?thesis
      by (auto simp: Let_def may_take_def split: client_err.splits option.splits prod.splits dest!: create)
  next
    case (Inr l)
    let ?l = "l\<lparr>le_Holder := Some holder, le_Duration := Some 30, le_Renew := Some (lc_Now cl w),
                 le_Acquire := (if le_Acquire l = None then Some (lc_Now cl w) else le_Acquire l)\<rparr>"
    obtain u w2 where u: "lc_Update cl ?l w1 = (u, w2)" by fastforce
    from Suc.prems g Inr have nh: "\<not> lease_held holder (lc_Now cl w1) l" by (auto simp: Let_def split: if_splits)
    show ?thesis
    proof (cases u)
      case None
      from update[OF g[unfolded Inr], of ?l w2] u None obtain t ws
        where t: "writes w2 = (t, Some l, ?l) # ws" "lc_Now cl w1 \<le> t" by auto
      have "may_take holder t (Some l)" using nh t(2) by (rule may_take_later)
      moreover have "w' = w2" using Suc.prems g Inr nh u None by (simp add: Let_def)
      ultimately show ?thesis using t(1) by auto
    next
      case (Some e)
      with Suc g Inr nh u show ?thesis by (auto simp: Let_def split: client_err.splits)
    qed
  qed
qed simp

text \<open>C15: the lease of a cluster policy changes hands only when it may. If an agent acquires it, the
  write that did so is its own, names it as the holder with a renewal time, and replaced no lease or a lease that
  was not held by another node at the time of the write: one without holder or renewal, its own, or
  one renewed more than 30 seconds before. The hypotheses are the optimistic concurrency of the API
  server: a create succeeds only where there is no object, an update only on the version that was read.\<close>

theorem acquire_lease_exclusive:
  assumes create: "\<And>l w w2. lc_Create cl l w = (None, w2) \<Longrightarrow> \<exists>t ws. writes w2 = (t, None, l) # ws"
    and update: "\<And>n w l w1 l' w2. lc_Get cl n w = (Inr l, w1) \<Longrightarrow> le_Version l' = le_Version l \<Longrightarrow>
      lc_Update cl l' w1 = (None, w2) \<Longrightarrow> \<exists>t ws. writes w2 = (t, Some l, l') # ws \<and> lc_Now cl w1 \<le> t"
    and "acquireClusterPolicyLease cl cfg policy w = (True, w')"
  shows "lease_win (wc_NodeName cfg) (writes w')"
proof -
  have "acquire_loop 3 cl (wc_NodeName cfg) (dns1123Name (''logpilot-cluster-policy-'' @ policy)) w = (True, w')"
    using assms(3) by (simp add: acquireClusterPolicyLease_def split: if_splits)
  then show ?thesis
    by (rule acquire_loop_wins[where writes = writes and cl = cl, rotated 2]) (erule create, erule (2) update)
qed

text \<open>A store of one lease with its write log and clock; between the first read and the write of an
  agent another writes it too, so that the first attempt ends in a conflict.\<close>

record lease_world =
  lw_lease :: "Lease option"
  lw_now :: int
  lw_log :: "(int \<times> Lease option \<times> Lease) list"

definition store_client :: "lease_world lease_client" where
  "store_client = \<lparr>
     lc_Get = (\<lambda>n w. (case lw_lease w of None \<Rightarrow> Inl NotFound | Some l \<Rightarrow> Inr l, w)),
     lc_Create = (\<lambda>l w. if lw_lease w = None then (None, w\<lparr>lw_lease := Some l, lw_log := (lw_now w, None, l) # lw_log w\<rparr>)
        else (Some AlreadyExists, w)),
     lc_Update = (\<lambda>l w. case lw_lease w of None \<Rightarrow> (Some NotFound, w) | Some l0 \<Rightarrow>
        if le_Version l0 = le_Version l
        then (None, w\<lparr>lw_lease := Some (l\<lparr>le_Version := le_Version l + 1\<rparr>), lw_log := (lw_now w, Some l0, l) # lw_log w\<rparr>)
        else (Some Conflict, w)),
     lc_Now = lw_now\<rparr>"

definition demo_lease :: Lease where
  "demo_lease = \<lparr>le_Name = ''x'', le_Holder = Some ''n2'', le_Duration = Some 30, le_Acquire = Some 100, le_Renew = Some 100,
     le_Version = 7\<rparr>"

definition lease_at :: "int \<Rightarrow> lease_world" where
  "lease_at t = \<lparr>lw_lease = Some demo_lease, lw_now = t, lw_log = []\<rparr>"

lemma store_client_create: "lc_Create store_client l w = (None, w2) \<Longrightarrow> \<exists>t ws. lw_log w2 = (t, None, l) # ws"
  by (auto simp: store_client_def split: if_splits)

lemma store_client_update: "lc_Get store_client n w = (Inr l, w1) \<Longrightarrow> le_Version l' = le_Version l \<Longrightarrow>
    lc_Update store_client l' w1 = (None, w2) \<Longrightarrow> \<exists>t ws. lw_log w2 = (t, Some l, l') # ws \<and> lc_Now store_client w1 \<le> t"
  by (auto simp: store_client_def split: if_splits option.splits)

theorem acquire_lease_exclusive_witness:
  "lease_win ''n1'' (lw_log (snd (acquireClusterPolicyLease store_client demo_wcfg ''p'' (lease_at 131))))
   \<and> \<not> fst (acquireClusterPolicyLease store_client demo_wcfg ''p'' (lease_at 130))"
proof -
  have "fst (acquireClusterPolicyLease store_client demo_wcfg ''p'' (lease_at 131)) = True" by code_simp
  then have "acquireClusterPolicyLease store_client demo_wcfg ''p'' (lease_at 131)
      = (True, snd (acquireClusterPolicyLease store_client demo_wcfg ''p'' (lease_at 131)))" by (metis prod.collapse)
  from acquire_lease_exclusive[where writes = lw_log, OF store_client_create store_client_update this]
  have "lease_win (wc_NodeName demo_wcfg) (lw_log (snd (acquireClusterPolicyLease store_client demo_wcfg ''p'' (lease_at 131))))" .
  moreover have "wc_NodeName demo_wcfg = ''n1''" by (simp add: demo_wcfg_def)
  moreover have "fst (acquireClusterPolicyLease store_client demo_wcfg ''p'' (lease_at 130)) = False" by code_simp
  ultimately show ?thesis by simp
qed

text \<open>A Pod with two policies of different delivery gets the host path volume only, yet the agent links the log
  path of the best effort container to the directory of an empty-dir volume that does not exist, so
  what the container writes is never read.\<close>

definition demo_mixed :: Pod where
  "demo_mixed = (case injectPod demo_selects demo_pod [demo_lpp 1 [demo_policy_of ''app'' ''access'' ''/logs'' [],
     demo_policy_of ''app'' ''debug'' ''/debug'' ''bestEffort'']] of Inl e \<Rightarrow> demo_pod | Inr p \<Rightarrow> p)"

theorem mixed_delivery_unread:
  "map vo_Source (po_Volumes demo_mixed) = [HostPath logHostPath]
   \<and> map vm_SubPathExpr (ct_VolumeMounts (hd (po_Containers demo_mixed)))
       = [''LogPilotPolicy/$(NAMESPACE)/$(POD_NAME)/$(POD_UID)/app/access'', ''app/debug'']
   \<and> (let cp = demo_policy_of ''app'' ''debug'' ''/debug'' ''bestEffort''; lp = logPath demo_wcfg demo_mixed cp
      in gm_get (hf_nodes (snd (ensureLogPath demo_mixed cp lp \<lparr>hf_nodes = [], hf_script = []\<rparr>))) lp
         = Some (HLink ''/var/lib/kubelet/pods/u1/volumes/kubernetes.io~empty-dir/log-pilot-logs/app/debug''))"
  by code_simp

end
