(* ===== verification/StatusServer.thy ===== *)
theory StatusServer
  imports Json
begin

text \<open>
  \<open>internal/log-pilot-agent/status/server.go\<close>: the map of runner statuses behind the \<open>/status\<close> endpoint. The
  lock makes every method atomic, so each is a function on the map. The order in which a Go map is
  walked is not fixed; \<open>ServeHTTP\<close> has it as an argument.
\<close>

record RunnerStatus =
  st_Name :: string
  st_Lag :: int
  st_Sent :: int

type_synonym Server = "(string, RunnerStatus) gomap"

definition NewServer :: Server where
  "NewServer = []"

definition UpdateRunner :: "string \<Rightarrow> int \<Rightarrow> int \<Rightarrow> Server \<Rightarrow> Server" where
  "UpdateRunner name lag sent s = gm_put name \<lparr>st_Name = name, st_Lag = lag, st_Sent = sent\<rparr> s"

definition RemoveRunner :: "string \<Rightarrow> Server \<Rightarrow> Server" where
  "RemoveRunner name s = gm_del name s"

definition IsDone :: "Server \<Rightarrow> bool" where
  "IsDone s = list_all (\<lambda>(k, r). \<not> 0 < st_Lag r) s"

definition enc_RunnerStatus :: "RunnerStatus \<Rightarrow> json" where
  "enc_RunnerStatus r =
     JObj [(''name'', JStr (st_Name r)), (''lag'', JNum (show_int (st_Lag r))), (''sent'', JNum (show_int (st_Sent r)))]"

definition enc_Response :: "RunnerStatus list \<Rightarrow> json" where
  "enc_Response rs = JObj [(''runners'', JArr (map enc_RunnerStatus rs))]"

text \<open>The body: the encoder of \<open>encoding/json\<close> ends it with a line feed.\<close>

definition ServeHTTP :: "((string \<times> RunnerStatus) list \<Rightarrow> (string \<times> RunnerStatus) list) \<Rightarrow> Server \<Rightarrow> string" where
  "ServeHTTP order s = json_print (enc_Response (map snd (order s))) @ [CHR 0x0A]"

end
