(* ===== verification/PodWatch.thy ===== *)
theory PodWatch
  imports Watcher StatusServer
begin

text \<open>
  \<open>internal/log-pilot-agent/watcher/watcher.go\<close>, the event loop: the goroutine of \<open>Start\<close>, which lists and
  watches the Pods of the node and reconciles the cluster policies, and the goroutines it starts, two
  per runner (its \<open>Run\<close> and its status ticker) and one per runner of a deleted Pod.

  A state holds the maps of the code, the runners ever started (\<open>ws_rs\<close>, a runner is its index), the
  program counters of the goroutines and the world behind the lease client. One turn of one goroutine
  is an \<open>action\<close>; \<open>act\<close> performs it, or is \<open>None\<close> when that goroutine is not at that point. What the API server
  answers, which events arrive and when, and which goroutine moves is the choice of the action, so a
  run of the agent is any list of actions. A handler of the main goroutine is one action (it is the
  only writer of the runner map and of the seen maps); the waits, which let others run, split actions.
\<close>

section \<open>State\<close>

datatype cluster_input = EventInput "string list" string | ObjectStateInput "string list" "string list"

text \<open>\<open>kp_Started\<close>: the inputs that were constructed, whose goroutines run from then on; \<open>kp_Input\<close>: the one
  the runner reads.\<close>

record ClusterPlan =
  kp_Name :: string
  kp_Started :: "cluster_input list"
  kp_Input :: cluster_input
  kp_Transforms :: "transform list"
  kp_Output :: sink
  kp_BatchLen :: int

datatype run_plan = PodRun RunnerPlan | ClusterRun ClusterPlan

datatype tick_pc = TickWait | TickFired | TickExited
datatype run_pc = Running | Returned | DoneClosed | RunExited
datatype del_pc = AtStop | AtWait | AtStatus | AtPath

record runner_state =
  rs_key :: string
  rs_plan :: run_plan
  rs_stopped :: bool
  rs_run :: run_pc
  rs_tick :: tick_pc

record runnerEntry =
  re_rid :: nat
  re_logPath :: string

record del_task =
  dt_rid :: nat
  dt_key :: string
  dt_path :: string
  dt_pc :: del_pc

text \<open>The main goroutine: the calls of \<open>Start\<close>, the loops of \<open>reconcileClusterPolicies\<close> over the listed policies
  (with the keys met so far) and over the keys that are gone, each with the point it goes on at, and
  the wait of \<open>stopRunner\<close>.\<close>

datatype main_pc =
    MInit
  | MOpen
  | MBackoff
  | MWatch
  | MResync
  | MReconcile main_pc
  | MItems "ClusterLogPilotPolicy list" "string list" main_pc
  | MGone "string list" main_pc
  | MWait nat string main_pc
  | MReturned "gerr option"

record 'w watch_state =
  ws_main :: main_pc
  ws_cancelled :: bool
  ws_seen :: "(string, bool) gomap"
  ws_clusterSeen :: "(string, bool) gomap"
  ws_runners :: "(string, runnerEntry) gomap"
  ws_status :: Server
  ws_rs :: "runner_state list"
  ws_tasks :: "del_task list"
  ws_host :: hostfs
  ws_world :: 'w

definition watch_init :: "hostfs \<Rightarrow> 'w \<Rightarrow> 'w watch_state" where
  "watch_init h w = \<lparr>ws_main = MInit, ws_cancelled = False, ws_seen = [], ws_clusterSeen = [], ws_runners = [],
     ws_status = NewServer, ws_rs = [], ws_tasks = [], ws_host = h, ws_world = w\<rparr>"

definition is_seen :: "(string, bool) gomap \<Rightarrow> string \<Rightarrow> bool" where
  "is_seen m k = (gm_get m k = Some True)"

definition rs_done :: "runner_state \<Rightarrow> bool" where
  "rs_done r = (rs_run r \<noteq> Running)"

definition upd_runner :: "nat \<Rightarrow> (runner_state \<Rightarrow> runner_state) \<Rightarrow> 'w watch_state \<Rightarrow> 'w watch_state" where
  "upd_runner i f s = s\<lparr>ws_rs := (ws_rs s)[i := f (ws_rs s ! i)]\<rparr>"

definition stop_rid :: "nat \<Rightarrow> 'w watch_state \<Rightarrow> 'w watch_state" where
  "stop_rid i s = upd_runner i (\<lambda>r. r\<lparr>rs_stopped := True\<rparr>) s"

section \<open>Pods\<close>

text \<open>Storing a runner in the map, starting its goroutines and the first status: the end of the loop body
  of \<open>OnPodAdd\<close> and of \<open>startClusterPolicyRunner\<close>.\<close>

definition start_runner :: "string \<Rightarrow> string \<Rightarrow> run_plan \<Rightarrow> int \<Rightarrow> 'w watch_state \<Rightarrow> 'w watch_state" where
  "start_runner key path plan lag s =
     s\<lparr>ws_rs := ws_rs s @ [\<lparr>rs_key = key, rs_plan = plan, rs_stopped = False, rs_run = Running, rs_tick = TickWait\<rparr>],
       ws_runners := gm_put key \<lparr>re_rid = length (ws_rs s), re_logPath = path\<rparr> (ws_runners s),
       ws_status := UpdateRunner key lag 0 (ws_status s)\<rparr>"

text \<open>The loop of \<open>OnPodAdd\<close>. A fresh directory input has lag 0.\<close>

fun add_policies ::
    "(string \<Rightarrow> bool) \<Rightarrow> WatcherConfig \<Rightarrow> Pod \<Rightarrow> ContainerPolicy list \<Rightarrow> bool \<Rightarrow> 'w watch_state \<Rightarrow> bool \<times> 'w watch_state" where
  "add_policies pem_ok cfg pod [] allReady s = (allReady, s)"
| "add_policies pem_ok cfg pod (cp # cps) allReady s =
     (let key = runnerKey (om_UID (po_Meta pod)) (cp_Name cp) (cp_LogType cp); path = logPath cfg pod cp
      in if gm_get (ws_runners s) key \<noteq> None then add_policies pem_ok cfg pod cps allReady s
         else (case ensureLogPath pod cp path (ws_host s) of
             (Some e, h) \<Rightarrow> add_policies pem_ok cfg pod cps False (s\<lparr>ws_host := h\<rparr>)
           | (None, h) \<Rightarrow>
               (case buildRunner pem_ok cp path (om_UID (po_Meta pod)) cfg of
                  Inl e \<Rightarrow> add_policies pem_ok cfg pod cps False (s\<lparr>ws_host := h\<rparr>)
                | Inr plan \<Rightarrow> add_policies pem_ok cfg pod cps allReady (start_runner key path (PodRun plan) 0 (s\<lparr>ws_host := h\<rparr>)))))"

definition OnPodAdd :: "(string \<Rightarrow> bool) \<Rightarrow> WatcherConfig \<Rightarrow> Pod \<Rightarrow> 'w watch_state \<Rightarrow> bool \<times> 'w watch_state" where
  "OnPodAdd pem_ok cfg pod s =
     (case parsePoliciesFromPod pod of
        None \<Rightarrow> (True, s)
      | Some [] \<Rightarrow> (True, s)
      | Some policies \<Rightarrow> add_policies pem_ok cfg pod policies True s)"

definition pod_key :: "string \<Rightarrow> string \<Rightarrow> bool" where
  "pod_key uid key = (take (Suc (length uid)) key = uid @ ''/'')"

definition onPodDeleted :: "string \<Rightarrow> 'w watch_state \<Rightarrow> 'w watch_state" where
  "onPodDeleted uid s =
     s\<lparr>ws_runners := filter (\<lambda>(k, e). \<not> pod_key uid k) (ws_runners s),
       ws_tasks := ws_tasks s @ map (\<lambda>(k, e). \<lparr>dt_rid = re_rid e, dt_key = k, dt_path = re_logPath e, dt_pc = AtStop\<rparr>)
         (filter (\<lambda>(k, e). pod_key uid k) (ws_runners s))\<rparr>"

definition see_pod :: "(string \<Rightarrow> bool) \<Rightarrow> WatcherConfig \<Rightarrow> Pod \<Rightarrow> 'w watch_state \<Rightarrow> 'w watch_state" where
  "see_pod pem_ok cfg pod s =
     (let uid = om_UID (po_Meta pod)
      in if is_seen (ws_seen s) uid then s
         else (case OnPodAdd pem_ok cfg pod s of
             (True, s') \<Rightarrow> s'\<lparr>ws_seen := gm_put uid True (ws_seen s')\<rparr>
           | (False, s') \<Rightarrow> s'))"

definition forget_pod :: "string \<Rightarrow> 'w watch_state \<Rightarrow> 'w watch_state" where
  "forget_pod uid s = onPodDeleted uid (s\<lparr>ws_seen := gm_del uid (ws_seen s)\<rparr>)"

definition syncPods :: "(string \<Rightarrow> bool) \<Rightarrow> WatcherConfig \<Rightarrow> Pod list \<Rightarrow> 'w watch_state \<Rightarrow> 'w watch_state" where
  "syncPods pem_ok cfg pods s =
     (let s1 = fold (see_pod pem_ok cfg) pods s; current = map (\<lambda>p. om_UID (po_Meta p)) pods
      in fold forget_pod (filter (\<lambda>uid. uid \<notin> set current) (map fst (ws_seen s1))) s1)"

datatype event_type = Added | Modified | Deleted | Bookmark | ErrorEvent

record w_event =
  ev_type :: event_type
  ev_pod :: "Pod option"

text \<open>One event of \<open>consumePodWatch\<close>; \<open>True\<close> when it ends the loop with an error. An event whose object is
  no Pod, as that of an error event of the API server, is skipped before its type is looked at.\<close>

definition handle_event :: "(string \<Rightarrow> bool) \<Rightarrow> WatcherConfig \<Rightarrow> w_event \<Rightarrow> 'w watch_state \<Rightarrow> bool \<times> 'w watch_state" where
  "handle_event pem_ok cfg ev s =
     (case ev_pod ev of
        None \<Rightarrow> (False, s)
      | Some pod \<Rightarrow>
          (case ev_type ev of
             Added \<Rightarrow> (False, see_pod pem_ok cfg pod s)
           | Modified \<Rightarrow> (False, see_pod pem_ok cfg pod s)
           | Deleted \<Rightarrow> (False, forget_pod (om_UID (po_Meta pod)) s)
           | ErrorEvent \<Rightarrow> (True, s)
           | Bookmark \<Rightarrow> (False, s)))"

section \<open>Cluster policies\<close>

definition clusterKey :: "ClusterLogPilotPolicy \<Rightarrow> string" where
  "clusterKey policy = ''ClusterLogPilotPolicy/'' @ om_Name (cc_Meta policy)"

definition cluster_plan :: "(string \<Rightarrow> bool) \<Rightarrow> WatcherConfig \<Rightarrow> ClusterLogPilotPolicy \<Rightarrow> string \<Rightarrow> factory_error + ClusterPlan" where
  "cluster_plan pem_ok cfg policy key =
     (let spec = cc_Spec policy; inp = cs_Input spec; namespaces = extractStringSlice (in_Config inp) ''namespaces'';
          ev = EventInput namespaces (path_join [wc_MetaDir cfg, key, ''resource-version''])
      in case NewSliceFromSpecs (cs_Transforms spec) of
           Inl e \<Rightarrow> Inl e
         | Inr ts \<Rightarrow>
             (case NewOutput pem_ok (cs_Output spec) of
                Inl e \<Rightarrow> Inl e
              | Inr out \<Rightarrow>
                  (let started = (if in_Type inp = ''k8sObjectState''
                         then [ev, ObjectStateInput namespaces (extractStringSlice (in_Config inp) ''resources'')] else [ev])
                   in Inr \<lparr>kp_Name = key, kp_Started = started, kp_Input = last started, kp_Transforms = ts, kp_Output = out,
                        kp_BatchLen = (if in_BatchLen inp = 0 then 1000 else in_BatchLen inp)\<rparr>)))"

definition startClusterPolicyRunner ::
    "(string \<Rightarrow> bool) \<Rightarrow> WatcherConfig \<Rightarrow> int \<Rightarrow> ClusterLogPilotPolicy \<Rightarrow> string \<Rightarrow> 'w watch_state \<Rightarrow> bool \<times> 'w watch_state" where
  "startClusterPolicyRunner pem_ok cfg lag policy key s =
     (if in_Type (cs_Input (cc_Spec policy)) \<notin> {''k8sEvent'', ''k8sObjectState''} then (True, s)
      else if gm_get (ws_runners s) key \<noteq> None then (True, s)
      else (case cluster_plan pem_ok cfg policy key of
          Inl e \<Rightarrow> (False, s)
        | Inr plan \<Rightarrow> (True, start_runner key [] (ClusterRun plan) lag s)))"

text \<open>\<open>stopRunner\<close> up to its wait; a key without runner is only taken from the seen map by its callers.\<close>

definition stopRunner :: "string \<Rightarrow> main_pc \<Rightarrow> 'w watch_state \<Rightarrow> 'w watch_state" where
  "stopRunner key nxt s =
     (case gm_get (ws_runners s) key of
        None \<Rightarrow> s\<lparr>ws_clusterSeen := gm_del key (ws_clusterSeen s), ws_main := nxt\<rparr>
      | Some e \<Rightarrow> (stop_rid (re_rid e) s)\<lparr>ws_runners := gm_del key (ws_runners s), ws_main := MWait (re_rid e) key nxt\<rparr>)"

definition stopRunner_end :: "string \<Rightarrow> main_pc \<Rightarrow> 'w watch_state \<Rightarrow> 'w watch_state" where
  "stopRunner_end key nxt s =
     s\<lparr>ws_status := RemoveRunner key (ws_status s), ws_clusterSeen := gm_del key (ws_clusterSeen s), ws_main := nxt\<rparr>"

text \<open>One turn of the first loop of \<open>reconcileClusterPolicies\<close>.\<close>

definition cluster_item ::
    "(string \<Rightarrow> bool) \<Rightarrow> WatcherConfig \<Rightarrow> 'w lease_client \<Rightarrow> int \<Rightarrow> ClusterLogPilotPolicy \<Rightarrow> main_pc \<Rightarrow> 'w watch_state \<Rightarrow> 'w watch_state" where
  "cluster_item pem_ok cfg cl lag policy nxt s =
     (let key = clusterKey policy in
      case acquireClusterPolicyLease cl cfg (om_Name (cc_Meta policy)) (ws_world s) of
        (False, w) \<Rightarrow>
          (if is_seen (ws_clusterSeen s) key then stopRunner key nxt (s\<lparr>ws_world := w\<rparr>)
           else s\<lparr>ws_world := w, ws_main := nxt\<rparr>)
      | (True, w) \<Rightarrow>
          (if is_seen (ws_clusterSeen s) key then s\<lparr>ws_world := w, ws_main := nxt\<rparr>
           else (case startClusterPolicyRunner pem_ok cfg lag policy key (s\<lparr>ws_world := w, ws_main := nxt\<rparr>) of
               (True, s') \<Rightarrow> s'\<lparr>ws_clusterSeen := gm_put key True (ws_clusterSeen s')\<rparr>
             | (False, s') \<Rightarrow> s')))"

section \<open>Actions\<close>

datatype 'w action =
    AListPods "gerr + Pod list"
  | AListPolicies "gerr + ClusterLogPilotPolicy list"
  | AItem int
  | AOpenWatch bool
  | ABackoffOver
  | AEvent w_event
  | AClosed
  | ATicker
  | ASeeCancel
  | AWaitOver
  | ACancel
  | AWorld 'w
  | ATickFire nat
  | ATickUpdate nat int int
  | ATickExit nat
  | ARunReturn nat
  | ARunClose nat
  | ARunRemove nat
  | ATask nat
  | AStopAll

definition list_pods :: "(string \<Rightarrow> bool) \<Rightarrow> WatcherConfig \<Rightarrow> gerr + Pod list \<Rightarrow> 'w watch_state \<Rightarrow> 'w watch_state option" where
  "list_pods pem_ok cfg res s =
     (case (ws_main s, res) of
        (MInit, Inl e) \<Rightarrow> Some (s\<lparr>ws_main := MReturned (Some e)\<rparr>)
      | (MInit, Inr pods) \<Rightarrow> Some ((syncPods pem_ok cfg pods s)\<lparr>ws_main := MReconcile MOpen\<rparr>)
      | (MResync, Inl e) \<Rightarrow> Some (s\<lparr>ws_main := (if ws_cancelled s then MReturned None else MOpen)\<rparr>)
      | (MResync, Inr pods) \<Rightarrow> Some ((syncPods pem_ok cfg pods s)\<lparr>ws_main := MOpen\<rparr>)
      | _ \<Rightarrow> None)"

definition list_policies :: "gerr + ClusterLogPilotPolicy list \<Rightarrow> 'w watch_state \<Rightarrow> 'w watch_state option" where
  "list_policies res s =
     (case (ws_main s, res) of
        (MReconcile nxt, Inl e) \<Rightarrow> Some (s\<lparr>ws_main := nxt\<rparr>)
      | (MReconcile nxt, Inr ps) \<Rightarrow> Some (s\<lparr>ws_main := MItems ps [] nxt\<rparr>)
      | _ \<Rightarrow> None)"

definition reconcile_turn ::
    "(string \<Rightarrow> bool) \<Rightarrow> WatcherConfig \<Rightarrow> 'w lease_client \<Rightarrow> int \<Rightarrow> 'w watch_state \<Rightarrow> 'w watch_state option" where
  "reconcile_turn pem_ok cfg cl lag s =
     (case ws_main s of
        MItems (p # ps) current nxt \<Rightarrow> Some (cluster_item pem_ok cfg cl lag p (MItems ps (clusterKey p # current) nxt) s)
      | MItems [] current nxt \<Rightarrow>
          Some (s\<lparr>ws_main := MGone (filter (\<lambda>k. k \<notin> set current) (map fst (ws_clusterSeen s))) nxt\<rparr>)
      | MGone (k # ks) nxt \<Rightarrow> Some (stopRunner k (MGone ks nxt) s)
      | MGone [] nxt \<Rightarrow> Some (s\<lparr>ws_main := nxt\<rparr>)
      | _ \<Rightarrow> None)"

text \<open>\<open>Watch\<close> answers; an error ends \<open>Start\<close> when the context is cancelled and is retried after 5 seconds otherwise.\<close>

definition open_watch :: "bool \<Rightarrow> 'w watch_state \<Rightarrow> 'w watch_state option" where
  "open_watch ok s =
     (if ws_main s \<noteq> MOpen then None
      else Some (s\<lparr>ws_main := (if ok then MWatch else if ws_cancelled s then MReturned None else MBackoff)\<rparr>))"

text \<open>\<open>consumePodWatch\<close> failed: \<open>Start\<close> returns when the context is cancelled, else it lists again.\<close>

definition consume_failed :: "'w watch_state \<Rightarrow> 'w watch_state" where
  "consume_failed s = s\<lparr>ws_main := (if ws_cancelled s then MReturned None else MResync)\<rparr>"

definition watch_turn :: "(string \<Rightarrow> bool) \<Rightarrow> WatcherConfig \<Rightarrow> w_event option \<Rightarrow> 'w watch_state \<Rightarrow> 'w watch_state option" where
  "watch_turn pem_ok cfg ev s =
     (if ws_main s \<noteq> MWatch then None
      else (case ev of
          None \<Rightarrow> Some (consume_failed s)
        | Some e \<Rightarrow> (case handle_event pem_ok cfg e s of (True, s') \<Rightarrow> Some (consume_failed s') | (False, s') \<Rightarrow> Some s')))"

text \<open>One turn of the goroutine of \<open>onPodDeleted\<close>; its wait ends when the runner is done or after 30 seconds.\<close>

definition task_turn :: "nat \<Rightarrow> 'w watch_state \<Rightarrow> 'w watch_state option" where
  "task_turn j s =
     (if length (ws_tasks s) \<le> j then None
      else
        (let t = ws_tasks s ! j; at = (\<lambda>pc s. s\<lparr>ws_tasks := (ws_tasks s)[j := t\<lparr>dt_pc := pc\<rparr>]\<rparr>)
         in Some (case dt_pc t of
              AtStop \<Rightarrow> at AtWait (stop_rid (dt_rid t) s)
            | AtWait \<Rightarrow> at AtStatus s
            | AtStatus \<Rightarrow> at AtPath (s\<lparr>ws_status := RemoveRunner (dt_key t) (ws_status s)\<rparr>)
            | AtPath \<Rightarrow> s\<lparr>ws_host := removeLogPath (dt_path t) (ws_host s), ws_tasks := take j (ws_tasks s) @ drop (Suc j) (ws_tasks s)\<rparr>)))"

text \<open>The signal loop of \<open>StopAll\<close>.\<close>

definition StopAll :: "'w watch_state \<Rightarrow> 'w watch_state" where
  "StopAll s = fold (\<lambda>(k, e). stop_rid (re_rid e)) (ws_runners s) s"

text \<open>A turn of one of the two goroutines of runner \<open>i\<close>: guard and effect.\<close>

definition runner_turn ::
    "nat \<Rightarrow> (runner_state \<Rightarrow> bool) \<Rightarrow> (runner_state \<Rightarrow> runner_state) \<Rightarrow> (Server \<Rightarrow> Server) \<Rightarrow> 'w watch_state \<Rightarrow> 'w watch_state option" where
  "runner_turn i guard f g s =
     (if i < length (ws_rs s) \<and> guard (ws_rs s ! i) then Some ((upd_runner i f s)\<lparr>ws_status := g (ws_status s)\<rparr>) else None)"

fun act :: "(string \<Rightarrow> bool) \<Rightarrow> WatcherConfig \<Rightarrow> 'w lease_client \<Rightarrow> 'w action \<Rightarrow> 'w watch_state \<Rightarrow> 'w watch_state option" where
  "act pem_ok cfg cl (AListPods res) s = list_pods pem_ok cfg res s"
| "act pem_ok cfg cl (AListPolicies res) s = list_policies res s"
| "act pem_ok cfg cl (AItem lag) s = reconcile_turn pem_ok cfg cl lag s"
| "act pem_ok cfg cl (AOpenWatch ok) s = open_watch ok s"
| "act pem_ok cfg cl ABackoffOver s = (if ws_main s = MBackoff then Some (s\<lparr>ws_main := MOpen\<rparr>) else None)"
| "act pem_ok cfg cl (AEvent e) s = watch_turn pem_ok cfg (Some e) s"
| "act pem_ok cfg cl AClosed s = watch_turn pem_ok cfg None s"
| "act pem_ok cfg cl ATicker s = (if ws_main s = MWatch then Some (s\<lparr>ws_main := MReconcile MWatch\<rparr>) else None)"
| "act pem_ok cfg cl ASeeCancel s =
     (if ws_cancelled s \<and> ws_main s \<in> {MBackoff, MWatch} then Some (s\<lparr>ws_main := MReturned None\<rparr>) else None)"
| "act pem_ok cfg cl AWaitOver s =
     (case ws_main s of MWait i key nxt \<Rightarrow> Some (stopRunner_end key nxt s) | _ \<Rightarrow> None)"
| "act pem_ok cfg cl ACancel s = Some (s\<lparr>ws_cancelled := True\<rparr>)"
| "act pem_ok cfg cl (AWorld w) s = Some (s\<lparr>ws_world := w\<rparr>)"
| "act pem_ok cfg cl (ATickFire i) s =
     runner_turn i (\<lambda>r. rs_tick r = TickWait) (\<lambda>r. r\<lparr>rs_tick := TickFired\<rparr>) id s"
| "act pem_ok cfg cl (ATickUpdate i lag sent) s =
     runner_turn i (\<lambda>r. rs_tick r = TickFired) (\<lambda>r. r\<lparr>rs_tick := TickWait\<rparr>) (UpdateRunner (rs_key (ws_rs s ! i)) lag sent) s"
| "act pem_ok cfg cl (ATickExit i) s =
     runner_turn i (\<lambda>r. rs_tick r = TickWait \<and> rs_run r \<in> {DoneClosed, RunExited}) (\<lambda>r. r\<lparr>rs_tick := TickExited\<rparr>) id s"
| "act pem_ok cfg cl (ARunReturn i) s =
     runner_turn i (\<lambda>r. rs_run r = Running \<and> rs_stopped r) (\<lambda>r. r\<lparr>rs_run := Returned\<rparr>) id s"
| "act pem_ok cfg cl (ARunClose i) s =
     runner_turn i (\<lambda>r. rs_run r = Returned) (\<lambda>r. r\<lparr>rs_run := DoneClosed\<rparr>) id s"
| "act pem_ok cfg cl (ARunRemove i) s =
     runner_turn i (\<lambda>r. rs_run r = DoneClosed) (\<lambda>r. r\<lparr>rs_run := RunExited\<rparr>) (RemoveRunner (rs_key (ws_rs s ! i))) s"
| "act pem_ok cfg cl (ATask j) s = task_turn j s"
| "act pem_ok cfg cl AStopAll s = Some (StopAll s)"

fun acts :: "(string \<Rightarrow> bool) \<Rightarrow> WatcherConfig \<Rightarrow> 'w lease_client \<Rightarrow> 'w action list \<Rightarrow> 'w watch_state \<Rightarrow> 'w watch_state option" where
  "acts pem_ok cfg cl [] s = Some s"
| "acts pem_ok cfg cl (a # as) s = (case act pem_ok cfg cl a s of None \<Rightarrow> None | Some s' \<Rightarrow> acts pem_ok cfg cl as s')"

inductive watch_step :: "(string \<Rightarrow> bool) \<Rightarrow> WatcherConfig \<Rightarrow> 'w lease_client \<Rightarrow> 'w watch_state \<Rightarrow> 'w watch_state \<Rightarrow> bool"
  for pem_ok cfg cl where
  turn: "act pem_ok cfg cl a s = Some s' \<Longrightarrow> watch_step pem_ok cfg cl s s'"

inductive watch_reach :: "(string \<Rightarrow> bool) \<Rightarrow> WatcherConfig \<Rightarrow> 'w lease_client \<Rightarrow> 'w watch_state \<Rightarrow> bool"
  for pem_ok cfg cl where
  start: "watch_reach pem_ok cfg cl (watch_init h w)"
| more: "watch_reach pem_ok cfg cl s \<Longrightarrow> watch_step pem_ok cfg cl s s' \<Longrightarrow> watch_reach pem_ok cfg cl s'"

end
