(* ===== verification/PodInvariant.thy ===== *)
theory PodInvariant
  imports PodWatch
begin

text \<open>
  Invariants of the event loop of \<open>PodWatch\<close>: \<open>runners_inv\<close> ties the runner map, the runners and the deletion
  goroutines together, and every action keeps it (\<open>winv_act\<close>); \<open>act_frame\<close> says which actions can take a Pod's
  runners out of the map. Both are lifted to runs by induction over the reachable states and the
  list of actions.
\<close>

inductive_cases watch_stepE: "watch_step pem_ok cfg cl s s'"

section \<open>No runner without an owner\<close>

lemma gm_get_filter: "gm_get (filter (\<lambda>(k, e). P k) m) k = (if P k then gm_get m k else None)"
  by (induction m) (auto simp: gm_get_Cons)

text \<open>Runner \<open>i\<close> is owned when the map leads to it under its key, or a deletion is about to stop it.\<close>

definition owned :: "(string, runnerEntry) gomap \<Rightarrow> runner_state list \<Rightarrow> del_task list \<Rightarrow> nat \<Rightarrow> bool" where
  "owned m rs ts i = ((\<exists>e. gm_get m (rs_key (rs ! i)) = Some e \<and> re_rid e = i) \<or> (\<exists>t\<in>set ts. dt_rid t = i \<and> dt_pc t = AtStop))"

definition entry_ok :: "(string, runnerEntry) gomap \<Rightarrow> runner_state list \<Rightarrow> bool" where
  "entry_ok m rs = (\<forall>k e. gm_get m k = Some e \<longrightarrow> re_rid e < length rs \<and> rs_key (rs ! re_rid e) = k)"

definition task_ok :: "runner_state list \<Rightarrow> del_task list \<Rightarrow> bool" where
  "task_ok rs ts = (\<forall>t\<in>set ts. dt_rid t < length rs \<and> rs_key (rs ! dt_rid t) = dt_key t)"

definition runners_inv :: "(string, runnerEntry) gomap \<Rightarrow> runner_state list \<Rightarrow> del_task list \<Rightarrow> bool" where
  "runners_inv m rs ts =
     (gm_wf m \<and> entry_ok m rs \<and> task_ok rs ts
      \<and> (\<forall>i<length rs. rs_stopped (rs ! i) \<or> rs_run (rs ! i) = Running \<and> owned m rs ts i))"

abbreviation winv :: "'w watch_state \<Rightarrow> bool" where
  "winv s \<equiv> runners_inv (ws_runners s) (ws_rs s) (ws_tasks s)"

lemma runners_inv_start:
  assumes "runners_inv m rs ts" "gm_get m key = None"
  shows "runners_inv (gm_put key \<lparr>re_rid = length rs, re_logPath = p\<rparr> m)
     (rs @ [\<lparr>rs_key = key, rs_plan = pl, rs_stopped = False, rs_run = Running, rs_tick = TickWait\<rparr>]) ts"
  (is "runners_inv ?m ?rs ts")
proof -
  have "entry_ok ?m ?rs" using assms by (auto simp: runners_inv_def entry_ok_def gomap_simps nth_append intro: less_SucI)
  moreover have "task_ok ?rs ts" using assms by (auto simp: runners_inv_def task_ok_def nth_append intro: less_SucI)
  moreover have "rs_stopped (?rs ! i) \<or> rs_run (?rs ! i) = Running \<and> owned ?m ?rs ts i" if "i < length ?rs" for i
  proof (cases "i < length rs")
    case True
    with assms show ?thesis by (auto simp: runners_inv_def owned_def gomap_simps nth_append)
  next
    case False
    with that have "i = length rs" by simp
    then show ?thesis by (simp add: owned_def gomap_simps)
  qed
  ultimately show ?thesis using assms by (simp add: runners_inv_def)
qed

lemma runners_inv_delete:
  assumes "runners_inv m rs ts"
  shows "runners_inv (filter (\<lambda>(k, e). \<not> pod_key uid k) m) rs
     (ts @ map (\<lambda>(k, e). \<lparr>dt_rid = re_rid e, dt_key = k, dt_path = re_logPath e, dt_pc = AtStop\<rparr>)
        (filter (\<lambda>(k, e). pod_key uid k) m))"
  (is "runners_inv ?m rs (ts @ ?new)")
proof -
  have wf: "gm_wf m" and e: "entry_ok m rs" using assms by (simp_all add: runners_inv_def)
  have "entry_ok ?m rs" using e by (auto simp: entry_ok_def gm_get_filter split: if_splits)
  moreover have "task_ok rs (ts @ ?new)"
    using assms e by (auto simp: runners_inv_def task_ok_def entry_ok_def gm_get_in_set[OF wf])
  moreover have "owned ?m rs (ts @ ?new) i" if "owned m rs ts i" for i
  proof (cases "\<exists>t\<in>set ts. dt_rid t = i \<and> dt_pc t = AtStop")
    case True
    then show ?thesis by (auto simp: owned_def)
  next
    case False
    with that obtain en where en: "gm_get m (rs_key (rs ! i)) = Some en" "re_rid en = i" by (auto simp: owned_def)
    show ?thesis
    proof (cases "pod_key uid (rs_key (rs ! i))")
      case True
      with en have "\<lparr>dt_rid = i, dt_key = rs_key (rs ! i), dt_path = re_logPath en, dt_pc = AtStop\<rparr> \<in> set ?new"
        using gm_get_in_set[OF wf] by force
      then show ?thesis unfolding owned_def by force
    next
      case False
      with en show ?thesis by (auto simp: owned_def gm_get_filter)
    qed
  qed
  ultimately show ?thesis using assms by (auto simp: runners_inv_def gm_wf_filter)
qed

text \<open>A step of a runner that keeps its key, and stays stopped or comes to be stopped or goes on running.\<close>

lemma runners_inv_upd:
  assumes "runners_inv m rs ts" "rs_key (f (rs ! i)) = rs_key (rs ! i)"
    and "rs_stopped (f (rs ! i)) \<or> \<not> rs_stopped (rs ! i) \<and> rs_run (f (rs ! i)) = rs_run (rs ! i)"
  shows "runners_inv m (rs[i := f (rs ! i)]) ts"
proof -
  have k: "rs_key (rs[i := f (rs ! i)] ! j) = rs_key (rs ! j)" for j
    using assms(2) by (cases "j = i"; cases "i < length rs") (auto simp: list_update_beyond)
  have "owned m (rs[i := f (rs ! i)]) ts = owned m rs ts" by (simp add: fun_eq_iff owned_def k)
  moreover have "rs_stopped (rs[i := f (rs ! i)] ! j) \<or> rs_run (rs[i := f (rs ! i)] ! j) = Running \<and> owned m rs ts j"
    if "j < length rs" for j
  proof (cases "j = i")
    case True
    with assms that show ?thesis by (auto simp: runners_inv_def)
  next
    case False
    with assms(1) that show ?thesis by (auto simp: runners_inv_def)
  qed
  ultimately show ?thesis using assms(1) by (auto simp: runners_inv_def entry_ok_def task_ok_def k)
qed

lemma runners_inv_unmap:
  assumes "runners_inv m rs ts" "gm_get m key = Some e"
  shows "runners_inv (gm_del key m) (rs[re_rid e := (rs ! re_rid e)\<lparr>rs_stopped := True\<rparr>]) ts"
proof -
  let ?rs = "rs[re_rid e := (rs ! re_rid e)\<lparr>rs_stopped := True\<rparr>]"
  have i: "runners_inv m ?rs ts" by (rule runners_inv_upd[OF assms(1)]) simp_all
  have "re_rid e < length rs" "rs_key (rs ! re_rid e) = key" using assms by (auto simp: runners_inv_def entry_ok_def)
  then have st: "rs_stopped (?rs ! re_rid e)" by simp
  have "rs_stopped (?rs ! j) \<or> rs_run (?rs ! j) = Running \<and> owned (gm_del key m) ?rs ts j" if "j < length ?rs" for j
  proof (cases "j = re_rid e")
    case False
    from i that have "rs_stopped (?rs ! j) \<or> rs_run (?rs ! j) = Running \<and> owned m ?rs ts j" by (simp add: runners_inv_def)
    moreover have "owned m ?rs ts j \<Longrightarrow> owned (gm_del key m) ?rs ts j"
      using False assms(2) by (auto simp: owned_def gomap_simps)
    ultimately show ?thesis by blast
  qed (use st in simp)
  then show ?thesis using i by (auto simp: runners_inv_def entry_ok_def gomap_simps)
qed

text \<open>A deletion takes its runner over when it stops it, and then only waits and cleans up.\<close>

lemma runners_inv_tasks:
  assumes "runners_inv m rs ts" "task_ok rs ts'"
    and "\<And>u. u \<in> set ts \<Longrightarrow> dt_pc u = AtStop \<Longrightarrow> u \<in> set ts' \<or> rs_stopped (rs ! dt_rid u)"
  shows "runners_inv m rs ts'"
  using assms unfolding runners_inv_def owned_def by blast

lemma set_list_update_other: "u \<in> set xs \<Longrightarrow> u \<noteq> xs ! j \<Longrightarrow> u \<in> set (xs[j := x])"
  by (metis in_set_conv_nth length_list_update nth_list_update_neq)

lemma runners_inv_task_pc:
  assumes "runners_inv m rs ts" "j < length ts" "dt_pc (ts ! j) \<noteq> AtStop \<or> rs_stopped (rs ! dt_rid (ts ! j))"
  shows "runners_inv m rs (ts[j := (ts ! j)\<lparr>dt_pc := pc\<rparr>])"
proof (rule runners_inv_tasks[OF assms(1)])
  show "task_ok rs (ts[j := (ts ! j)\<lparr>dt_pc := pc\<rparr>])"
    using assms(1,2) by (auto simp: runners_inv_def task_ok_def dest!: subsetD[OF set_update_subset_insert])
  show "u \<in> set (ts[j := (ts ! j)\<lparr>dt_pc := pc\<rparr>]) \<or> rs_stopped (rs ! dt_rid u)" if "u \<in> set ts" "dt_pc u = AtStop" for u
    using assms(3) that by (cases "u = ts ! j") (auto intro: set_list_update_other)
qed

lemma runners_inv_task_drop:
  assumes "runners_inv m rs ts" "j < length ts" "dt_pc (ts ! j) \<noteq> AtStop"
  shows "runners_inv m rs (take j ts @ drop (Suc j) ts)"
proof (rule runners_inv_tasks[OF assms(1)])
  show "task_ok rs (take j ts @ drop (Suc j) ts)"
    using assms(1) by (auto simp: runners_inv_def task_ok_def dest: in_set_takeD in_set_dropD)
  have "set ts = set (take j ts @ ts ! j # drop (Suc j) ts)" using id_take_nth_drop[OF assms(2)] by simp
  then show "u \<in> set (take j ts @ drop (Suc j) ts) \<or> rs_stopped (rs ! dt_rid u)" if "u \<in> set ts" "dt_pc u = AtStop" for u
    using assms(3) that by auto
qed

section \<open>Every action keeps it\<close>

lemma winv_start: "winv s \<Longrightarrow> gm_get (ws_runners s) key = None \<Longrightarrow> winv (start_runner key path plan lag s)"
  by (simp add: start_runner_def runners_inv_start)

lemma winv_add_policies: "winv s \<Longrightarrow> add_policies pem_ok cfg pod cps b s = (r, s') \<Longrightarrow> winv s'"
  by (induction pem_ok cfg pod cps b s rule: add_policies.induct)
    (auto simp: Let_def winv_start split: if_splits option.splits prod.splits sum.splits)

lemma winv_OnPodAdd: "winv s \<Longrightarrow> OnPodAdd pem_ok cfg pod s = (r, s') \<Longrightarrow> winv s'"
  by (auto simp: OnPodAdd_def simp del: add_policies.simps split: option.splits list.splits dest: winv_add_policies)

lemma winv_see: "winv s \<Longrightarrow> winv (see_pod pem_ok cfg pod s)"
  by (auto simp: see_pod_def Let_def split: prod.splits bool.splits dest: winv_OnPodAdd)

lemma winv_forget: "winv s \<Longrightarrow> winv (forget_pod uid s)"
  by (simp add: forget_pod_def onPodDeleted_def runners_inv_delete)

lemma winv_fold: "(\<And>x s. winv s \<Longrightarrow> winv (f x s)) \<Longrightarrow> winv s \<Longrightarrow> winv (fold f xs s)"
  by (induction xs arbitrary: s) auto

lemma winv_sync: "winv s \<Longrightarrow> winv (syncPods pem_ok cfg pods s)"
  by (simp add: syncPods_def Let_def winv_fold winv_see winv_forget)

lemma winv_stop_rid: "winv s \<Longrightarrow> winv (stop_rid i s)"
  by (simp add: stop_rid_def upd_runner_def runners_inv_upd)

lemma winv_stopRunner: "winv s \<Longrightarrow> winv (stopRunner key nxt s)"
  by (auto simp: stopRunner_def stop_rid_def upd_runner_def runners_inv_unmap split: option.split)

lemma winv_cluster_item: "winv s \<Longrightarrow> winv (cluster_item pem_ok cfg cl lag policy nxt s)"
  by (auto simp: cluster_item_def Let_def startClusterPolicyRunner_def winv_stopRunner winv_start
      split: prod.splits bool.splits if_splits sum.splits)

lemma winv_handle: "winv s \<Longrightarrow> handle_event pem_ok cfg e s = (b, s') \<Longrightarrow> winv s'"
  by (auto simp: handle_event_def winv_see winv_forget split: option.splits event_type.splits)

lemma winv_runner_turn:
  assumes "winv s" "runner_turn i guard f g s = Some s'"
    and "\<And>r. guard r \<Longrightarrow> rs_stopped r \<or> rs_run r = Running \<Longrightarrow> rs_key (f r) = rs_key r \<and> (rs_stopped (f r) \<or> \<not> rs_stopped r \<and> rs_run (f r) = rs_run r)"
  shows "winv s'"
proof -
  from assms(2) have i: "i < length (ws_rs s)" "guard (ws_rs s ! i)"
    and s': "s' = (upd_runner i f s)\<lparr>ws_status := g (ws_status s)\<rparr>" by (auto simp: runner_turn_def split: if_splits)
  with assms(1) have "rs_stopped (ws_rs s ! i) \<or> rs_run (ws_rs s ! i) = Running" by (auto simp: runners_inv_def)
  from assms(3)[OF i(2) this] show ?thesis using assms(1) by (simp add: s' upd_runner_def runners_inv_upd)
qed

lemma winv_task:
  assumes "winv s" "task_turn j s = Some s'"
  shows "winv s'"
proof (cases "dt_pc (ws_tasks s ! j)")
  case AtStop
  let ?i = "dt_rid (ws_tasks s ! j)"
  have j: "j < length (ws_tasks s)" using assms(2) by (auto simp: task_turn_def split: if_splits)
  then have "?i < length (ws_rs s)" using assms(1) by (auto simp: runners_inv_def task_ok_def)
  moreover have "runners_inv (ws_runners s) ((ws_rs s)[?i := (ws_rs s ! ?i)\<lparr>rs_stopped := True\<rparr>]) (ws_tasks s)"
    by (rule runners_inv_upd[OF assms(1)]) simp_all
  ultimately show ?thesis using assms(2) j AtStop
    by (auto simp: task_turn_def Let_def stop_rid_def upd_runner_def intro!: runners_inv_task_pc)
qed (use assms in \<open>auto simp: task_turn_def Let_def runners_inv_task_drop intro!: runners_inv_task_pc split: if_splits\<close>)

lemma winv_StopAll: "winv s \<Longrightarrow> winv (StopAll s)"
  unfolding StopAll_def by (rule winv_fold) (auto simp: winv_stop_rid)

lemma winv_list_pods: "winv s \<Longrightarrow> list_pods pem_ok cfg res s = Some s' \<Longrightarrow> winv s'"
  by (cases "ws_main s"; cases res) (auto simp: list_pods_def winv_sync)

lemma winv_list_policies: "winv s \<Longrightarrow> list_policies res s = Some s' \<Longrightarrow> winv s'"
  by (cases "ws_main s"; cases res) (auto simp: list_policies_def)

lemma winv_reconcile: "winv s \<Longrightarrow> reconcile_turn pem_ok cfg cl lag s = Some s' \<Longrightarrow> winv s'"
  by (auto simp: reconcile_turn_def winv_stopRunner winv_cluster_item split: main_pc.splits list.splits)

lemma winv_watch: "winv s \<Longrightarrow> watch_turn pem_ok cfg e s = Some s' \<Longrightarrow> winv s'"
  by (auto simp: watch_turn_def consume_failed_def dest: winv_handle split: if_splits option.splits prod.splits bool.splits)

lemma winv_act: "act pem_ok cfg cl a s = Some s' \<Longrightarrow> winv s \<Longrightarrow> winv s'"
proof (cases a)
  case (ATickFire i)
  then show "act pem_ok cfg cl a s = Some s' \<Longrightarrow> winv s \<Longrightarrow> winv s'" by (auto elim: winv_runner_turn[rotated])
next
  case (ATickUpdate i lag sent)
  then show "act pem_ok cfg cl a s = Some s' \<Longrightarrow> winv s \<Longrightarrow> winv s'" by (auto elim: winv_runner_turn[rotated])
next
  case (ATickExit i)
  then show "act pem_ok cfg cl a s = Some s' \<Longrightarrow> winv s \<Longrightarrow> winv s'" by (auto elim: winv_runner_turn[rotated])
next
  case (ARunReturn i)
  then show "act pem_ok cfg cl a s = Some s' \<Longrightarrow> winv s \<Longrightarrow> winv s'" by (auto elim: winv_runner_turn[rotated])
next
  case (ARunClose i)
  then show "act pem_ok cfg cl a s = Some s' \<Longrightarrow> winv s \<Longrightarrow> winv s'" by (auto elim: winv_runner_turn[rotated])
next
  case (ARunRemove i)
  then show "act pem_ok cfg cl a s = Some s' \<Longrightarrow> winv s \<Longrightarrow> winv s'" by (auto elim: winv_runner_turn[rotated])
qed (auto simp: open_watch_def stopRunner_end_def winv_StopAll split: if_splits main_pc.splits
      dest: winv_list_pods winv_list_policies winv_reconcile winv_watch winv_task)

section \<open>Reachable states\<close>

lemma watch_step_iff: "watch_step pem_ok cfg cl s s' = (\<exists>a. act pem_ok cfg cl a s = Some s')"
  by (auto simp: watch_step.simps)

lemma winv_init: "winv (watch_init h w)"
  by (simp add: watch_init_def runners_inv_def entry_ok_def task_ok_def)

lemma reach_winv: "watch_reach pem_ok cfg cl s \<Longrightarrow> winv s"
proof (induction rule: watch_reach.induct)
  case (start h w)
  show ?case by (rule winv_init)
next
  case (more s s')
  then show ?case by (auto simp: watch_step_iff dest: winv_act)
qed

lemma acts_reach: "acts pem_ok cfg cl as s = Some s' \<Longrightarrow> watch_reach pem_ok cfg cl s \<Longrightarrow> watch_reach pem_ok cfg cl s'"
  by (induction as arbitrary: s) (auto split: option.splits dest: watch_reach.more[OF _ watch_step.turn])

lemma acts_append: "acts pem_ok cfg cl (as @ bs) s = Option.bind (acts pem_ok cfg cl as s) (acts pem_ok cfg cl bs)"
  by (induction as arbitrary: s) (auto split: option.split)

lemma reach_owned: "watch_reach pem_ok cfg cl s \<Longrightarrow> i < length (ws_rs s) \<Longrightarrow> \<not> rs_stopped (ws_rs s ! i) \<Longrightarrow>
    rs_run (ws_rs s ! i) = Running \<and> owned (ws_runners s) (ws_rs s) (ws_tasks s) i"
  using reach_winv[of pem_ok cfg cl s] unfolding runners_inv_def by blast

lemma stop_rid_simps [simp]: "length (ws_rs (stop_rid i s)) = length (ws_rs s)" "ws_runners (stop_rid i s) = ws_runners s"
  "ws_tasks (stop_rid i s) = ws_tasks s" "ws_main (stop_rid i s) = ws_main s" "ws_seen (stop_rid i s) = ws_seen s"
  "ws_clusterSeen (stop_rid i s) = ws_clusterSeen s"
  by (simp_all add: stop_rid_def upd_runner_def)

lemma stop_rid_nth: "j < length (ws_rs s) \<Longrightarrow>
    rs_stopped (ws_rs (stop_rid i s) ! j) = (i = j \<or> rs_stopped (ws_rs s ! j)) \<and> rs_key (ws_rs (stop_rid i s) ! j) = rs_key (ws_rs s ! j)"
  by (cases "i = j") (auto simp: stop_rid_def upd_runner_def nth_list_update)

lemma stop_all_nth: "j < length (ws_rs s) \<Longrightarrow>
    rs_stopped (ws_rs (fold (\<lambda>(k, e). stop_rid (re_rid e)) es s) ! j) = ((\<exists>(k, e)\<in>set es. re_rid e = j) \<or> rs_stopped (ws_rs s ! j))"
proof (induction es arbitrary: s)
  case (Cons x es)
  obtain k e where "x = (k, e)" by force
  with Cons show ?case by (auto simp: stop_rid_nth)
qed simp

lemma stop_all_frame: "length (ws_rs (fold (\<lambda>(k, e). stop_rid (re_rid e)) es s)) = length (ws_rs s)"
  "ws_tasks (fold (\<lambda>(k, e). stop_rid (re_rid e)) es s) = ws_tasks s"
  "ws_runners (fold (\<lambda>(k, e). stop_rid (re_rid e)) es s) = ws_runners s"
  "ws_main (fold (\<lambda>(k, e). stop_rid (re_rid e)) es s) = ws_main s"
  "ws_seen (fold (\<lambda>(k, e). stop_rid (re_rid e)) es s) = ws_seen s"
  "ws_clusterSeen (fold (\<lambda>(k, e). stop_rid (re_rid e)) es s) = ws_clusterSeen s"
  by (induction es arbitrary: s) auto

section \<open>A Pod that was seen stays collected\<close>

fun pc_keys :: "main_pc \<Rightarrow> string set" where
  "pc_keys (MReconcile n) = pc_keys n"
| "pc_keys (MItems ps cur n) = pc_keys n"
| "pc_keys (MGone ks n) = set ks \<union> pc_keys n"
| "pc_keys (MWait i k n) = insert k (pc_keys n)"
| "pc_keys pc = {}"

definition keys_ok :: "main_pc \<Rightarrow> (string, bool) gomap \<Rightarrow> (string, bool) gomap \<Rightarrow> bool" where
  "keys_ok pc cs sn = (pc_keys pc \<subseteq> range clusterKey \<and> fst ` set cs \<subseteq> range clusterKey \<and> fst ` set sn \<subseteq> {u. CHR ''/'' \<notin> set u})"

abbreviation keys_inv :: "'w watch_state \<Rightarrow> bool" where
  "keys_inv s \<equiv> keys_ok (ws_main s) (ws_clusterSeen s) (ws_seen s)"

lemma keys_ok_pc: "keys_ok pc cs sn \<Longrightarrow> pc_keys pc' \<subseteq> range clusterKey \<Longrightarrow> keys_ok pc' cs sn"
  by (simp add: keys_ok_def)

lemma keys_ok_pcD: "keys_ok pc cs sn \<Longrightarrow> pc_keys pc \<subseteq> range clusterKey"
  by (simp add: keys_ok_def)

lemma keys_ok_del: "keys_ok pc cs sn \<Longrightarrow> keys_ok pc (gm_del k cs) sn" "keys_ok pc cs sn \<Longrightarrow> keys_ok pc cs (gm_del u sn)"
  by (auto simp: keys_ok_def set_map_gm_del)

lemma keys_ok_put: "keys_ok pc cs sn \<Longrightarrow> keys_ok pc (gm_put (clusterKey p) b cs) sn"
  by (simp add: keys_ok_def set_map_gm_put)

text \<open>UIDs hold no slash; an action deletes a Pod by an event or by a listing without it.\<close>

definition slashless :: "Pod \<Rightarrow> bool" where
  "slashless pod = (CHR ''/'' \<notin> set (om_UID (po_Meta pod)))"

fun slashless_action :: "'w action \<Rightarrow> bool" where
  "slashless_action (AListPods (Inr pods)) = list_all slashless pods"
| "slashless_action (AEvent e) = (case ev_pod e of None \<Rightarrow> True | Some p \<Rightarrow> slashless p)"
| "slashless_action a = True"

fun deletes_pod :: "string \<Rightarrow> 'w action \<Rightarrow> bool" where
  "deletes_pod uid (AListPods (Inr pods)) = (uid \<notin> set (map (\<lambda>p. om_UID (po_Meta p)) pods))"
| "deletes_pod uid (AEvent e) =
     (ev_type e = Deleted \<and> (case ev_pod e of None \<Rightarrow> False | Some p \<Rightarrow> om_UID (po_Meta p) = uid))"
| "deletes_pod uid a = False"

definition kept :: "string \<Rightarrow> 'w watch_state \<Rightarrow> 'w watch_state \<Rightarrow> bool" where
  "kept key s s' = (\<forall>e. gm_get (ws_runners s) key = Some e \<longrightarrow> gm_get (ws_runners s') key = Some e)"

lemma kept_refl [simp]: "kept key s s" by (simp add: kept_def)

lemma kept_trans: "kept key s t \<Longrightarrow> kept key t u \<Longrightarrow> kept key s u" by (simp add: kept_def)

lemma kept_same: "ws_runners s = ws_runners t \<Longrightarrow> kept key s t" by (simp add: kept_def)

lemma add_policies_frame:
  assumes "add_policies pem_ok cfg pod cps b s = (r, s')"
  shows "kept key s s' \<and> ws_seen s' = ws_seen s \<and> ws_clusterSeen s' = ws_clusterSeen s \<and> ws_main s' = ws_main s"
  using assms
  by (induction pem_ok cfg pod cps b s rule: add_policies.induct)
    (force simp: Let_def start_runner_def kept_def gomap_simps split: if_splits option.splits prod.splits sum.splits)+

text \<open>If all is ready every policy has its runner.\<close>

lemma add_policies_monotone: "add_policies pem_ok cfg pod cps False s = (r, s') \<Longrightarrow> \<not> r"
  by (induction cps arbitrary: s) (auto simp: Let_def split: if_splits option.splits prod.splits sum.splits)

lemma add_policies_complete:
  assumes "add_policies pem_ok cfg pod cps True s = (True, s')" "cp \<in> set cps"
  shows "gm_get (ws_runners s') (runnerKey (om_UID (po_Meta pod)) (cp_Name cp) (cp_LogType cp)) \<noteq> None"
  using assms
proof (induction cps arbitrary: s)
  case (Cons p cps)
  let ?key = "runnerKey (om_UID (po_Meta pod)) (cp_Name p) (cp_LogType p)"
  have "\<exists>t. gm_get (ws_runners t) ?key \<noteq> None \<and> add_policies pem_ok cfg pod cps True t = (True, s')"
    using Cons.prems(1)
    by (auto simp: Let_def start_runner_def gomap_simps split: if_splits option.splits prod.splits sum.splits
        dest: add_policies_monotone intro!: exI)
  then obtain t where t: "gm_get (ws_runners t) ?key \<noteq> None" "add_policies pem_ok cfg pod cps True t = (True, s')" by blast
  from add_policies_frame[OF t(2)] t(1) have "gm_get (ws_runners s') ?key \<noteq> None" by (auto simp: kept_def)
  with Cons.IH[OF t(2)] Cons.prems(2) show ?case by auto
qed simp

lemma pod_key_runnerKey:
  assumes "CHR ''/'' \<notin> set u" "CHR ''/'' \<notin> set v"
  shows "pod_key v (runnerKey u n lt) = (v = u)"
proof
  assume "pod_key v (runnerKey u n lt)"
  then obtain r where "v @ CHR ''/'' # r = u @ CHR ''/'' # (n @ ''/'' @ lt)"
    unfolding pod_key_def runnerKey_def
    by (metis append_Cons append_Nil append_assoc append_take_drop_id)
  then have "takeWhile (\<lambda>c. c \<noteq> CHR ''/'') (v @ CHR ''/'' # r) = takeWhile (\<lambda>c. c \<noteq> CHR ''/'') (u @ CHR ''/'' # (n @ ''/'' @ lt))"
    by (rule arg_cong)
  moreover have "takeWhile (\<lambda>c. c \<noteq> CHR ''/'') (x @ CHR ''/'' # r) = x" if "CHR ''/'' \<notin> set x" for x r
    using that by (induction x) auto
  ultimately show "v = u" using assms by metis
qed (simp add: pod_key_def runnerKey_def)

lemma pod_key_cluster: "CHR ''/'' \<notin> set u \<Longrightarrow> u \<noteq> ''ClusterLogPilotPolicy'' \<Longrightarrow> runnerKey u n lt \<noteq> clusterKey p"
proof
  assume u: "CHR ''/'' \<notin> set u" "u \<noteq> ''ClusterLogPilotPolicy''" and "runnerKey u n lt = clusterKey p"
  then have e: "u @ CHR ''/'' # (n @ ''/'' @ lt) = ''ClusterLogPilotPolicy'' @ CHR ''/'' # om_Name (cc_Meta p)"
    by (simp add: runnerKey_def clusterKey_def)
  have t: "takeWhile (\<lambda>c. c \<noteq> CHR ''/'') (x @ CHR ''/'' # r) = x" if "CHR ''/'' \<notin> set x" for x r
    using that by (induction x) auto
  have "CHR ''/'' \<notin> set ''ClusterLogPilotPolicy''" by simp
  from t[OF this] t[OF u(1)] e have "u = ''ClusterLogPilotPolicy''" by metis
  with u(2) show False by simp
qed

section \<open>What an action keeps of a Pod\<close>

lemma see_frame: "kept key s (see_pod pem_ok cfg pod s) \<and> ws_clusterSeen (see_pod pem_ok cfg pod s) = ws_clusterSeen s
    \<and> ws_main (see_pod pem_ok cfg pod s) = ws_main s
    \<and> fst ` set (ws_seen (see_pod pem_ok cfg pod s)) \<subseteq> insert (om_UID (po_Meta pod)) (fst ` set (ws_seen s))"
proof -
  have a: "kept key s s' \<and> ws_seen s' = ws_seen s \<and> ws_clusterSeen s' = ws_clusterSeen s \<and> ws_main s' = ws_main s"
    if "OnPodAdd pem_ok cfg pod s = (r, s')" for r s'
    using that add_policies_frame[where key = key]
    by (fastforce simp: OnPodAdd_def simp del: add_policies.simps split: option.splits list.splits)
  obtain r s' where "OnPodAdd pem_ok cfg pod s = (r, s')" by force
  with a[OF this] show ?thesis
    by (auto simp: see_pod_def Let_def kept_def set_map_gm_put split: bool.split)
qed

lemma forget_frame: "\<not> pod_key u key \<Longrightarrow> kept key s (forget_pod u s)"
  "ws_clusterSeen (forget_pod u s) = ws_clusterSeen s" "ws_main (forget_pod u s) = ws_main s"
  "fst ` set (ws_seen (forget_pod u s)) = fst ` set (ws_seen s) - {u}"
  by (simp_all add: forget_pod_def onPodDeleted_def kept_def gm_get_filter set_map_gm_del)

lemma fold_see_frame: "kept key s (fold (see_pod pem_ok cfg) pods s) \<and> ws_clusterSeen (fold (see_pod pem_ok cfg) pods s) = ws_clusterSeen s
    \<and> ws_main (fold (see_pod pem_ok cfg) pods s) = ws_main s
    \<and> fst ` set (ws_seen (fold (see_pod pem_ok cfg) pods s)) \<subseteq> (\<lambda>p. om_UID (po_Meta p)) ` set pods \<union> fst ` set (ws_seen s)"
proof (induction pods arbitrary: s)
  case (Cons p pods)
  from Cons[of "see_pod pem_ok cfg p s"] see_frame[of key s pem_ok cfg p] show ?case by (auto intro: kept_trans)
qed simp

lemma fold_forget_frame: "(\<And>u. u \<in> set us \<Longrightarrow> \<not> pod_key u key) \<Longrightarrow> kept key s (fold forget_pod us s)"
  "ws_clusterSeen (fold forget_pod us s) = ws_clusterSeen s" "ws_main (fold forget_pod us s) = ws_main s"
  "fst ` set (ws_seen (fold forget_pod us s)) = fst ` set (ws_seen s) - set us"
proof (induction us arbitrary: s)
  case (Cons u us)
  {
    case 1
    then show ?case using Cons(1)[of "forget_pod u s"] forget_frame(1)[of u key s] by (auto intro: kept_trans)
  next
    case 2 show ?case by (simp add: Cons forget_frame)
  next
    case 3 show ?case by (simp add: Cons forget_frame)
  next
    case 4 show ?case by (auto simp: Cons forget_frame)
  }
qed simp_all

lemma keys_inv_more: "keys_inv s \<Longrightarrow> ws_main s' = ws_main s \<Longrightarrow> ws_clusterSeen s' = ws_clusterSeen s \<Longrightarrow>
    fst ` set (ws_seen s') \<subseteq> insert u (fst ` set (ws_seen s)) \<Longrightarrow> CHR ''/'' \<notin> set u \<Longrightarrow> keys_inv s'"
  unfolding keys_ok_def by (elim conjE, intro conjI) (simp, simp, blast)

lemma sync_frame:
  assumes "keys_inv s" "list_all slashless pods"
  shows "keys_inv (syncPods pem_ok cfg pods s)" "ws_main (syncPods pem_ok cfg pods s) = ws_main s"
    and "CHR ''/'' \<notin> set uid \<Longrightarrow> uid \<in> set (map (\<lambda>p. om_UID (po_Meta p)) pods) \<Longrightarrow> kept (runnerKey uid n lt) s (syncPods pem_ok cfg pods s)"
proof -
  let ?s1 = "fold (see_pod pem_ok cfg) pods s"
  let ?us = "filter (\<lambda>u. u \<notin> set (map (\<lambda>p. om_UID (po_Meta p)) pods)) (map fst (ws_seen ?s1))"
  have sy: "syncPods pem_ok cfg pods s = fold forget_pod ?us ?s1" by (simp add: syncPods_def Let_def)
  note f = fold_see_frame[of _ s pem_ok cfg pods]
  have sl: "CHR ''/'' \<notin> set u" if "u \<in> fst ` set (ws_seen ?s1)" for u
  proof -
    from that f have "u \<in> (\<lambda>p. om_UID (po_Meta p)) ` set pods \<or> u \<in> fst ` set (ws_seen s)" by blast
    moreover have "fst ` set (ws_seen s) \<subseteq> {u. CHR ''/'' \<notin> set u}" using assms(1) by (simp only: keys_ok_def)
    ultimately show ?thesis using assms(2) by (auto simp only: list_all_iff slashless_def)
  qed
  show "ws_main (syncPods pem_ok cfg pods s) = ws_main s" using f by (simp add: sy fold_forget_frame)
  show "keys_inv (syncPods pem_ok cfg pods s)"
  proof -
    have "fst ` set (ws_seen ?s1) \<subseteq> {u. CHR ''/'' \<notin> set u}" using sl by blast
    then show ?thesis using assms(1) f unfolding keys_ok_def sy fold_forget_frame by (simp only: Diff_subset_conv) blast
  qed
  show "kept (runnerKey uid n lt) s (syncPods pem_ok cfg pods s)"
    if "CHR ''/'' \<notin> set uid" "uid \<in> set (map (\<lambda>p. om_UID (po_Meta p)) pods)"
  proof -
    have "\<not> pod_key u (runnerKey uid n lt)" if "u \<in> set ?us" for u
    proof -
      have "u \<in> fst ` set (ws_seen ?s1)" "u \<noteq> uid" using that \<open>uid \<in> _\<close> by auto
      with sl[OF this(1)] show ?thesis using pod_key_runnerKey[OF \<open>CHR ''/'' \<notin> set uid\<close>] by metis
    qed
    from fold_forget_frame(1)[OF this] f show ?thesis unfolding sy by (blast intro: kept_trans)
  qed
qed

lemma stopRunner_frame:
  assumes "\<exists>p. key = clusterKey p" "keys_inv s" "pc_keys nxt \<subseteq> range clusterKey"
  shows "keys_inv (stopRunner key nxt s)"
    and "CHR ''/'' \<notin> set uid \<Longrightarrow> uid \<noteq> ''ClusterLogPilotPolicy'' \<Longrightarrow> kept (runnerKey uid n lt) s (stopRunner key nxt s)"
proof -
  show "keys_inv (stopRunner key nxt s)"
    using assms by (auto simp: stopRunner_def intro!: keys_ok_del keys_ok_pc[OF assms(2)] split: option.split)
  show "kept (runnerKey uid n lt) s (stopRunner key nxt s)" if "CHR ''/'' \<notin> set uid" "uid \<noteq> ''ClusterLogPilotPolicy''"
    using assms(1) pod_key_cluster[OF that, of n lt] by (auto simp: stopRunner_def kept_def gomap_simps split: option.split)
qed

lemma start_frame: "gm_get (ws_runners s) key = None \<Longrightarrow> kept k s (start_runner key path plan lag s)"
  "ws_seen (start_runner key path plan lag s) = ws_seen s" "ws_clusterSeen (start_runner key path plan lag s) = ws_clusterSeen s"
  "ws_main (start_runner key path plan lag s) = ws_main s"
  by (auto simp: start_runner_def kept_def gomap_simps)

lemma start_cluster_frame:
  assumes "startClusterPolicyRunner pem_ok cfg lag policy key s = (r, s')"
  shows "kept k s s' \<and> ws_seen s' = ws_seen s \<and> ws_clusterSeen s' = ws_clusterSeen s \<and> ws_main s' = ws_main s"
  using assms by (auto simp: startClusterPolicyRunner_def start_frame split: if_splits sum.splits)

lemma cluster_item_frame:
  assumes "keys_inv s" "pc_keys nxt \<subseteq> range clusterKey"
  shows "keys_inv (cluster_item pem_ok cfg cl lag policy nxt s)
    \<and> (CHR ''/'' \<notin> set uid \<longrightarrow> uid \<noteq> ''ClusterLogPilotPolicy'' \<longrightarrow>
        kept (runnerKey uid n lt) s (cluster_item pem_ok cfg cl lag policy nxt s))"
proof -
  obtain ok w where l: "acquireClusterPolicyLease cl cfg (om_Name (cc_Meta policy)) (ws_world s) = (ok, w)" by force
  let ?key = "clusterKey policy" and ?s = "s\<lparr>ws_world := w\<rparr>"
  have i: "keys_inv ?s" "keys_inv (?s\<lparr>ws_main := nxt\<rparr>)" using assms by (auto intro: keys_ok_pc)
  have k: "kept k ?s t \<Longrightarrow> kept k s t" "kept k (?s\<lparr>ws_main := nxt\<rparr>) t \<Longrightarrow> kept k s t" for k and t :: "'a watch_state" by (simp_all add: kept_def)
  show ?thesis
  proof (cases ok)
    case False
    have ex: "\<exists>p. ?key = clusterKey p" by blast
    note sf = stopRunner_frame(1)[OF ex i(1) assms(2)] stopRunner_frame(2)[OF ex i(1) assms(2), of uid n lt]
    show ?thesis
    proof (cases "is_seen (ws_clusterSeen s) ?key")
      case True
      with l sf k(1) False show ?thesis by (simp add: cluster_item_def)
    next
      case False
      with l i \<open>\<not> ok\<close> show ?thesis by (simp add: cluster_item_def kept_same)
    qed
  next
    case True
    obtain r s' where st: "startClusterPolicyRunner pem_ok cfg lag policy ?key (?s\<lparr>ws_main := nxt\<rparr>) = (r, s')" by force
    note f = start_cluster_frame[OF st]
    then have ci: "keys_inv s'" "keys_inv (s'\<lparr>ws_clusterSeen := gm_put ?key True (ws_clusterSeen s')\<rparr>)"
      using i(2) by (simp_all add: keys_ok_put)
    have kp: "kept k s s'" "kept k s (s'\<lparr>ws_clusterSeen := gm_put ?key True (ws_clusterSeen s')\<rparr>)" for k
      using f[of k] by (simp_all add: kept_def)
    show ?thesis
    proof (cases "is_seen (ws_clusterSeen s) ?key")
      case True
      with l \<open>ok\<close> i show ?thesis by (auto simp: cluster_item_def intro: kept_same)
    next
      case False
      with l \<open>ok\<close> st ci kp show ?thesis by (cases r) (simp_all add: cluster_item_def)
    qed
  qed
qed

lemma reconcile_frame:
  assumes "keys_inv s" "reconcile_turn pem_ok cfg cl lag s = Some s'"
  shows "keys_inv s' \<and> (CHR ''/'' \<notin> set uid \<longrightarrow> uid \<noteq> ''ClusterLogPilotPolicy'' \<longrightarrow> kept (runnerKey uid n lt) s s')"
proof -
  note pc = keys_ok_pcD[OF assms(1)]
  show ?thesis
  proof (cases "ws_main s")
    case (MItems ps cur nxt)
    show ?thesis
    proof (cases ps)
      case Nil
      have "fst ` set (ws_clusterSeen s) \<subseteq> range clusterKey" using assms(1) by (simp add: keys_ok_def)
      then have "set (filter (\<lambda>k. k \<notin> set cur) (map fst (ws_clusterSeen s))) \<subseteq> range clusterKey" by auto
      with pc MItems have "pc_keys (MGone (filter (\<lambda>k. k \<notin> set cur) (map fst (ws_clusterSeen s))) nxt) \<subseteq> range clusterKey"
        by (simp only: pc_keys.simps Un_subset_iff)
      from keys_ok_pc[OF assms(1) this] assms(2) MItems Nil show ?thesis by (auto simp: reconcile_turn_def intro!: kept_same)
    next
      case (Cons p qs)
      have "pc_keys (MItems qs (clusterKey p # cur) nxt) \<subseteq> range clusterKey" using pc MItems by simp
      from cluster_item_frame[OF assms(1) this] assms(2) MItems Cons show ?thesis by (auto simp: reconcile_turn_def)
    qed
  next
    case (MGone ks nxt)
    show ?thesis
    proof (cases ks)
      case Nil
      with assms MGone pc show ?thesis by (auto simp: reconcile_turn_def intro: kept_same keys_ok_pc)
    next
      case (Cons k ks')
      with pc MGone have "\<exists>p. k = clusterKey p" "pc_keys (MGone ks' nxt) \<subseteq> range clusterKey" by auto
      from stopRunner_frame[OF this(1) assms(1) this(2)] assms(2) MGone Cons show ?thesis by (auto simp: reconcile_turn_def)
    qed
  qed (use assms in \<open>simp_all add: reconcile_turn_def\<close>)
qed

lemma list_pods_frame:
  assumes "keys_inv s" "list_pods pem_ok cfg res s = Some s'" "slashless_action (AListPods res)"
  shows "keys_inv s' \<and> (CHR ''/'' \<notin> set uid \<longrightarrow> \<not> deletes_pod uid (AListPods res) \<longrightarrow> kept (runnerKey uid n lt) s s')"
proof (cases res)
  case (Inl e)
  with assms show ?thesis by (cases "ws_main s") (auto simp: list_pods_def intro: kept_same elim!: keys_ok_pc)
next
  case (Inr pods)
  with assms(3) have sl: "list_all slashless pods" by simp
  note f = sync_frame[OF assms(1) sl, where pem_ok = pem_ok and cfg = cfg]
  from assms(2) Inr obtain pc where "s' = (syncPods pem_ok cfg pods s)\<lparr>ws_main := pc\<rparr>" "pc_keys pc = {}"
    by (cases "ws_main s") (auto simp: list_pods_def)
  with f Inr show ?thesis by (auto simp: kept_def elim: keys_ok_pc)
qed

lemma watch_turn_frame:
  assumes "keys_inv s" "watch_turn pem_ok cfg e s = Some s'"
    and "case e of None \<Rightarrow> True | Some ev \<Rightarrow> slashless_action (AEvent ev)"
  shows "keys_inv s' \<and> (CHR ''/'' \<notin> set uid \<longrightarrow> (case e of None \<Rightarrow> True | Some ev \<Rightarrow> \<not> deletes_pod uid (AEvent ev))
    \<longrightarrow> kept (runnerKey uid n lt) s s')"
proof -
  have cf: "keys_inv t \<Longrightarrow> keys_inv (consume_failed t)" "kept k t (consume_failed t)" for t :: "'a watch_state" and k
    by (auto simp: consume_failed_def kept_def elim: keys_ok_pc)
  show ?thesis
  proof (cases e)
    case None
    with assms cf show ?thesis by (auto simp: watch_turn_def split: if_splits)
  next
    case (Some ev)
    show ?thesis
    proof (cases "ev_pod ev")
      case None
      with Some assms show ?thesis by (auto simp: watch_turn_def handle_event_def split: if_splits)
    next
      case pod: (Some pod)
      have sl: "CHR ''/'' \<notin> set (om_UID (po_Meta pod))" using assms(3) Some pod by (simp add: slashless_def)
      have see: "keys_inv (see_pod pem_ok cfg pod s)" 
        using keys_inv_more[OF assms(1) _ _ _ sl] see_frame[of "[]" s pem_ok cfg pod] by blast
      have fg: "keys_inv (forget_pod (om_UID (po_Meta pod)) s)" 
        using assms(1) by (auto simp: keys_ok_def forget_frame)
      have kf: "kept (runnerKey uid n lt) s (forget_pod (om_UID (po_Meta pod)) s)"
        if "CHR ''/'' \<notin> set uid" "om_UID (po_Meta pod) \<noteq> uid"
        using pod_key_runnerKey[OF that(1) sl, of n lt] that(2) by (simp add: forget_frame)
      have m: "ws_main s = MWatch" using assms(2) by (auto simp: watch_turn_def split: if_splits)
      show ?thesis
        using assms(1,2) Some pod see fg kf cf see_frame[of "runnerKey uid n lt" s pem_ok cfg pod] m
        by (cases "ev_type ev") (auto simp: watch_turn_def handle_event_def)
    qed
  qed
qed

lemma runner_turn_frame: "runner_turn i guard f g s = Some s' \<Longrightarrow> keys_inv s \<Longrightarrow> keys_inv s' \<and> kept key s s'"
  by (auto simp: runner_turn_def upd_runner_def kept_def split: if_splits)

lemma task_turn_frame: "task_turn j s = Some s' \<Longrightarrow> keys_inv s \<Longrightarrow> keys_inv s' \<and> kept key s s'"
  by (cases "dt_pc (ws_tasks s ! j)")
    (auto simp: task_turn_def Let_def kept_def split: if_splits)

lemma act_frame:
  assumes "act pem_ok cfg cl a s = Some s'" "keys_inv s" "slashless_action a"
    and "CHR ''/'' \<notin> set uid" "uid \<noteq> ''ClusterLogPilotPolicy''"
  shows "keys_inv s' \<and> (\<not> deletes_pod uid a \<longrightarrow> kept (runnerKey uid n lt) s s')"
proof (cases a)
  case (AListPods res)
  with assms list_pods_frame[of s pem_ok cfg res s' uid n lt] show ?thesis by simp
next
  case (AListPolicies res)
  show ?thesis
  proof (cases "ws_main s")
    case (MReconcile nxt)
    with keys_ok_pcD[OF assms(2)] have "pc_keys nxt \<subseteq> range clusterKey" "pc_keys (MItems ps [] nxt) \<subseteq> range clusterKey" for ps
      by simp_all
    with keys_ok_pc[OF assms(2)] assms(1) AListPolicies MReconcile show ?thesis
      by (cases res) (auto simp: list_policies_def intro!: kept_same)
  qed (use assms AListPolicies in \<open>simp_all add: list_policies_def\<close>)
next
  case (AItem lag)
  with assms reconcile_frame[of s pem_ok cfg cl lag s' uid n lt] show ?thesis by simp
next
  case (AEvent e)
  with assms watch_turn_frame[of s pem_ok cfg "Some e" s' uid n lt] show ?thesis by simp
next
  case AClosed
  with assms watch_turn_frame[of s pem_ok cfg None s' uid n lt] show ?thesis by simp
next
  case AWaitOver
  with assms show ?thesis
    by (cases "ws_main s") (auto simp: stopRunner_end_def kept_def intro!: keys_ok_del keys_ok_pc[OF assms(2)] dest!: keys_ok_pcD dest: subsetD)
next
  case AStopAll
  with assms show ?thesis by (auto simp: StopAll_def stop_all_frame kept_def)
qed (use assms in \<open>auto simp: open_watch_def kept_def split: if_splits intro!: keys_ok_pc[OF assms(2)]
      dest!: runner_turn_frame[where key = "runnerKey uid n lt"] task_turn_frame[where key = "runnerKey uid n lt"]\<close>)

lemma acts_frame:
  assumes "acts pem_ok cfg cl as s = Some s'" "keys_inv s" "list_all slashless_action as"
    and "CHR ''/'' \<notin> set uid" "uid \<noteq> ''ClusterLogPilotPolicy''"
  shows "keys_inv s' \<and> (list_all (\<lambda>a. \<not> deletes_pod uid a) as \<longrightarrow> kept (runnerKey uid n lt) s s')"
  using assms(1-3)
proof (induction as arbitrary: s)
  case (Cons a as)
  from Cons.prems(1) obtain t where t: "act pem_ok cfg cl a s = Some t" "acts pem_ok cfg cl as t = Some s'"
    by (auto split: option.splits)
  from act_frame[OF t(1) Cons.prems(2) _ assms(4,5), of n lt] Cons.IH[OF t(2)] Cons.prems(3)
  show ?case by (auto intro: kept_trans)
qed simp

end
