(* ===== verification/PodRuns.thy ===== *)
theory PodRuns
  imports PodInvariant
begin

text \<open>
  What the invariants of the event loop say of the agent, and concrete runs where it does less than
  it means to.
\<close>

section \<open>Concrete runs\<close>

text \<open>An agent that has listed no Pod and no policy and has opened its watch; a Pod with two log
  types; a Pod whose second policy cannot be built.\<close>

definition demo_acts :: "lease_world action list \<Rightarrow> lease_world watch_state option" where
  "demo_acts as = acts (\<lambda>s. True) demo_wcfg store_client as (watch_init \<lparr>hf_nodes = [], hf_script = []\<rparr> (lease_at 200))"

definition demo_open :: "lease_world action list" where
  "demo_open = [AListPods (Inr []), AListPolicies (Inr []), AItem 0, AItem 0, AOpenWatch True]"

definition annotated :: "ContainerPolicy list \<Rightarrow> Pod" where
  "annotated cps = demo_pod\<lparr>po_Meta := (po_Meta demo_pod)\<lparr>om_Annotations :=
     Some [(podLogPolicyAnnotation, (case marshal_policies cps of None \<Rightarrow> [] | Some raw \<Rightarrow> raw))]\<rparr>\<rparr>"

lemma annotated_parsed: "list_all policy_ok cps \<Longrightarrow> parsePoliciesFromPod (annotated cps) = Some cps"
proof -
  assume "list_all policy_ok cps"
  then obtain s where s: "marshal_policies cps = Some s" "unmarshal_policies s = Some cps"
    using unmarshal_marshal_policies[of cps] by (auto simp: list_all_iff)
  moreover have "unmarshal_policies [] = None" by code_simp
  ultimately have "s \<noteq> []" by auto
  with s show ?thesis by (simp add: parsePoliciesFromPod_def annotated_def gm_str_def gm_get_Cons)
qed

definition watched :: "event_type \<Rightarrow> Pod \<Rightarrow> lease_world action" where
  "watched t pod = AEvent \<lparr>ev_type = t, ev_pod = Some pod\<rparr>"

definition demo_one :: Pod where
  "demo_one = annotated [demo_policy_of ''app'' ''access'' ''/logs'' []]"

definition demo_two :: Pod where
  "demo_two = annotated [demo_policy_of ''app'' ''access'' ''/logs'' [], (demo_cp (Some (JNum ''7'')))\<lparr>cp_LogType := ''audit''\<rparr>]"

definition demo_state :: "lease_world action list \<Rightarrow> lease_world watch_state" where
  "demo_state as = (case demo_acts as of Some s \<Rightarrow> s | None \<Rightarrow> watch_init \<lparr>hf_nodes = [], hf_script = []\<rparr> (lease_at 200))"

lemma demo_state_reach: "watch_reach (\<lambda>s. True) demo_wcfg store_client (demo_state as)"
  by (auto simp: demo_state_def demo_acts_def split: option.split intro: acts_reach watch_reach.start)

section \<open>Runners and Pods\<close>

text \<open>C11: whatever the API server, the events and the scheduler do, no runner is lost. Every runner that
  was started and not told to stop is the one the map holds under its key, so that a deletion, a lost lease and
  \<open>StopAll\<close> find it, or the goroutine of a deletion has it and is about to stop it. A runner whose
  \<open>Run\<close> has returned was told to stop.\<close>

theorem watch_runners_owned:
  assumes "watch_reach pem_ok cfg cl s" "i < length (ws_rs s)" "\<not> rs_stopped (ws_rs s ! i)"
  shows "rs_run (ws_rs s ! i) = Running \<and> owned (ws_runners s) (ws_rs s) (ws_tasks s) i"
  using assms by (rule reach_owned)

theorem watch_runners_owned_witness:
  "owned (ws_runners (demo_state (demo_open @ [watched Added demo_one]))) (ws_rs (demo_state (demo_open @ [watched Added demo_one])))
     (ws_tasks (demo_state (demo_open @ [watched Added demo_one]))) 0"
proof -
  have "length (ws_rs (demo_state (demo_open @ [watched Added demo_one]))) = 1
     \<and> \<not> rs_stopped (ws_rs (demo_state (demo_open @ [watched Added demo_one])) ! 0)" by code_simp
  with watch_runners_owned[OF demo_state_reach, of 0 "demo_open @ [watched Added demo_one]"] show ?thesis by simp
qed

text \<open>C13: the same log type of a container is collected once. Two runners with the same key, hence the
  same state file, are never both running undisturbed: one has been told to stop, or its deletion is
  about to tell it.\<close>

theorem one_runner_per_key:
  assumes "watch_reach pem_ok cfg cl s" "i < length (ws_rs s)" "j < length (ws_rs s)"
    and "rs_key (ws_rs s ! i) = rs_key (ws_rs s ! j)" "i \<noteq> j"
    and "\<not> rs_stopped (ws_rs s ! i)" "\<not> rs_stopped (ws_rs s ! j)"
  shows "\<exists>t\<in>set (ws_tasks s). dt_rid t \<in> {i, j} \<and> dt_pc t = AtStop"
proof -
  from reach_owned[OF assms(1,2,6)] reach_owned[OF assms(1,3,7)]
  have "owned (ws_runners s) (ws_rs s) (ws_tasks s) i" "owned (ws_runners s) (ws_rs s) (ws_tasks s) j" by blast+
  then show ?thesis using assms(4,5) unfolding owned_def insert_iff by (metis option.inject)
qed

theorem one_runner_per_key_witness:
  "\<exists>t\<in>set (ws_tasks (demo_state (demo_open @ map (\<lambda>t. watched t demo_one) [Added, Deleted, Modified]))).
     dt_rid t \<in> {0, 1} \<and> dt_pc t = AtStop"
proof (rule one_runner_per_key[OF demo_state_reach])
  let ?s = "demo_state (demo_open @ map (\<lambda>t. watched t demo_one) [Added, Deleted, Modified])"
  show "0 < length (ws_rs ?s)" "1 < length (ws_rs ?s)" "rs_key (ws_rs ?s ! 0) = rs_key (ws_rs ?s ! 1)" "(0::nat) \<noteq> 1"
    "\<not> rs_stopped (ws_rs ?s ! 0)" "\<not> rs_stopped (ws_rs ?s ! 1)" by code_simp+
qed

text \<open>\<open>StopAll\<close> signals every runner of the agent, but for those of a Pod deleted just before, whose
  goroutine stops them.\<close>

theorem StopAll_signals:
  assumes "watch_reach pem_ok cfg cl s" "act pem_ok cfg cl AStopAll s = Some s'"
    and "i < length (ws_rs s')" "\<not> rs_stopped (ws_rs s' ! i)"
  shows "\<exists>t\<in>set (ws_tasks s'). dt_rid t = i \<and> dt_pc t = AtStop"
proof -
  have s': "s' = StopAll s" using assms(2) by simp
  have i: "i < length (ws_rs s)" using assms(3) by (simp add: s' StopAll_def stop_all_frame)
  with assms(4) have ns: "\<not> rs_stopped (ws_rs s ! i)" "\<And>k e. (k, e) \<in> set (ws_runners s) \<Longrightarrow> re_rid e \<noteq> i"
    by (auto simp: s' StopAll_def stop_all_nth)
  from reach_owned[OF assms(1) i ns(1)] ns(2) show ?thesis
    by (auto simp: owned_def s' StopAll_def stop_all_frame dest: gm_get_SomeD)
qed

definition demo_removed :: "lease_world watch_state" where
  "demo_removed = demo_state (demo_open @ [watched Added demo_one, watched Deleted demo_one])"

theorem StopAll_signals_witness:
  "\<exists>t\<in>set (ws_tasks (StopAll demo_removed)). dt_rid t = 0 \<and> dt_pc t = AtStop"
proof (rule StopAll_signals)
  show "watch_reach (\<lambda>s. True) demo_wcfg store_client demo_removed" by (simp add: demo_removed_def demo_state_reach)
  show "act (\<lambda>s. True) demo_wcfg store_client AStopAll demo_removed = Some (StopAll demo_removed)" by simp
  show "0 < length (ws_rs (StopAll demo_removed))" "\<not> rs_stopped (ws_rs (StopAll demo_removed) ! 0)" by code_simp+
qed

lemma seen_stays:
  assumes "acts pem_ok cfg cl as (watch_init h w) = Some s" "act pem_ok cfg cl (AEvent e) s = Some s1"
    and "acts pem_ok cfg cl bs s1 = Some s2" "list_all slashless_action (as @ AEvent e # bs)"
    and "ev_pod e = Some pod" "parsePoliciesFromPod pod = Some cps" "cp \<in> set cps"
    and "\<not> is_seen (ws_seen s) (om_UID (po_Meta pod))" "is_seen (ws_seen s1) (om_UID (po_Meta pod))"
    and "list_all (\<lambda>a. \<not> deletes_pod (om_UID (po_Meta pod)) a) bs" "om_UID (po_Meta pod) \<noteq> ''ClusterLogPilotPolicy''"
  shows "gm_get (ws_runners s2) (runnerKey (om_UID (po_Meta pod)) (cp_Name cp) (cp_LogType cp)) \<noteq> None"
proof -
  let ?uid = "om_UID (po_Meta pod)"
  have sl: "CHR ''/'' \<notin> set ?uid" using assms(4,5) by (simp add: slashless_def)
  have "keys_inv (watch_init h w)" by (simp add: keys_ok_def watch_init_def)
  with acts_frame[OF assms(1) _ _ sl assms(11)] assms(4) have ki: "keys_inv s" by simp
  with act_frame[OF assms(2) _ _ sl assms(11)] assms(4) have ki1: "keys_inv s1" by simp
  obtain r t where t: "OnPodAdd pem_ok cfg pod s = (r, t)" by force
  have uns: "gm_get (ws_seen s) ?uid \<noteq> Some True" using assms(8) by (simp add: is_seen_def)
  have s1: "s1 = see_pod pem_ok cfg pod s"
    using assms(2,5,9) uns
    by (auto simp: watch_turn_def handle_event_def consume_failed_def is_seen_def forget_pod_def onPodDeleted_def gomap_simps
        split: if_splits event_type.splits prod.splits)
  have seen_t: "ws_seen t = ws_seen s"
    using t add_policies_frame[of pem_ok cfg pod _ True s r t]
    by (auto simp: OnPodAdd_def simp del: add_policies.simps split: option.splits list.splits)
  have r: "r" "ws_runners s1 = ws_runners t"
    using assms(8,9) t seen_t by (cases r; auto simp: s1 see_pod_def is_seen_def)+
  have "add_policies pem_ok cfg pod cps True s = (True, t)"
    using t r(1) assms(6,7) by (cases cps) (auto simp: OnPodAdd_def simp del: add_policies.simps)
  from add_policies_complete[OF this assms(7)] r(2)
  have "gm_get (ws_runners s1) (runnerKey ?uid (cp_Name cp) (cp_LogType cp)) \<noteq> None" by simp
  moreover have "kept (runnerKey ?uid (cp_Name cp) (cp_LogType cp)) s1 s2"
    using acts_frame[OF assms(3) ki1 _ sl assms(11)] assms(4,10) by simp
  ultimately show ?thesis by (auto simp: kept_def)
qed



section \<open>Runs that lose a runner, a status, a directory\<close>

text \<open>In a concrete run a runner is lost for good: a Pod with one policy that cannot be built never counts as seen, so when
  it goes away while the watch is down the relist does not stop the runner of its other policy.\<close>

theorem partial_pod_leaks:
  "(let s = demo_state (demo_open @ [watched Added demo_two, AClosed, AListPods (Inr []), AOpenWatch True])
    in ws_main s = MWatch \<and> map fst (ws_runners s) = [''u1/app/access''] \<and> map rs_stopped (ws_rs s) = [False] \<and> ws_tasks s = [])"
  by code_simp

text \<open>In a concrete run a status outlives its runner: the ticker of a runner fires, the Pod is deleted, the runner returns
  and both remove its status, and then the fired tick stores it again. All goroutines have ended, yet
  the server reports a lag for ever.\<close>

theorem stale_status_stays:
  "(let s = demo_state (demo_open @ [watched Added demo_one, ATickFire 0, watched Deleted demo_one, ATask 0, ARunReturn 0, ARunClose 0,
        ARunRemove 0, ATask 0, ATask 0, ATickUpdate 0 5 7, ATickExit 0, ATask 0])
    in ws_runners s = [] \<and> ws_tasks s = [] \<and> map rs_run (ws_rs s) = [RunExited] \<and> map rs_tick (ws_rs s) = [TickExited]
      \<and> map fst (ws_status s) = [''u1/app/access''] \<and> \<not> IsDone (ws_status s))"
  by code_simp

text \<open>In a concrete run the log directory of a deleted Pod is removed although its runner still runs.\<close>

theorem deleted_before_done:
  "(let lp = ''/var/log/log-pilot/LogPilotPolicy/ns/pod/u1/app/access'';
        s1 = demo_state (demo_open @ [watched Added demo_one]);
        s2 = demo_state (demo_open @ [watched Added demo_one, watched Deleted demo_one, ATask 0, ATask 0, ATask 0, ATask 0])
    in gm_get (hf_nodes (ws_host s1)) lp = Some HDir \<and> gm_get (hf_nodes (ws_host s2)) lp = None \<and> map rs_run (ws_rs s2) = [Running])"
  by code_simp

section \<open>Cluster policies\<close>

definition demo_cluster :: "string \<Rightarrow> ClusterLogPilotPolicy" where
  "demo_cluster t = \<lparr>cc_Meta = demo_meta_of ''p'',
     cc_Spec = \<lparr>cs_Input = zero_InputSpec\<lparr>in_Type := t\<rparr>, cs_Transforms = [], cs_Output = cp_Output (demo_policy_of ''a'' ''b'' ''/l'' [])\<rparr>,
     cc_Conditions = []\<rparr>"

text \<open>In a concrete run two agents collect the same cluster policy at once. An agent renews its lease only at the next tick
  of its 30 second ticker; 31 seconds after its renewal another agent gets the lease while the
  runner of the first still runs, undisturbed.\<close>

theorem lease_overlap:
  "(let s = demo_state [AListPods (Inr []), AListPolicies (Inr [demo_cluster ''k8sEvent'']), AItem 0, AItem 0, AItem 0, AOpenWatch True];
        other = demo_wcfg\<lparr>wc_NodeName := ''n2''\<rparr>
    in map fst (ws_runners s) = [''ClusterLogPilotPolicy/p''] \<and> map rs_stopped (ws_rs s) = [False]
      \<and> fst (acquireClusterPolicyLease store_client other ''p'' ((ws_world s)\<lparr>lw_now := lw_now (ws_world s) + 30\<rparr>)) = False
      \<and> fst (acquireClusterPolicyLease store_client other ''p'' ((ws_world s)\<lparr>lw_now := lw_now (ws_world s) + 31\<rparr>)) = True)"
  by code_simp

text \<open>A policy with the object state input also constructs, and so starts, an event input nobody reads
  or closes.\<close>

lemma object_state_starts_event_input:
  "(case cluster_plan (\<lambda>s. True) demo_wcfg (demo_cluster ''k8sObjectState'') ''ClusterLogPilotPolicy/p'' of
      Inl e \<Rightarrow> False
    | Inr p \<Rightarrow> kp_Input p = ObjectStateInput [] [] \<and> length (kp_Started p) = 2)"
  by code_simp

end
