(* ===== verification/RecordQueue.thy ===== *)
theory RecordQueue
  imports Transforms
begin

text \<open>
  The bounded queue between the goroutines of a Kubernetes input and its runner (\<open>chan Record\<close> with
  capacity 1000 and the counter \<open>lag\<close>, in \<open>k8sevent.go\<close> and \<open>k8sobjectstate.go\<close>).

  A goroutine sends a record and then, in another step, adds to the counter; in between its record is not counted.

  \<open>chan_step\<close> is what such an input promises: the records sent, in order, and how many of them were
  taken. The interface \<open>record_queue\<close> states what sending and reading do; it gives the bound, the
  counter and the refinement of \<open>chan_step\<close> to both inputs.
\<close>

definition queue_cap :: nat where
  "queue_cap = 1000"

inductive chan_step :: "LogRecord list \<times> nat \<Rightarrow> LogRecord list \<times> nat \<Rightarrow> bool" where
  send: "chan_step (sent, n) (sent @ [r], n)"
| take: "n + m \<le> length sent \<Longrightarrow> chan_step (sent, n) (sent, n + m)"

inductive_simps chan_step_simp: "chan_step (sent, n) c"

lemma chan_step_refl: "n \<le> length sent \<Longrightarrow> chan_step (sent, n) (sent, n)"
  using chan_step.take[of n 0 sent] by simp

text \<open>The abstraction: what has been read and what is queued.\<close>

definition chan_of :: "LogRecord list \<Rightarrow> LogRecord list \<Rightarrow> LogRecord list \<times> nat" where
  "chan_of out queue = (out @ queue, length out)"

definition queue_ok :: "LogRecord list \<Rightarrow> int \<Rightarrow> nat \<Rightarrow> bool" where
  "queue_ok queue lag uncounted = (lag + int uncounted = int (length queue) \<and> length queue \<le> queue_cap)"

lemma queue_ok_Nil [simp]: "queue_ok [] 0 0"
  by (simp add: queue_ok_def)

lemma queue_ok_count: "queue_ok queue lag (Suc n) = queue_ok queue (lag + 1) n"
  by (auto simp: queue_ok_def)

text \<open>How many goroutines are at a point, after one of them has moved.\<close>

lemma length_filter_update:
  "i < length xs \<Longrightarrow> length (filter P (xs[i := x])) + of_bool (P (xs ! i)) = length (filter P xs) + of_bool (P x)"
proof (induction xs arbitrary: i)
  case (Cons y ys)
  show ?case
  proof (cases i)
    case (Suc j)
    then show ?thesis using Cons.IH[of j] Cons.prems by simp
  qed simp
qed simp

lemma filter_update_same: "i < length xs \<Longrightarrow> P (xs ! i) = P x \<Longrightarrow> length (filter P (xs[i := x])) = length (filter P xs)"
  using length_filter_update[of i xs P x] by simp

locale record_queue =
  fixes queue :: "'k \<Rightarrow> LogRecord list" and lag :: "'k \<Rightarrow> int"
    and sending :: "LogRecord \<Rightarrow> 'k \<Rightarrow> 'k option" and reading :: "nat \<Rightarrow> 'k \<Rightarrow> LogRecord list \<times> 'k"
  assumes sends: "sending r k = Some k' \<Longrightarrow> length (queue k) < queue_cap \<and> queue k' = queue k @ [r] \<and> lag k' = lag k"
    and reads: "reading n k = (rs, k') \<Longrightarrow>
      queue k = rs @ queue k' \<and> length rs = min n (length (queue k)) \<and> lag k' = lag k - int (length rs)"
begin

lemma send_ok: "sending r k = Some k' \<Longrightarrow> queue_ok (queue k) (lag k) n \<Longrightarrow> queue_ok (queue k') (lag k') (Suc n)"
  using sends[of r k k'] by (auto simp: queue_ok_def)

lemma read_split:
  assumes "reading n k = (rs, k')"
  shows "queue k = rs @ queue k'" "length (queue k) = length rs + length (queue k')" "length rs = min n (length (queue k))"
    "lag k' = lag k - int (length rs)"
  using reads[OF assms] length_append[of rs "queue k'"] by metis+

lemma read_ok: "reading n k = (rs, k') \<Longrightarrow> queue_ok (queue k) (lag k) p \<Longrightarrow> queue_ok (queue k') (lag k') p"
  using read_split(2,4)[of n k rs k'] unfolding queue_ok_def by linarith

lemma send_chan: "sending r k = Some k' \<Longrightarrow> chan_step (chan_of out (queue k)) (chan_of out (queue k'))"
  using sends[of r k k'] chan_step.send[of "out @ queue k" "length out" r] by (simp add: chan_of_def)

lemma read_chan:
  assumes "reading n k = (rs, k')"
  shows "chan_step (chan_of out (queue k)) (chan_of (out @ rs) (queue k'))"
proof -
  have "chan_of out (queue k) = (out @ rs @ queue k', length out)" unfolding chan_of_def read_split(1)[OF assms] by simp
  moreover have "chan_of (out @ rs) (queue k') = (out @ rs @ queue k', length out + length rs)" by (simp add: chan_of_def)
  ultimately show ?thesis by (simp add: chan_step.take)
qed

lemma read_all:
  assumes "reading n k = (rs, k')" "length (queue k) \<le> n"
  shows "rs = queue k \<and> queue k' = []"
proof -
  have "queue k' = []" using read_split(2,3)[OF assms(1)] assms(2) by simp
  then show ?thesis using read_split(1)[OF assms(1)] by simp
qed

end

end
