(* ===== verification/K8sEvent.thy ===== *)
theory K8sEvent
  imports DirInput RecordQueue
begin

text \<open>
  \<open>internal/log-pilot-agent/input/k8sevent.go\<close>: the input that lists and watches the Events of some
  namespaces. One goroutine per namespace fills a bounded queue; the runner reads batches from it and
  commits the resource version it has reached.

  A state holds the shared fields and the program counter of each goroutine. A turn of a goroutine, or
  a call of the runner, is a \<open>k_action\<close>; the answers of the API server are part of the action, so a
  run is a list of actions in any interleaving. A call of the runner, \<open>ReadBatch\<close>, \<open>Commit\<close> or \<open>Close\<close>, is one action. An Event is its resource version and its
  JSON text (\<open>None\<close> when it does not marshal).
\<close>

record K8sEventConfig =
  kc_Namespaces :: "string list"
  kc_ResourceVersionPath :: string

record K8sEvent =
  ke_ResourceVersion :: string
  ke_JSON :: "string option"

text \<open>Where the goroutine of a namespace is. \<open>list_from\<close>: the call of \<open>listNamespace\<close> it is in; \<open>NAdd\<close> and \<open>NAddWatch\<close>: between
  the send of \<open>enqueue\<close> and its addition to the counter.\<close>

datatype list_from = FromRun | FromWatch

datatype ns_pc =
    NCall list_from
  | NListing string list_from
  | NRelisting list_from
  | NPush "K8sEvent list" list_from
  | NSleepList
  | NWatch
  | NSleepWatch
  | NConsume
  | NSend K8sEvent
  | NAdd "K8sEvent list" list_from
  | NAddWatch
  | NExited

record k8sEventInput =
  kv_cfg :: K8sEventConfig
  kv_queue :: "LogRecord list"
  kv_lag :: int
  kv_cancelled :: bool
  kv_last :: string
  kv_read :: string
  kv_pcs :: "ns_pc list"

section \<open>Resource versions\<close>

text \<open>The accessors of the two versions (under the mutex of the input).\<close>

definition getLastResourceVersion :: "k8sEventInput \<Rightarrow> string" where
  [simp]: "getLastResourceVersion k = kv_last k"

definition setLastResourceVersion :: "string \<Rightarrow> k8sEventInput \<Rightarrow> k8sEventInput" where
  [simp]: "setLastResourceVersion rv k = k\<lparr>kv_last := rv\<rparr>"

definition getReadResourceVersion :: "k8sEventInput \<Rightarrow> string" where
  [simp]: "getReadResourceVersion k = kv_read k"

definition setReadResourceVersion :: "string \<Rightarrow> k8sEventInput \<Rightarrow> k8sEventInput" where
  [simp]: "setReadResourceVersion rv k = k\<lparr>kv_read := rv\<rparr>"

text \<open>On disk.\<close>

definition loadResourceVersion :: "metafs \<Rightarrow> string \<Rightarrow> string" where
  "loadResourceVersion m path =
     (if path = [] then [] else (case os_ReadFile m path of None \<Rightarrow> [] | Some raw \<Rightarrow> raw))"

definition ev_namespaces :: "K8sEventConfig \<Rightarrow> string list" where
  "ev_namespaces cfg = (if kc_Namespaces cfg = [] then [[]] else kc_Namespaces cfg)"

definition NewK8sEventInput :: "metafs \<Rightarrow> K8sEventConfig \<Rightarrow> k8sEventInput" where
  "NewK8sEventInput m cfg =
     \<lparr>kv_cfg = cfg, kv_queue = [], kv_lag = 0, kv_cancelled = False,
      kv_last = loadResourceVersion m (kc_ResourceVersionPath cfg), kv_read = [],
      kv_pcs = map (\<lambda>ns. NCall FromRun) (ev_namespaces cfg)\<rparr>"

definition ev_Commit :: "k8sEventInput \<Rightarrow> metafs \<Rightarrow> bool \<times> metafs" where
  "ev_Commit k m =
     (let rv = (if getReadResourceVersion k = [] then getLastResourceVersion k else getReadResourceVersion k); path = kc_ResourceVersionPath (kv_cfg k)
      in if path = [] \<or> rv = [] then (True, m) else write_rename path rv m)"

definition ev_Close :: "k8sEventInput \<Rightarrow> metafs \<Rightarrow> k8sEventInput \<times> bool \<times> metafs" where
  "ev_Close k m = (let k' = k\<lparr>kv_cancelled := True\<rparr> in (k', ev_Commit k' m))"

section \<open>The goroutine of a namespace\<close>

definition event_record :: "string \<Rightarrow> string \<Rightarrow> LogRecord" where
  "event_record raw rv = \<lparr>rec_Data = raw, rec_Offset = 0, rec_Meta = Some [(''resourceVersion'', rv)]\<rparr>"

text \<open>The send to the channel.\<close>

definition ev_send :: "LogRecord \<Rightarrow> k8sEventInput \<Rightarrow> k8sEventInput option" where
  "ev_send r k =
     (if length (kv_queue k) < queue_cap then Some (k\<lparr>kv_queue := kv_queue k @ [r]\<rparr>) else None)"

text \<open>\<open>enqueue\<close>: sends when there is room, fails on an Event that does not marshal or, the choice \<open>give_up\<close>, when the
  context is done; \<open>None\<close> while it blocks.\<close>

definition ev_enqueue :: "bool \<Rightarrow> K8sEvent \<Rightarrow> k8sEventInput \<Rightarrow> (bool \<times> k8sEventInput) option" where
  "ev_enqueue give_up e k =
     (case ke_JSON e of
        None \<Rightarrow> Some (False, k)
      | Some raw \<Rightarrow>
          (if give_up then (if kv_cancelled k then Some (False, k) else None)
           else map_option (\<lambda>k'. (True, k')) (ev_send (event_record raw (ke_ResourceVersion e)) k)))"

datatype list_result = ListExpired | ListErr | ListOk string "K8sEvent list"
datatype watch_result = WatchOk | WatchExpired | WatchErr

record k_event =
  kw_deleted :: bool
  kw_object :: "K8sEvent option"

definition set_pc :: "nat \<Rightarrow> ns_pc \<Rightarrow> k8sEventInput \<Rightarrow> k8sEventInput" where
  "set_pc i pc k = k\<lparr>kv_pcs := (kv_pcs k)[i := pc]\<rparr>"

text \<open>What follows \<open>listNamespace\<close>: in \<open>runNamespace\<close> an error ends the goroutine when the context is done and is retried
  after a second otherwise; in \<open>watchNamespace\<close> the error is ignored. Both loops check the context.\<close>

definition list_failed :: "nat \<Rightarrow> list_from \<Rightarrow> k8sEventInput \<Rightarrow> k8sEventInput" where
  "list_failed i from k =
     (case from of
        FromRun \<Rightarrow> set_pc i (if kv_cancelled k then NExited else NSleepList) k
      | FromWatch \<Rightarrow> set_pc i (if kv_cancelled k then NExited else NWatch) k)"

definition list_done :: "nat \<Rightarrow> k8sEventInput \<Rightarrow> k8sEventInput" where
  "list_done i k = set_pc i (if kv_cancelled k then NExited else NWatch) k"

text \<open>The list has come back: it becomes the last version, and unless it resumed its items are enqueued.\<close>

definition list_ok :: "nat \<Rightarrow> list_from \<Rightarrow> bool \<Rightarrow> string \<Rightarrow> K8sEvent list \<Rightarrow> k8sEventInput \<Rightarrow> k8sEventInput" where
  "list_ok i from resume rv items k =
     (let k1 = setLastResourceVersion rv k in if resume then list_done i k1 else set_pc i (NPush items from) k1)"

definition listNamespace_turn :: "nat \<Rightarrow> list_result \<Rightarrow> k8sEventInput \<Rightarrow> k8sEventInput option" where
  "listNamespace_turn i res k =
     (case kv_pcs k ! i of
        NListing rv from \<Rightarrow>
          Some (case res of
              ListExpired \<Rightarrow> set_pc i (NRelisting from) (setLastResourceVersion [] k)
            | ListErr \<Rightarrow> list_failed i from k
            | ListOk rv' items \<Rightarrow> list_ok i from (rv \<noteq> []) rv' items k)
      | NRelisting from \<Rightarrow>
          Some (case res of
              ListOk rv' items \<Rightarrow> list_ok i from False rv' items k
            | _ \<Rightarrow> list_failed i from k)
      | _ \<Rightarrow> None)"

definition push_turn :: "nat \<Rightarrow> bool \<Rightarrow> k8sEventInput \<Rightarrow> k8sEventInput option" where
  "push_turn i give_up k =
     (case kv_pcs k ! i of
        NPush [] from \<Rightarrow> Some (list_done i k)
      | NPush (e # es) from \<Rightarrow>
          (case ev_enqueue give_up e k of
             None \<Rightarrow> None
           | Some (True, k') \<Rightarrow> Some (set_pc i (NAdd es from) k')
           | Some (False, k') \<Rightarrow> Some (list_failed i from k'))
      | NSend e \<Rightarrow>
          (case ev_enqueue give_up e k of
             None \<Rightarrow> None
           | Some (ok, k') \<Rightarrow> Some (set_pc i (if ok then NAddWatch else NConsume) k'))
      | _ \<Rightarrow> None)"

text \<open>The counter of \<open>enqueue\<close> after a send.\<close>

definition count_turn :: "nat \<Rightarrow> k8sEventInput \<Rightarrow> k8sEventInput option" where
  "count_turn i k =
     (case kv_pcs k ! i of
        NAdd es from \<Rightarrow> Some (set_pc i (NPush es from) (k\<lparr>kv_lag := kv_lag k + 1\<rparr>))
      | NAddWatch \<Rightarrow> Some (set_pc i NConsume (k\<lparr>kv_lag := kv_lag k + 1\<rparr>))
      | _ \<Rightarrow> None)"

definition open_turn :: "nat \<Rightarrow> watch_result \<Rightarrow> k8sEventInput \<Rightarrow> k8sEventInput option" where
  "open_turn i res k =
     (if kv_pcs k ! i \<noteq> NWatch then None
      else Some (case res of
          WatchOk \<Rightarrow> set_pc i NConsume k
        | WatchExpired \<Rightarrow> set_pc i (NCall FromWatch) (setLastResourceVersion [] k)
        | WatchErr \<Rightarrow> set_pc i NSleepWatch k))"

text \<open>One event of \<open>consumeWatch\<close>: the version moves on before the event is enqueued.\<close>

definition consume_turn :: "nat \<Rightarrow> k_event \<Rightarrow> k8sEventInput \<Rightarrow> k8sEventInput option" where
  "consume_turn i ev k =
     (if kv_pcs k ! i \<noteq> NConsume then None
      else Some (case (kw_deleted ev, kw_object ev) of
          (False, Some e) \<Rightarrow> set_pc i (NSend e) (setLastResourceVersion (ke_ResourceVersion e) k)
        | _ \<Rightarrow> k))"

text \<open>\<open>ReadBatch\<close> takes up to \<open>size\<close> records without waiting; \<open>stop\<close>: the context is found done after so many.\<close>

definition rec_version :: "LogRecord \<Rightarrow> string" where
  "rec_version r = (case rec_Meta r of None \<Rightarrow> [] | Some m \<Rightarrow> gm_str m ''resourceVersion'')"

fun read_queue :: "nat \<Rightarrow> k8sEventInput \<Rightarrow> LogRecord list \<times> k8sEventInput" where
  "read_queue 0 k = ([], k)"
| "read_queue (Suc n) k =
     (case kv_queue k of
        [] \<Rightarrow> ([], k)
      | r # q \<Rightarrow>
          (let k0 = k\<lparr>kv_queue := q, kv_lag := kv_lag k - 1\<rparr>;
               k1 = (if rec_version r \<noteq> [] then setReadResourceVersion (rec_version r) k0 else k0)
           in case read_queue n k1 of (rs, k2) \<Rightarrow> (r # rs, k2)))"

definition ev_ReadBatch :: "nat \<Rightarrow> nat option \<Rightarrow> k8sEventInput \<Rightarrow> LogRecord list \<times> k8sEventInput" where
  "ev_ReadBatch sz stop k = read_queue (case stop of None \<Rightarrow> sz | Some n \<Rightarrow> min n sz) k"

definition ev_Lag :: "k8sEventInput \<Rightarrow> int" where
  "ev_Lag k = kv_lag k"

section \<open>Runs\<close>

datatype k_action =
    KCall nat
  | KList nat list_result
  | KPush nat bool
  | KCount nat
  | KWake nat
  | KOpen nat watch_result
  | KEvent nat k_event
  | KClosed nat
  | KSeeCancel nat
  | KRead nat "nat option"
  | KCommit
  | KClose

text \<open>The input, the disk and the records read so far.\<close>

record k_world =
  kw_input :: k8sEventInput
  kw_meta :: metafs
  kw_out :: "LogRecord list"

definition goroutine :: "(k8sEventInput \<Rightarrow> k8sEventInput option) \<Rightarrow> nat \<Rightarrow> k_world \<Rightarrow> k_world option" where
  "goroutine f i w =
     (if length (kv_pcs (kw_input w)) \<le> i then None else map_option (\<lambda>k. w\<lparr>kw_input := k\<rparr>) (f (kw_input w)))"

definition wake_turn :: "nat \<Rightarrow> k8sEventInput \<Rightarrow> k8sEventInput option" where
  "wake_turn i k =
     (case kv_pcs k ! i of
        NSleepList \<Rightarrow> Some (set_pc i (if kv_cancelled k then NExited else NCall FromRun) k)
      | NSleepWatch \<Rightarrow> Some (set_pc i (if kv_cancelled k then NExited else NWatch) k)
      | _ \<Rightarrow> None)"

fun k_act :: "k_action \<Rightarrow> k_world \<Rightarrow> k_world option" where
  "k_act (KCall i) w =
     goroutine (\<lambda>k. case kv_pcs k ! i of NCall from \<Rightarrow> Some (set_pc i (NListing (getLastResourceVersion k) from) k) | _ \<Rightarrow> None) i w"
| "k_act (KList i res) w = goroutine (listNamespace_turn i res) i w"
| "k_act (KPush i give_up) w = goroutine (push_turn i give_up) i w"
| "k_act (KCount i) w = goroutine (count_turn i) i w"
| "k_act (KWake i) w = goroutine (wake_turn i) i w"
| "k_act (KOpen i res) w = goroutine (open_turn i res) i w"
| "k_act (KEvent i ev) w = goroutine (consume_turn i ev) i w"
| "k_act (KClosed i) w =
     goroutine (\<lambda>k. if kv_pcs k ! i = NConsume then Some (set_pc i (if kv_cancelled k then NExited else NWatch) k) else None) i w"
| "k_act (KSeeCancel i) w =
     goroutine (\<lambda>k. if kv_pcs k ! i = NConsume \<and> kv_cancelled k then Some (set_pc i NExited k) else None) i w"
| "k_act (KRead sz stop) w =
     (case ev_ReadBatch sz stop (kw_input w) of (rs, k) \<Rightarrow> Some (w\<lparr>kw_input := k, kw_out := kw_out w @ rs\<rparr>))"
| "k_act KCommit w = Some (w\<lparr>kw_meta := snd (ev_Commit (kw_input w) (kw_meta w))\<rparr>)"
| "k_act KClose w =
     (case ev_Close (kw_input w) (kw_meta w) of (k, ok, m) \<Rightarrow> Some (w\<lparr>kw_input := k, kw_meta := m\<rparr>))"

fun k_acts :: "k_action list \<Rightarrow> k_world \<Rightarrow> k_world option" where
  "k_acts [] w = Some w"
| "k_acts (a # as) w = (case k_act a w of None \<Rightarrow> None | Some w' \<Rightarrow> k_acts as w')"

inductive k_reach :: "k_world \<Rightarrow> bool" where
  opened: "k_reach \<lparr>kw_input = NewK8sEventInput m cfg, kw_meta = m, kw_out = []\<rparr>"
| turn: "k_reach w \<Longrightarrow> k_act a w = Some w' \<Longrightarrow> k_reach w'"

section \<open>The queue\<close>

lemma read_queue_spec: "read_queue n k = (rs, k') \<Longrightarrow>
    kv_queue k = rs @ kv_queue k' \<and> length rs = min n (length (kv_queue k)) \<and> kv_lag k' = kv_lag k - int (length rs)"
proof (induction n arbitrary: k rs k')
  case (Suc n)
  show ?case
  proof (cases "kv_queue k")
    case (Cons r q)
    let ?k0 = "k\<lparr>kv_queue := q, kv_lag := kv_lag k - 1\<rparr>"
    define k1 where "k1 = (if rec_version r \<noteq> [] then setReadResourceVersion (rec_version r) ?k0 else ?k0)"
    then have k1: "kv_queue k1 = q" "kv_lag k1 = kv_lag k - 1" by simp_all
    obtain qs k2 where q: "read_queue n k1 = (qs, k2)" by fastforce
    from Suc.prems Cons q[unfolded k1_def] have e: "rs = r # qs" "k' = k2" by (simp_all add: Let_def)
    from Suc.IH[OF q] have "q = qs @ kv_queue k2" "length qs = min n (length q)" "kv_lag k2 = kv_lag k - 1 - int (length qs)"
      unfolding k1 by blast+
    then show ?thesis unfolding e Cons by simp
  qed (use Suc.prems in auto)
qed simp

interpretation ev: record_queue kv_queue kv_lag ev_send read_queue
  by unfold_locales (auto simp: ev_send_def split: if_splits dest: read_queue_spec)

text \<open>The goroutines whose last record is not counted yet.\<close>

fun counting :: "ns_pc \<Rightarrow> bool" where
  "counting (NAdd es from) = True"
| "counting NAddWatch = True"
| "counting _ = False"

definition pending :: "k8sEventInput \<Rightarrow> nat" where
  "pending k = length (filter counting (kv_pcs k))"

lemma enqueue_cases:
  assumes "ev_enqueue give_up e k = Some (ok, k')"
  obtains "\<not> ok" "k' = k" | raw where "ok" "ke_JSON e = Some raw" "ev_send (event_record raw (ke_ResourceVersion e)) k = Some k'"
  using assms by (auto simp: ev_enqueue_def split: option.splits if_splits)

text \<open>What a turn of goroutine \<open>i\<close> does: it moves, and leaves the queue alone (\<open>moved\<close>), sends one record, or counts one.\<close>

definition moved :: "nat \<Rightarrow> k8sEventInput \<Rightarrow> k8sEventInput \<Rightarrow> bool" where
  "moved i k k' = (kv_queue k' = kv_queue k \<and> kv_lag k' = kv_lag k \<and> kv_read k' = kv_read k \<and> kv_cfg k' = kv_cfg k
     \<and> \<not> counting (kv_pcs k ! i) \<and> (\<exists>pc. \<not> counting pc \<and> kv_pcs k' = (kv_pcs k)[i := pc]))"

lemma movedI: "\<not> counting (kv_pcs k ! i) \<Longrightarrow> \<not> counting pc \<Longrightarrow> moved i k (set_pc i pc k)"
  "\<not> counting (kv_pcs k ! i) \<Longrightarrow> \<not> counting pc \<Longrightarrow> moved i k (set_pc i pc (k\<lparr>kv_last := v\<rparr>))"
  by (auto simp: moved_def set_pc_def)

lemma moved_list:
  assumes "\<not> counting (kv_pcs k ! i)"
  shows "moved i k (list_failed i from k)" "moved i k (list_done i k)" "moved i k (list_ok i from b rv items k)"
  using assms by (auto simp: list_failed_def list_done_def list_ok_def Let_def intro!: movedI split: list_from.split)

lemma moved_turns: "listNamespace_turn i res k = Some k' \<Longrightarrow> moved i k k'" "open_turn i wres k = Some k' \<Longrightarrow> moved i k k'"
  "wake_turn i k = Some k' \<Longrightarrow> moved i k k'"
  by (auto simp: listNamespace_turn_def open_turn_def wake_turn_def intro!: movedI moved_list
      split: ns_pc.splits list_result.splits watch_result.splits if_splits)

lemma moved_self: "\<not> counting (kv_pcs k ! i) \<Longrightarrow> moved i k k"
  unfolding moved_def by (metis list_update_id)

lemma moved_consume: "consume_turn i ev k = Some k' \<Longrightarrow> moved i k k'"
  by (auto simp: consume_turn_def intro!: movedI moved_self split: if_splits option.splits bool.splits)

lemma push_turn_cases:
  assumes "push_turn i give_up k = Some k'"
  obtains "moved i k k'" | r k1 pc where "ev_send r k = Some k1" "\<not> counting (kv_pcs k ! i)" "counting pc" "k' = set_pc i pc k1"
proof -
  have e: "moved i k k' \<or> (\<exists>r k1 pc. ev_send r k = Some k1 \<and> \<not> counting (kv_pcs k ! i) \<and> counting pc \<and> k' = set_pc i pc k1)"
    if q: "ev_enqueue give_up e k = Some (ok, k1)" and c: "\<not> counting (kv_pcs k ! i)"
      and g: "k' = (if ok then set_pc i pc k1 else f k1)" "counting pc" and f: "moved i k (f k)" for e ok k1 pc f
    using q
  proof (cases rule: enqueue_cases)
    case 1
    then show ?thesis using g f by simp
  next
    case (2 raw)
    then show ?thesis using g c by auto
  qed
  show ?thesis
  proof (cases "kv_pcs k ! i")
    case (NPush items fr)
    show ?thesis
    proof (cases items)
      case Nil
      then show ?thesis using assms NPush that(1) moved_list(2)[of k i] by (simp add: push_turn_def)
    next
      case (Cons x xs)
      then obtain ok k1 where q: "ev_enqueue give_up x k = Some (ok, k1)"
        using assms NPush by (auto simp: push_turn_def split: option.splits)
      then have g: "k' = (if ok then set_pc i (NAdd xs fr) k1 else list_failed i fr k1)"
        using assms NPush Cons by (auto simp: push_turn_def split: bool.splits)
      have "moved i k (list_failed i fr k)" using NPush by (simp add: moved_list)
      from e[of x ok k1 "NAdd xs fr" "list_failed i fr", OF q _ g _ this] NPush that show ?thesis by auto
    qed
  next
    case (NSend x)
    then obtain ok k1 where q: "ev_enqueue give_up x k = Some (ok, k1)"
      using assms by (auto simp: push_turn_def split: option.splits)
    then have g: "k' = (if ok then set_pc i (NAddWatch) k1 else set_pc i NConsume k1)"
      using assms NSend by (auto simp: push_turn_def)
    have "moved i k (set_pc i NConsume k)" using NSend by (simp add: movedI)
    from e[of x ok k1 NAddWatch "set_pc i NConsume", OF q _ g _ this] NSend that show ?thesis by auto
  qed (use assms in \<open>simp_all add: push_turn_def\<close>)
qed

definition k_inv :: "k_world \<Rightarrow> bool" where
  "k_inv w = (queue_ok (kv_queue (kw_input w)) (kv_lag (kw_input w)) (pending (kw_input w))
     \<and> kv_read (kw_input w) = foldl (\<lambda>v r. if rec_version r \<noteq> [] then rec_version r else v) [] (kw_out w))"

lemma read_queue_read: "read_queue n k = (rs, k') \<Longrightarrow>
    kv_read k' = foldl (\<lambda>v r. if rec_version r \<noteq> [] then rec_version r else v) (kv_read k) rs \<and> kv_cfg k' = kv_cfg k
      \<and> kv_pcs k' = kv_pcs k"
  by (induction n arbitrary: k rs k') (auto simp: Let_def split: list.splits prod.splits)

text \<open>One action: the queue stays in bounds, the counter and the read version follow the records, and the channel makes
  one step.\<close>

definition good_step :: "k_world \<Rightarrow> k_world \<Rightarrow> bool" where
  "good_step w w' = (chan_step (chan_of (kw_out w) (kv_queue (kw_input w))) (chan_of (kw_out w') (kv_queue (kw_input w')))
     \<and> (k_inv w \<longrightarrow> k_inv w') \<and> kv_cfg (kw_input w') = kv_cfg (kw_input w)
     \<and> length (kv_pcs (kw_input w')) = length (kv_pcs (kw_input w)))"

lemma good_moved:
  assumes "moved i (kw_input w) k" "i < length (kv_pcs (kw_input w))"
  shows "good_step w (w\<lparr>kw_input := k\<rparr>)"
proof -
  obtain pc where pc: "\<not> counting pc" "kv_pcs k = (kv_pcs (kw_input w))[i := pc]" "\<not> counting (kv_pcs (kw_input w) ! i)"
    using assms(1) by (auto simp: moved_def)
  then have "pending k = pending (kw_input w)"
    unfolding pending_def pc(2) by (intro filter_update_same[OF assms(2)]) simp
  with assms(1) pc(2) show ?thesis by (simp add: good_step_def moved_def chan_of_def chan_step_refl k_inv_def)
qed

lemma goroutine_some: "goroutine f i w = Some w' \<Longrightarrow>
    \<exists>k. f (kw_input w) = Some k \<and> w' = w\<lparr>kw_input := k\<rparr> \<and> i < length (kv_pcs (kw_input w))"
  by (auto simp: goroutine_def split: if_splits)

lemma good_push:
  assumes "goroutine (push_turn i g) i w = Some w'"
  shows "good_step w w'"
proof -
  obtain k where k: "push_turn i g (kw_input w) = Some k" "w' = w\<lparr>kw_input := k\<rparr>" "i < length (kv_pcs (kw_input w))"
    using goroutine_some[OF assms] by blast
  from k(1) show ?thesis
  proof (cases rule: push_turn_cases)
    case 1
    with k show ?thesis using good_moved by simp
  next
    case (2 r k1 pc)
    have same: "kv_pcs k1 = kv_pcs (kw_input w)" "kv_read k1 = kv_read (kw_input w)" "kv_cfg k1 = kv_cfg (kw_input w)"
      using 2(1) by (auto simp: ev_send_def split: if_splits)
    have "pending k = Suc (pending (kw_input w))"
      using length_filter_update[OF k(3), of counting pc] 2(2-4) same by (simp add: pending_def set_pc_def)
    with ev.send_ok[OF 2(1), of "pending (kw_input w)"] ev.send_chan[OF 2(1), of "kw_out w"] same 2(4) show ?thesis
      by (simp add: good_step_def k_inv_def k(2) set_pc_def)
  qed
qed

lemma good_count:
  assumes "goroutine (count_turn i) i w = Some w'"
  shows "good_step w w'"
proof -
  obtain k where k: "count_turn i (kw_input w) = Some k" "w' = w\<lparr>kw_input := k\<rparr>" "i < length (kv_pcs (kw_input w))"
    using goroutine_some[OF assms] by blast
  then obtain pc where pc: "k = set_pc i pc (kw_input w\<lparr>kv_lag := kv_lag (kw_input w) + 1\<rparr>)" "\<not> counting pc"
      "counting (kv_pcs (kw_input w) ! i)"
    by (auto simp: count_turn_def split: ns_pc.splits)
  have "Suc (pending k) = pending (kw_input w)"
    using length_filter_update[OF k(3), of counting pc] pc by (simp add: pending_def set_pc_def)
  with pc show ?thesis
    by (simp add: good_step_def k_inv_def k(2) set_pc_def chan_of_def chan_step_refl queue_ok_count flip: queue_ok_count)
qed

lemma good_other:
  assumes "goroutine f i w = Some w'" "\<And>k'. f (kw_input w) = Some k' \<Longrightarrow> moved i (kw_input w) k'"
  shows "good_step w w'"
  using goroutine_some[OF assms(1)] assms(2) good_moved by blast

lemma good_runner:
  assumes "kv_queue k = kv_queue (kw_input w)" "kv_lag k = kv_lag (kw_input w)" "kv_read k = kv_read (kw_input w)"
    "kv_cfg k = kv_cfg (kw_input w)" "kv_pcs k = kv_pcs (kw_input w)"
  shows "good_step w (w\<lparr>kw_input := k, kw_meta := m\<rparr>)"
  using assms by (simp add: good_step_def chan_of_def chan_step_refl k_inv_def pending_def)

lemma k_act_good:
  assumes "k_act a w = Some w'"
  shows "good_step w w'"
proof (cases a)
  case (KRead sz stop)
  obtain rs k where r: "read_queue (case stop of None \<Rightarrow> sz | Some n \<Rightarrow> min n sz) (kw_input w) = (rs, k)" by fastforce
  with assms KRead have w': "w' = w\<lparr>kw_input := k, kw_out := kw_out w @ rs\<rparr>" by (simp add: ev_ReadBatch_def)
  show ?thesis
    using ev.read_chan[OF r, of "kw_out w"] ev.read_ok[OF r] read_queue_read[OF r]
    by (auto simp: good_step_def w' k_inv_def pending_def)
next
  case KCommit
  with assms have "w' = w\<lparr>kw_input := kw_input w, kw_meta := snd (ev_Commit (kw_input w) (kw_meta w))\<rparr>" by simp
  then show ?thesis using good_runner[of "kw_input w" w] by simp
next
  case KClose
  with assms show ?thesis by (auto simp: ev_Close_def Let_def intro!: good_runner split: prod.splits)
next
  case (KCall i)
  with assms show ?thesis by (auto elim!: good_other intro!: movedI split: ns_pc.splits)
next
  case (KClosed i)
  with assms show ?thesis by (auto elim!: good_other intro!: movedI split: if_splits)
next
  case (KSeeCancel i)
  with assms show ?thesis by (auto elim!: good_other intro!: movedI split: if_splits)
next
  case (KEvent i ev)
  with assms show ?thesis by (auto elim!: good_other dest: moved_consume)
next
  case (KPush i g)
  with assms show ?thesis by (simp add: good_push)
next
  case (KCount i)
  with assms show ?thesis by (simp add: good_count)
qed (use assms in \<open>auto elim!: good_other dest: moved_turns\<close>)

lemma k_reach_inv: "k_reach w \<Longrightarrow> k_inv w"
proof (induction rule: k_reach.induct)
  case (opened m cfg)
  have "pending (NewK8sEventInput m cfg) = 0" by (simp add: pending_def NewK8sEventInput_def)
  then show ?case by (simp add: k_inv_def NewK8sEventInput_def)
next
  case (turn w a w')
  with k_act_good[OF turn(2)] show ?case by (simp add: good_step_def)
qed

lemma k_acts_reach: "k_acts as w = Some w' \<Longrightarrow> k_reach w \<Longrightarrow> k_reach w'"
  by (induction as arbitrary: w) (auto split: option.splits intro: k_reach.turn)

section \<open>Properties\<close>

definition k_chan :: "k_world \<Rightarrow> LogRecord list \<times> nat" where
  "k_chan w = chan_of (kw_out w) (kv_queue (kw_input w))"

text \<open>Two Events and an input that has read the first of them from the watch of its only namespace.\<close>

definition demo_event :: "string \<Rightarrow> K8sEvent" where
  "demo_event rv = \<lparr>ke_ResourceVersion = rv, ke_JSON = Some (''{'' @ rv @ ''}'')\<rparr>"

definition demo_kcfg :: "string list \<Rightarrow> K8sEventConfig" where
  "demo_kcfg nss = \<lparr>kc_Namespaces = nss, kc_ResourceVersionPath = ''/m/rv''\<rparr>"

definition no_files :: metafs where
  "no_files = \<lparr>mf_files = [], mf_script = []\<rparr>"

definition k_open :: "metafs \<Rightarrow> string list \<Rightarrow> k_world" where
  "k_open m nss = \<lparr>kw_input = NewK8sEventInput m (demo_kcfg nss), kw_meta = m, kw_out = []\<rparr>"

definition k_run :: "k_action list \<Rightarrow> k_world \<Rightarrow> k_world" where
  "k_run as w = (case k_acts as w of Some w' \<Rightarrow> w' | None \<Rightarrow> w)"

definition added :: "string \<Rightarrow> k_event" where
  "added rv = \<lparr>kw_deleted = False, kw_object = Some (demo_event rv)\<rparr>"

definition demo_kacts :: "k_action list" where
  "demo_kacts = [KCall 0, KList 0 (ListOk ''5'' []), KPush 0 False, KOpen 0 WatchOk, KEvent 0 (added ''6''), KPush 0 False, KCount 0, KEvent 0 (added ''7''),
     KPush 0 False, KRead 1 None]"

lemma k_run_reach: "k_reach (k_run as (k_open m nss))"
  by (auto simp: k_run_def k_open_def split: option.split intro: k_acts_reach k_reach.opened)

lemma k_acts_chan: "k_acts as w = Some w' \<Longrightarrow> chan_step\<^sup>*\<^sup>* (k_chan w) (k_chan w')"
proof (induction as arbitrary: w)
  case (Cons a as)
  then obtain u where u: "k_act a w = Some u" "k_acts as u = Some w'" by (auto split: option.splits)
  from k_act_good[OF u(1)] have "chan_step (k_chan w) (k_chan u)" by (simp add: good_step_def k_chan_def)
  with Cons.IH[OF u(2)] show ?case by (rule converse_rtranclp_into_rtranclp[rotated])
qed simp

text \<open>C20: the input is a channel: in whatever order its goroutines and the runner move, the records the runner
  has read are a prefix of the records that were enqueued, in their order. Each run refines sending
  to and taking from one list.\<close>

theorem events_are_a_channel:
  assumes "k_acts as w = Some w'"
  shows "chan_step\<^sup>*\<^sup>* (k_chan w) (k_chan w')"
  using assms by (rule k_acts_chan)

theorem events_are_a_channel_witness:
  "chan_step\<^sup>*\<^sup>* (k_chan (k_open no_files [])) (k_chan (k_run demo_kacts (k_open no_files [])))
     \<and> snd (k_chan (k_run demo_kacts (k_open no_files []))) = 1"
proof -
  have "\<not> Option.is_none (k_acts demo_kacts (k_open no_files []))" by code_simp
  then have "k_acts demo_kacts (k_open no_files []) = Some (k_run demo_kacts (k_open no_files []))"
    by (auto simp: k_run_def Option.is_none_def)
  moreover have "snd (k_chan (k_run demo_kacts (k_open no_files []))) = 1" by code_simp
  ultimately show ?thesis using events_are_a_channel by blast
qed

text \<open>The queue never holds more than 1000 records, and the lag the input reports is the number it holds, less one for
  each goroutine that has sent a record and not yet added to the counter.\<close>

theorem event_queue_bounds:
  assumes "k_reach w"
  shows "length (kv_queue (kw_input w)) \<le> 1000
    \<and> ev_Lag (kw_input w) + int (pending (kw_input w)) = int (length (kv_queue (kw_input w)))
    \<and> pending (kw_input w) \<le> length (kv_pcs (kw_input w))"
  using k_reach_inv[OF assms] by (simp add: k_inv_def queue_ok_def queue_cap_def ev_Lag_def pending_def)

theorem event_queue_bounds_witness:
  "length (kv_queue (kw_input (k_run demo_kacts (k_open no_files [])))) \<le> 1000 \<and>
   ev_Lag (kw_input (k_run demo_kacts (k_open no_files []))) + int (pending (kw_input (k_run demo_kacts (k_open no_files []))))
     = int (length (kv_queue (kw_input (k_run demo_kacts (k_open no_files [])))))"
  using event_queue_bounds[OF k_run_reach] by blast

text \<open>C23: a commit saves the version of the last record that was read, never one that is still queued.\<close>

theorem commit_saves_last_read:
  assumes "k_reach w" "kw_out w = rs @ [r]" "rec_version r \<noteq> []" "kc_ResourceVersionPath (kv_cfg (kw_input w)) \<noteq> []"
    and "ev_Commit (kw_input w) m = (True, m')"
  shows "os_ReadFile m' (kc_ResourceVersionPath (kv_cfg (kw_input w))) = Some (rec_version r)"
proof -
  have "kv_read (kw_input w) = rec_version r" using k_reach_inv[OF assms(1)] assms(2,3) by (simp add: k_inv_def)
  with assms(3-5) have "write_rename (kc_ResourceVersionPath (kv_cfg (kw_input w))) (rec_version r) m = (True, m')"
    by (simp add: ev_Commit_def Let_def)
  from write_rename_atomic[OF this] show ?thesis by simp
qed

theorem commit_saves_last_read_witness:
  "os_ReadFile (snd (ev_Commit (kw_input (k_run demo_kacts (k_open no_files []))) no_files)) ''/m/rv'' = Some ''6''"
proof -
  let ?w = "k_run demo_kacts (k_open no_files [])"
  have o: "kw_out ?w = [] @ [event_record ''{6}'' ''6'']" by code_simp
  have v: "rec_version (event_record ''{6}'' ''6'') = ''6''" by code_simp
  have p: "kc_ResourceVersionPath (kv_cfg (kw_input ?w)) = ''/m/rv''" by code_simp
  have "fst (ev_Commit (kw_input ?w) no_files) = True" by code_simp
  then have c: "ev_Commit (kw_input ?w) no_files = (True, snd (ev_Commit (kw_input ?w) no_files))" by (metis prod.collapse)
  from commit_saves_last_read[OF k_run_reach o _ _ c] show ?thesis by (simp add: v p)
qed


text \<open>In a concrete run the Events of a second namespace are lost at the first start. The namespaces share one version: once the
  first has listed, the second takes it for a version to resume from and drops its own list.\<close>

theorem second_namespace_skipped:
  "(let w = k_run [KCall 0, KList 0 (ListOk ''9'' [demo_event ''7'']), KPush 0 False, KCount 0, KPush 0 False,
              KCall 1, KList 1 (ListOk ''10'' [demo_event ''8'']), KOpen 1 WatchOk] (k_open no_files [''a'', ''b''])
    in map rec_version (kv_queue (kw_input w)) = [''7''] \<and> kv_pcs (kw_input w) = [NWatch, NConsume])"
  by code_simp

end
