(* ===== verification/K8sObjectState.thy ===== *)
theory K8sObjectState
  imports Json RecordQueue
begin

text \<open>
  \<open>internal/log-pilot-agent/input/k8sobjectstate.go\<close>: the input that snapshots Kubernetes objects and
  records their changes. One goroutine per kind and namespace lists, enqueues a snapshot of every
  object, and then enqueues what its watch delivers until the watch ends.

  An object is the part of it the code reads. Values the code hands on to the encoder (conditions,
  capacities) are JSON documents; \<open>fmt\<close> renders a time as \<open>time.RFC3339Nano\<close> in UTC.
\<close>

record K8sObjectStateConfig =
  oc_Namespaces :: "string list"
  oc_Resources :: "string list"

section \<open>Objects\<close>

record object_meta =
  km_Name :: string
  km_Namespace :: string
  km_UID :: string
  km_ResourceVersion :: string
  km_Labels :: "(string, string) gomap option"
  km_Annotations :: "(string, string) gomap option"
  km_Created :: int

record terminated =
  te_Reason :: string
  te_Message :: string
  te_ExitCode :: int
  te_StartedAt :: int
  te_FinishedAt :: int

record container_state =
  kt_Waiting :: "(string \<times> string) option"
  kt_Running :: "int option"
  kt_Terminated :: "terminated option"

record container_status =
  ks_Name :: string
  ks_Ready :: bool
  ks_RestartCount :: int
  ks_State :: container_state
  ks_LastState :: container_state

record pod_obj =
  xp_Meta :: object_meta
  xp_NodeName :: string
  xp_Phase :: string
  xp_Reason :: string
  xp_Message :: string
  xp_Conditions :: json
  xp_Containers :: "container_status list"

record node_obj =
  xn_Meta :: object_meta
  xn_Conditions :: json
  xn_Capacity :: json
  xn_Allocatable :: json

record deployment_obj =
  xd_Meta :: object_meta
  xd_Replicas :: int
  xd_Ready :: int
  xd_Available :: int
  xd_Updated :: int
  xd_Unavailable :: int
  xd_ObservedGeneration :: int
  xd_Conditions :: json

record stateful_set_obj =
  xs_Meta :: object_meta
  xs_Replicas :: int
  xs_Ready :: int
  xs_Available :: int
  xs_Updated :: int
  xs_Current :: int
  xs_ObservedGeneration :: int
  xs_Conditions :: json

record daemon_set_obj =
  xa_Meta :: object_meta
  xa_Desired :: int
  xa_Current :: int
  xa_Ready :: int
  xa_Updated :: int
  xa_Available :: int
  xa_Unavailable :: int
  xa_ObservedGeneration :: int
  xa_Conditions :: json

record job_obj =
  xj_Meta :: object_meta
  xj_Active :: int
  xj_Succeeded :: int
  xj_Failed :: int
  xj_Ready :: "int option"
  xj_CompletedIndexes :: string
  xj_FailedIndexes :: "string option"
  xj_Conditions :: json
  xj_StartTime :: "int option"
  xj_CompletionTime :: "int option"

datatype kobject =
    PodObject pod_obj
  | NodeObject node_obj
  | DeploymentObject deployment_obj
  | StatefulSetObject stateful_set_obj
  | DaemonSetObject daemon_set_obj
  | JobObject job_obj
  | OtherObject

section \<open>The state of an object\<close>

text \<open>A \<open>map[string]any\<close> is encoded with its keys sorted.\<close>

definition jmap :: "(string \<times> json) list \<Rightarrow> json" where
  "jmap ms = JObj (sort_key fst ms)"

definition jint :: "int \<Rightarrow> json" where
  "jint i = JNum (show_int i)"

definition jstrings :: "(string, string) gomap option \<Rightarrow> json" where
  "jstrings m = (case m of None \<Rightarrow> JNull | Some ms \<Rightarrow> jmap (map (\<lambda>(k, v). (k, JStr v)) ms))"

definition metadataState :: "(int \<Rightarrow> string) \<Rightarrow> object_meta \<Rightarrow> json" where
  "metadataState fmt m =
     jmap [(''name'', JStr (km_Name m)), (''namespace'', JStr (km_Namespace m)), (''uid'', JStr (km_UID m)),
       (''resourceVersion'', JStr (km_ResourceVersion m)), (''labels'', jstrings (km_Labels m)),
       (''annotations'', jstrings (km_Annotations m)), (''creationTime'', JStr (fmt (km_Created m)))]"

definition containerState :: "(int \<Rightarrow> string) \<Rightarrow> container_state \<Rightarrow> json" where
  "containerState fmt st =
     (case kt_Waiting st of
        Some (reason, msg) \<Rightarrow> jmap [(''state'', JStr ''waiting''), (''reason'', JStr reason), (''message'', JStr msg)]
      | None \<Rightarrow>
          (case kt_Running st of
             Some t \<Rightarrow> jmap [(''state'', JStr ''running''), (''startedAt'', JStr (fmt t))]
           | None \<Rightarrow>
               (case kt_Terminated st of
                  Some t \<Rightarrow> jmap [(''state'', JStr ''terminated''), (''reason'', JStr (te_Reason t)), (''message'', JStr (te_Message t)),
                    (''exitCode'', jint (te_ExitCode t)), (''startedAt'', JStr (fmt (te_StartedAt t))),
                    (''finishedAt'', JStr (fmt (te_FinishedAt t)))]
                | None \<Rightarrow> JNull)))"

definition podState :: "(int \<Rightarrow> string) \<Rightarrow> pod_obj \<Rightarrow> json" where
  "podState fmt p =
     jmap [(''metadata'', metadataState fmt (xp_Meta p)), (''nodeName'', JStr (xp_NodeName p)), (''phase'', JStr (xp_Phase p)),
       (''reason'', JStr (xp_Reason p)), (''message'', JStr (xp_Message p)), (''conditions'', xp_Conditions p),
       (''containerStatuses'', JArr (map (\<lambda>c.
          jmap [(''name'', JStr (ks_Name c)), (''ready'', JBool (ks_Ready c)), (''restartCount'', jint (ks_RestartCount c)),
            (''state'', containerState fmt (ks_State c)), (''lastState'', containerState fmt (ks_LastState c))]) (xp_Containers p)))]"

definition nodeState :: "(int \<Rightarrow> string) \<Rightarrow> node_obj \<Rightarrow> json" where
  "nodeState fmt n =
     jmap [(''metadata'', metadataState fmt (xn_Meta n)), (''conditions'', xn_Conditions n), (''capacity'', xn_Capacity n),
       (''allocatable'', xn_Allocatable n)]"

definition deploymentState :: "(int \<Rightarrow> string) \<Rightarrow> deployment_obj \<Rightarrow> json" where
  "deploymentState fmt d =
     jmap [(''metadata'', metadataState fmt (xd_Meta d)), (''replicas'', jint (xd_Replicas d)), (''readyReplicas'', jint (xd_Ready d)),
       (''availableReplicas'', jint (xd_Available d)), (''updatedReplicas'', jint (xd_Updated d)),
       (''unavailableReplicas'', jint (xd_Unavailable d)), (''observedGeneration'', jint (xd_ObservedGeneration d)),
       (''conditions'', xd_Conditions d)]"

definition statefulSetState :: "(int \<Rightarrow> string) \<Rightarrow> stateful_set_obj \<Rightarrow> json" where
  "statefulSetState fmt d =
     jmap [(''metadata'', metadataState fmt (xs_Meta d)), (''replicas'', jint (xs_Replicas d)), (''readyReplicas'', jint (xs_Ready d)),
       (''availableReplicas'', jint (xs_Available d)), (''updatedReplicas'', jint (xs_Updated d)),
       (''currentReplicas'', jint (xs_Current d)), (''observedGeneration'', jint (xs_ObservedGeneration d)),
       (''conditions'', xs_Conditions d)]"

definition daemonSetState :: "(int \<Rightarrow> string) \<Rightarrow> daemon_set_obj \<Rightarrow> json" where
  "daemonSetState fmt d =
     jmap [(''metadata'', metadataState fmt (xa_Meta d)), (''desiredNumberScheduled'', jint (xa_Desired d)),
       (''currentNumberScheduled'', jint (xa_Current d)), (''numberReady'', jint (xa_Ready d)),
       (''updatedNumberScheduled'', jint (xa_Updated d)), (''numberAvailable'', jint (xa_Available d)),
       (''numberUnavailable'', jint (xa_Unavailable d)), (''observedGeneration'', jint (xa_ObservedGeneration d)),
       (''conditions'', xa_Conditions d)]"

definition optionalTime :: "(int \<Rightarrow> string) \<Rightarrow> int option \<Rightarrow> string" where
  "optionalTime fmt t = (case t of None \<Rightarrow> [] | Some x \<Rightarrow> fmt x)"

definition jobState :: "(int \<Rightarrow> string) \<Rightarrow> job_obj \<Rightarrow> json" where
  "jobState fmt j =
     jmap [(''metadata'', metadataState fmt (xj_Meta j)), (''active'', jint (xj_Active j)), (''succeeded'', jint (xj_Succeeded j)),
       (''failed'', jint (xj_Failed j)), (''ready'', (case xj_Ready j of None \<Rightarrow> JNull | Some n \<Rightarrow> jint n)),
       (''completedIndexes'', JStr (xj_CompletedIndexes j)),
       (''failedIndexes'', (case xj_FailedIndexes j of None \<Rightarrow> JNull | Some x \<Rightarrow> JStr x)), (''conditions'', xj_Conditions j),
       (''startTime'', JStr (optionalTime fmt (xj_StartTime j))), (''completionTime'', JStr (optionalTime fmt (xj_CompletionTime j)))]"

text \<open>Kind and state, as the loops over a list and \<open>handleObject\<close> pair them.\<close>

definition kind_state :: "(int \<Rightarrow> string) \<Rightarrow> kobject \<Rightarrow> (string \<times> json) option" where
  "kind_state fmt obj =
     (case obj of
        PodObject p \<Rightarrow> Some (''Pod'', podState fmt p)
      | NodeObject n \<Rightarrow> Some (''Node'', nodeState fmt n)
      | DeploymentObject d \<Rightarrow> Some (''Deployment'', deploymentState fmt d)
      | StatefulSetObject d \<Rightarrow> Some (''StatefulSet'', statefulSetState fmt d)
      | DaemonSetObject d \<Rightarrow> Some (''DaemonSet'', daemonSetState fmt d)
      | JobObject j \<Rightarrow> Some (''Job'', jobState fmt j)
      | OtherObject \<Rightarrow> None)"

section \<open>The input\<close>

text \<open>The goroutine of one kind in one namespace: listing, enqueuing what is left of the list, opening the
  watch, waiting for an event, enqueuing one, sleeping a second. \<open>OAdd\<close> and \<open>OAddWatch\<close> are between the send of
  \<open>enqueue\<close> and its addition to the counter.\<close>

datatype o_pc =
    OList | OPush "kobject list" | OAdd "kobject list" | OOpen | OWatch | OSend string kobject | OAddWatch | OSleep | OExited

record collector =
  ol_Kind :: string
  ol_Namespace :: string
  ol_pc :: o_pc

record k8sObjectStateInput =
  oi_cfg :: K8sObjectStateConfig
  oi_queue :: "LogRecord list"
  oi_lag :: int
  oi_cancelled :: bool
  oi_collectors :: "collector list"

definition resources :: "K8sObjectStateConfig \<Rightarrow> string list" where
  "resources cfg = (if oc_Resources cfg \<noteq> [] then oc_Resources cfg
     else [''pod'', ''node'', ''deployment'', ''statefulset'', ''daemonset'', ''job''])"

definition namespaces :: "K8sObjectStateConfig \<Rightarrow> string list" where
  "namespaces cfg = (if oc_Namespaces cfg \<noteq> [] then oc_Namespaces cfg else [[]])"

definition start_collectors :: "string \<Rightarrow> string list \<Rightarrow> collector list" where
  "start_collectors kind nss = map (\<lambda>ns. \<lparr>ol_Kind = kind, ol_Namespace = ns, ol_pc = OList\<rparr>) nss"

text \<open>The six starters differ in the API they call, which is the kind of their goroutines; the loop they run is
  \<open>collector_turn\<close> below.\<close>

definition startPodCollectors :: "K8sObjectStateConfig \<Rightarrow> collector list" where
  "startPodCollectors cfg = start_collectors ''Pod'' (namespaces cfg)"

definition collectNodes :: "collector list" where
  "collectNodes = start_collectors ''Node'' [[]]"

definition startDeploymentCollectors :: "K8sObjectStateConfig \<Rightarrow> collector list" where
  "startDeploymentCollectors cfg = start_collectors ''Deployment'' (namespaces cfg)"

definition startStatefulSetCollectors :: "K8sObjectStateConfig \<Rightarrow> collector list" where
  "startStatefulSetCollectors cfg = start_collectors ''StatefulSet'' (namespaces cfg)"

definition startDaemonSetCollectors :: "K8sObjectStateConfig \<Rightarrow> collector list" where
  "startDaemonSetCollectors cfg = start_collectors ''DaemonSet'' (namespaces cfg)"

definition startJobCollectors :: "K8sObjectStateConfig \<Rightarrow> collector list" where
  "startJobCollectors cfg = start_collectors ''Job'' (namespaces cfg)"

definition run_resource :: "K8sObjectStateConfig \<Rightarrow> string \<Rightarrow> collector list" where
  "run_resource cfg r =
     (if r \<in> {''pod'', ''pods''} then startPodCollectors cfg
      else if r \<in> {''node'', ''nodes''} then collectNodes
      else if r \<in> {''deployment'', ''deployments''} then startDeploymentCollectors cfg
      else if r \<in> {''statefulset'', ''statefulsets''} then startStatefulSetCollectors cfg
      else if r \<in> {''daemonset'', ''daemonsets''} then startDaemonSetCollectors cfg
      else if r \<in> {''job'', ''jobs''} then startJobCollectors cfg
      else [])"

definition NewK8sObjectStateInput :: "K8sObjectStateConfig \<Rightarrow> k8sObjectStateInput" where
  "NewK8sObjectStateInput cfg =
     \<lparr>oi_cfg = cfg, oi_queue = [], oi_lag = 0, oi_cancelled = False,
      oi_collectors = concat (map (run_resource cfg) (resources cfg))\<rparr>"

definition object_record :: "string \<Rightarrow> string \<Rightarrow> string \<Rightarrow> json \<Rightarrow> LogRecord" where
  "object_record kind action now state =
     \<lparr>rec_Data = json_print (jmap [(''kind'', JStr kind), (''action'', JStr action), (''timestamp'', JStr now), (''object'', state)]),
      rec_Offset = 0, rec_Meta = Some [(''kind'', kind), (''action'', action)]\<rparr>"

definition obj_send :: "LogRecord \<Rightarrow> k8sObjectStateInput \<Rightarrow> k8sObjectStateInput option" where
  "obj_send r k =
     (if length (oi_queue k) < queue_cap then Some (k\<lparr>oi_queue := oi_queue k @ [r]\<rparr>) else None)"

text \<open>\<open>enqueue\<close>, whose error every caller ignores: blocks, gives up when the context is done, or sends, the result
  saying which.\<close>

definition obj_enqueue :: "(int \<Rightarrow> string) \<Rightarrow> bool \<Rightarrow> int \<Rightarrow> string \<Rightarrow> kobject \<Rightarrow> k8sObjectStateInput
    \<Rightarrow> (bool \<times> k8sObjectStateInput) option" where
  "obj_enqueue fmt give_up now action obj k =
     (case kind_state fmt obj of
        None \<Rightarrow> Some (False, k)
      | Some (kind, state) \<Rightarrow>
          (if give_up then (if oi_cancelled k then Some (False, k) else None)
           else map_option (\<lambda>k'. (True, k')) (obj_send (object_record kind action (fmt now) state) k)))"

definition to_pc :: "nat \<Rightarrow> o_pc \<Rightarrow> k8sObjectStateInput \<Rightarrow> k8sObjectStateInput" where
  "to_pc i pc k = k\<lparr>oi_collectors := (oi_collectors k)[i := (oi_collectors k ! i)\<lparr>ol_pc := pc\<rparr>]\<rparr>"

fun take_queue :: "nat \<Rightarrow> k8sObjectStateInput \<Rightarrow> LogRecord list \<times> k8sObjectStateInput" where
  "take_queue 0 k = ([], k)"
| "take_queue (Suc n) k =
     (case oi_queue k of
        [] \<Rightarrow> ([], k)
      | r # q \<Rightarrow> (case take_queue n (k\<lparr>oi_queue := q, oi_lag := oi_lag k - 1\<rparr>) of (rs, k') \<Rightarrow> (r # rs, k')))"

definition obj_ReadBatch :: "nat \<Rightarrow> nat option \<Rightarrow> k8sObjectStateInput \<Rightarrow> LogRecord list \<times> k8sObjectStateInput" where
  "obj_ReadBatch sz stop k = take_queue (case stop of None \<Rightarrow> sz | Some n \<Rightarrow> min n sz) k"

definition obj_Commit :: "k8sObjectStateInput \<Rightarrow> gerr option" where
  "obj_Commit k = None"

definition obj_Lag :: "k8sObjectStateInput \<Rightarrow> int" where
  "obj_Lag k = oi_lag k"

definition obj_Close :: "k8sObjectStateInput \<Rightarrow> k8sObjectStateInput" where
  "obj_Close k = k\<lparr>oi_cancelled := True\<rparr>"

section \<open>Runs\<close>

text \<open>\<open>UList i None\<close>: the list fails; \<open>UPush i give_up now\<close>: the pending object is enqueued at time \<open>now\<close>.\<close>

datatype u_action =
    UList nat "kobject list option"
  | UPush nat bool int
  | UCount nat
  | UOpen nat bool
  | UEvent nat string kobject
  | UClosed nat
  | USeeCancel nat
  | UWake nat
  | URead nat "nat option"
  | UClose

text \<open>The list call of a collector returns objects of its kind.\<close>

fun object_kind :: "kobject \<Rightarrow> string" where
  "object_kind (PodObject p) = ''Pod''"
| "object_kind (NodeObject n) = ''Node''"
| "object_kind (DeploymentObject d) = ''Deployment''"
| "object_kind (StatefulSetObject d) = ''StatefulSet''"
| "object_kind (DaemonSetObject d) = ''DaemonSet''"
| "object_kind (JobObject j) = ''Job''"
| "object_kind OtherObject = []"

text \<open>A turn of the goroutine of a collector, whose loop is the same in all six: list, enqueue every object as a snapshot, open the
  watch, enqueue what it reports until it closes or the context is done, sleep for a second.\<close>

definition collector_turn :: "(int \<Rightarrow> string) \<Rightarrow> nat \<Rightarrow> u_action \<Rightarrow> k8sObjectStateInput \<Rightarrow> k8sObjectStateInput option" where
  "collector_turn fmt i a k =
     (if length (oi_collectors k) \<le> i then None
      else (case (ol_pc (oi_collectors k ! i), a) of
          (OList, UList _ (Some objs)) \<Rightarrow>
            (if list_all (\<lambda>x. object_kind x = ol_Kind (oi_collectors k ! i)) objs then Some (to_pc i (OPush objs) k) else None)
        | (OList, UList _ None) \<Rightarrow> Some (to_pc i OSleep k)
        | (OPush [], UPush _ _ _) \<Rightarrow> Some (to_pc i OOpen k)
        | (OPush (x # xs), UPush _ give_up now) \<Rightarrow> 
            map_option (\<lambda>(sent, k'). to_pc i (if sent then OAdd xs else OPush xs) k') (obj_enqueue fmt give_up now ''snapshot'' x k)
        | (OAdd xs, UCount _) \<Rightarrow> Some (to_pc i (OPush xs) (k\<lparr>oi_lag := oi_lag k + 1\<rparr>))
        | (OOpen, UOpen _ ok) \<Rightarrow> Some (to_pc i (if ok then OWatch else OSleep) k)
        | (OWatch, UEvent _ action obj) \<Rightarrow> Some (to_pc i (OSend action obj) k)
        | (OSend action obj, UPush _ give_up now) \<Rightarrow> 
            map_option (\<lambda>(sent, k'). to_pc i (if sent then OAddWatch else OWatch) k') (obj_enqueue fmt give_up now action obj k)
        | (OAddWatch, UCount _) \<Rightarrow> Some (to_pc i OWatch (k\<lparr>oi_lag := oi_lag k + 1\<rparr>))
        | (OWatch, UClosed _) \<Rightarrow> Some (to_pc i OSleep k)
        | (OWatch, USeeCancel _) \<Rightarrow> (if oi_cancelled k then Some (to_pc i OSleep k) else None)
        | (OSleep, UWake _) \<Rightarrow> Some (to_pc i (if oi_cancelled k then OExited else OList) k)
        | _ \<Rightarrow> None))"

record u_world =
  uw_input :: k8sObjectStateInput
  uw_out :: "LogRecord list"

definition u_goroutine :: "(int \<Rightarrow> string) \<Rightarrow> nat \<Rightarrow> u_action \<Rightarrow> u_world \<Rightarrow> u_world option" where
  "u_goroutine fmt i a w = map_option (\<lambda>k. w\<lparr>uw_input := k\<rparr>) (collector_turn fmt i a (uw_input w))"

fun u_act :: "(int \<Rightarrow> string) \<Rightarrow> u_action \<Rightarrow> u_world \<Rightarrow> u_world option" where
  "u_act fmt (URead sz stop) w =
     (case obj_ReadBatch sz stop (uw_input w) of (rs, k) \<Rightarrow> Some (w\<lparr>uw_input := k, uw_out := uw_out w @ rs\<rparr>))"
| "u_act fmt UClose w = Some (w\<lparr>uw_input := obj_Close (uw_input w)\<rparr>)"
| "u_act fmt (UList i x) w = u_goroutine fmt i (UList i x) w"
| "u_act fmt (UPush i g t) w = u_goroutine fmt i (UPush i g t) w"
| "u_act fmt (UCount i) w = u_goroutine fmt i (UCount i) w"
| "u_act fmt (UOpen i b) w = u_goroutine fmt i (UOpen i b) w"
| "u_act fmt (UEvent i a obj) w = u_goroutine fmt i (UEvent i a obj) w"
| "u_act fmt (UClosed i) w = u_goroutine fmt i (UClosed i) w"
| "u_act fmt (USeeCancel i) w = u_goroutine fmt i (USeeCancel i) w"
| "u_act fmt (UWake i) w = u_goroutine fmt i (UWake i) w"

fun u_acts :: "(int \<Rightarrow> string) \<Rightarrow> u_action list \<Rightarrow> u_world \<Rightarrow> u_world option" where
  "u_acts fmt [] w = Some w"
| "u_acts fmt (a # as) w = (case u_act fmt a w of None \<Rightarrow> None | Some w' \<Rightarrow> u_acts fmt as w')"

section \<open>Records\<close>

lemma int_nums_jmap [simp]: "int_nums (jmap ms) = (\<forall>(k, v)\<in>set ms. int_nums v)"
  by (simp add: jmap_def)

lemma int_nums_jint [simp]: "int_nums (jint i)"
  by (auto simp: jint_def)

lemma int_nums_jstrings [simp]: "int_nums (jstrings m)"
  by (auto simp: jstrings_def split: option.split)

lemma int_nums_metadata [simp]: "int_nums (metadataState fmt m)"
  by (simp add: metadataState_def)

lemma int_nums_container [simp]: "int_nums (containerState fmt st)"
  by (auto simp: containerState_def split: option.split)

text \<open>The documents the code passes through from the API server.\<close>

fun passed_on :: "kobject \<Rightarrow> json list" where
  "passed_on (PodObject p) = [xp_Conditions p]"
| "passed_on (NodeObject n) = [xn_Conditions n, xn_Capacity n, xn_Allocatable n]"
| "passed_on (DeploymentObject d) = [xd_Conditions d]"
| "passed_on (StatefulSetObject d) = [xs_Conditions d]"
| "passed_on (DaemonSetObject d) = [xa_Conditions d]"
| "passed_on (JobObject j) = [xj_Conditions j]"
| "passed_on OtherObject = []"

lemma int_nums_kind: "kind_state fmt obj = Some (kind, state) \<Longrightarrow> list_all int_nums (passed_on obj) \<Longrightarrow> int_nums state"
  by (cases obj) (auto simp: kind_state_def podState_def nodeState_def deploymentState_def statefulSetState_def daemonSetState_def
      jobState_def split: option.splits)


definition demo_deployment :: kobject where
  "demo_deployment = DeploymentObject \<lparr>xd_Meta = \<lparr>km_Name = ''web'', km_Namespace = ''ns'', km_UID = ''u'', km_ResourceVersion = ''5'',
      km_Labels = Some [(''app'', ''web'')], km_Annotations = None, km_Created = 0\<rparr>,
     xd_Replicas = 3, xd_Ready = 2, xd_Available = 2, xd_Updated = 3, xd_Unavailable = 1, xd_ObservedGeneration = 7,
     xd_Conditions = JArr [JObj [(''type'', JStr ''Available'')]]\<rparr>"


section \<open>The queue\<close>

lemmas start_defs = startPodCollectors_def collectNodes_def startDeploymentCollectors_def startStatefulSetCollectors_def
  startDaemonSetCollectors_def startJobCollectors_def

lemma take_queue_spec: "take_queue n k = (rs, k') \<Longrightarrow>
    oi_queue k = rs @ oi_queue k' \<and> length rs = min n (length (oi_queue k)) \<and> oi_lag k' = oi_lag k - int (length rs)"
proof (induction n arbitrary: k rs k')
  case (Suc n)
  show ?case
  proof (cases "oi_queue k")
    case (Cons r q)
    obtain qs k2 where q: "take_queue n (k\<lparr>oi_queue := q, oi_lag := oi_lag k - 1\<rparr>) = (qs, k2)" by fastforce
    from Suc.prems Cons q have e: "rs = r # qs" "k' = k2" by simp_all
    from Suc.IH[OF q] have "q = qs @ oi_queue k2" "length qs = min n (length q)" "oi_lag k2 = oi_lag k - 1 - int (length qs)"
      by (simp_all del: length_append)
    then show ?thesis unfolding e Cons by simp
  qed (use Suc.prems in auto)
qed simp

interpretation ob: record_queue oi_queue oi_lag obj_send take_queue
  by unfold_locales (auto simp: obj_send_def split: if_splits dest: take_queue_spec)

text \<open>The collectors whose last record is not counted yet.\<close>

fun adding :: "o_pc \<Rightarrow> bool" where
  "adding (OAdd xs) = True"
| "adding OAddWatch = True"
| "adding _ = False"

definition uncounted :: "k8sObjectStateInput \<Rightarrow> nat" where
  "uncounted k = length (filter (\<lambda>c. adding (ol_pc c)) (oi_collectors k))"

definition u_chan :: "u_world \<Rightarrow> LogRecord list \<times> nat" where
  "u_chan w = chan_of (uw_out w) (oi_queue (uw_input w))"

definition u_ok :: "u_world \<Rightarrow> bool" where
  "u_ok w = queue_ok (oi_queue (uw_input w)) (oi_lag (uw_input w)) (uncounted (uw_input w))"

lemma to_pc_simps [simp]: "oi_queue (to_pc i pc k) = oi_queue k" "oi_lag (to_pc i pc k) = oi_lag k"
  by (simp_all add: to_pc_def)

lemma to_pc_uncounted:
  assumes "i < length (oi_collectors k)"
  shows "uncounted (to_pc i pc k) + of_bool (adding (ol_pc (oi_collectors k ! i))) = uncounted k + of_bool (adding pc)"
  using length_filter_update[OF assms, of "\<lambda>c. adding (ol_pc c)" "(oi_collectors k ! i)\<lparr>ol_pc := pc\<rparr>"]
  by (simp add: uncounted_def to_pc_def)

text \<open>A turn moves its collector and leaves the queue alone, sends one record, or counts one.\<close>

definition collector_moves :: "nat \<Rightarrow> k8sObjectStateInput \<Rightarrow> k8sObjectStateInput \<Rightarrow> bool" where
  "collector_moves i k k' = (\<exists>pc. k' = to_pc i pc k \<and> \<not> adding pc)"

definition collector_sends :: "nat \<Rightarrow> k8sObjectStateInput \<Rightarrow> k8sObjectStateInput \<Rightarrow> bool" where
  "collector_sends i k k' = (\<exists>r k1 pc. obj_send r k = Some k1 \<and> k' = to_pc i pc k1 \<and> adding pc)"

lemma enqueue_turn:
  assumes "map_option (\<lambda>(sent, k'). to_pc i (if sent then pc else pc') k') (obj_enqueue fmt g now action obj k) = Some k'"
    "adding pc" "\<not> adding pc'"
  shows "collector_moves i k k' \<or> collector_sends i k k'"
proof -
  obtain sent k1 where e: "obj_enqueue fmt g now action obj k = Some (sent, k1)" "k' = to_pc i (if sent then pc else pc') k1"
    using assms(1) by auto
  from e(1) have "\<not> sent \<and> k1 = k \<or> sent \<and> (\<exists>r. obj_send r k = Some k1)"
    by (auto simp: obj_enqueue_def split: option.splits if_splits)
  with e(2) assms(2,3) show ?thesis unfolding collector_moves_def collector_sends_def by auto
qed

lemma collector_turn_cases:
  assumes "collector_turn fmt i a k = Some k'"
  shows "\<not> adding (ol_pc (oi_collectors k ! i)) \<and> (collector_moves i k k' \<or> collector_sends i k k')
    \<or> adding (ol_pc (oi_collectors k ! i)) \<and> (\<exists>pc. k' = to_pc i pc (k\<lparr>oi_lag := oi_lag k + 1\<rparr>) \<and> \<not> adding pc)"
proof (cases "ol_pc (oi_collectors k ! i)")
  case (OPush xs)
  show ?thesis
  proof (cases xs)
    case Nil
    with assms OPush have "k' = to_pc i OOpen k" by (auto simp: collector_turn_def split: if_splits u_action.splits)
    with OPush show ?thesis by (auto simp: collector_moves_def)
  next
    case (Cons x xs')
    with assms OPush obtain g now where
      "map_option (\<lambda>(sent, k'). to_pc i (if sent then OAdd xs' else OPush xs') k') (obj_enqueue fmt g now ''snapshot'' x k) = Some k'"
      unfolding collector_turn_def by (auto split: if_splits u_action.splits)
    from enqueue_turn[OF this] OPush show ?thesis by simp
  qed
next
  case (OSend action obj)
  with assms obtain g now where
    "map_option (\<lambda>(sent, k'). to_pc i (if sent then OAddWatch else OWatch) k') (obj_enqueue fmt g now action obj k) = Some k'"
    unfolding collector_turn_def by (auto split: if_splits u_action.splits)
  from enqueue_turn[OF this] OSend show ?thesis by simp
qed (use assms in \<open>auto simp: collector_turn_def collector_moves_def split: u_action.splits option.splits if_splits\<close>)

lemma u_goroutine_good:
  assumes "u_goroutine fmt i a w = Some w'"
  shows "chan_step (u_chan w) (u_chan w') \<and> (u_ok w \<longrightarrow> u_ok w')"
proof -
  let ?k = "uw_input w"
  obtain k where k: "collector_turn fmt i a ?k = Some k" "w' = w\<lparr>uw_input := k\<rparr>"
    using assms by (auto simp: u_goroutine_def)
  then have i: "i < length (oi_collectors ?k)" by (simp add: collector_turn_def split: if_splits)
  consider pc where "k = to_pc i pc ?k" "\<not> adding pc" "\<not> adding (ol_pc (oi_collectors ?k ! i))"
    | r k1 pc where "obj_send r ?k = Some k1" "k = to_pc i pc k1" "adding pc" "\<not> adding (ol_pc (oi_collectors ?k ! i))"
    | pc where "k = to_pc i pc (?k\<lparr>oi_lag := oi_lag ?k + 1\<rparr>)" "\<not> adding pc" "adding (ol_pc (oi_collectors ?k ! i))"
    using collector_turn_cases[OF k(1)] unfolding collector_moves_def collector_sends_def by blast
  then show ?thesis
  proof cases
    case (1 pc)
    with to_pc_uncounted[OF i, of pc] show ?thesis by (simp add: k(2) u_chan_def chan_of_def chan_step_refl u_ok_def)
  next
    case (2 r k1 pc)
    have c: "oi_collectors k1 = oi_collectors ?k" using 2(1) by (auto simp: obj_send_def split: if_splits)
    then have "uncounted k = Suc (uncounted ?k)"
      using to_pc_uncounted[of i k1 pc] i 2 by (simp add: uncounted_def)
    with ob.send_chan[OF 2(1), of "uw_out w"] ob.send_ok[OF 2(1), of "uncounted ?k"] 2(2) show ?thesis
      by (simp add: k(2) u_chan_def u_ok_def)
  next
    case (3 pc)
    have "Suc (uncounted k) = uncounted ?k"
      using to_pc_uncounted[of i "?k\<lparr>oi_lag := oi_lag ?k + 1\<rparr>" pc] i 3 by (simp add: uncounted_def)
    with 3 show ?thesis
      by (simp add: k(2) u_chan_def chan_of_def chan_step_refl u_ok_def flip: queue_ok_count)
  qed
qed

lemma take_queue_collectors: "take_queue n k = (rs, k') \<Longrightarrow> oi_collectors k' = oi_collectors k"
  by (induction n arbitrary: k rs k') (auto split: list.splits prod.splits)

lemma u_act_good: "u_act fmt a w = Some w' \<Longrightarrow> chan_step (u_chan w) (u_chan w') \<and> (u_ok w \<longrightarrow> u_ok w')"
proof (cases a)
  case (URead sz stop)
  assume a: "u_act fmt a w = Some w'"
  obtain rs k where r: "take_queue (case stop of None \<Rightarrow> sz | Some n \<Rightarrow> min n sz) (uw_input w) = (rs, k)" by fastforce
  with a URead have w': "w' = w\<lparr>uw_input := k, uw_out := uw_out w @ rs\<rparr>" by (simp add: obj_ReadBatch_def)
  from ob.read_chan[OF r, of "uw_out w"] ob.read_ok[OF r] take_queue_collectors[OF r] show ?thesis
    by (simp add: w' u_chan_def u_ok_def uncounted_def)
next
  case UClose
  then show "u_act fmt a w = Some w' \<Longrightarrow> ?thesis" by (auto simp: obj_Close_def u_chan_def chan_of_def chan_step_refl u_ok_def uncounted_def)
qed (auto dest: u_goroutine_good)

definition at_list :: "collector list \<Rightarrow> bool" where
  "at_list cs = list_all (\<lambda>c. ol_pc c = OList) cs"

lemma at_list_intros: "at_list (start_collectors kind nss)" "at_list []" "at_list xs \<Longrightarrow> at_list ys \<Longrightarrow> at_list (if b then xs else ys)"
  by (simp_all add: at_list_def start_collectors_def list_all_iff)

lemma run_resource_pc: "at_list (run_resource cfg r)"
  unfolding run_resource_def start_defs by (intro at_list_intros)

lemma new_uncounted: "uncounted (NewK8sObjectStateInput cfg) = 0"
proof -
  have "list_all (\<lambda>c. ol_pc c = OList) (oi_collectors (NewK8sObjectStateInput cfg))"
    using run_resource_pc[of cfg] by (simp add: NewK8sObjectStateInput_def at_list_def list_all_iff)
  then show ?thesis by (auto simp: uncounted_def filter_empty_conv list_all_iff)
qed



text \<open>Which collectors there are: one per known resource and namespace, and one for the nodes.\<close>

lemma default_collectors:
  "map (\<lambda>c. (ol_Kind c, ol_Namespace c)) (oi_collectors (NewK8sObjectStateInput \<lparr>oc_Namespaces = [''a'', ''b''], oc_Resources = []\<rparr>))
     = [(''Pod'', ''a''), (''Pod'', ''b''), (''Node'', []), (''Deployment'', ''a''), (''Deployment'', ''b''), (''StatefulSet'', ''a''),
        (''StatefulSet'', ''b''), (''DaemonSet'', ''a''), (''DaemonSet'', ''b''), (''Job'', ''a''), (''Job'', ''b'')]"
  by code_simp

end
