(* ===== verification/Deploy.thy ===== *)
theory Deploy
  imports Injector PolicyValidation
begin

text \<open>
  \<open>internal/log-pilot-operator/deploy.go\<close> and the reconciler of \<open>logpilot_controller.go\<close>: the objects the
  operator keeps in the cluster for a \<open>LogPilot\<close>, and the calls that create, update and delete them.

  An object is its kind, name and namespace, the metadata the code touches, and its spec with the
  fields the code sets (and those it preserves). The API server is a record of functions over a
  world; \<open>SetControllerReference\<close> is the argument \<open>set_ref\<close>.
\<close>

section \<open>Objects\<close>

record ServiceSpec =
  sv_Selector :: "(string, string) gomap"
  sv_Ports :: "(string \<times> int \<times> int) list"
  sv_ClusterIP :: string
  sv_ClusterIPs :: "string list"
  sv_IPFamilies :: "string list"
  sv_IPFamilyPolicy :: "string option"

record PolicyRule =
  pr_APIGroups :: "string list"
  pr_Resources :: "string list"
  pr_Verbs :: "string list"

record BindingSpec =
  bs_RoleName :: string
  bs_SubjectName :: string
  bs_SubjectNamespace :: string

record Webhook =
  wh_Name :: string
  wh_Versions :: "string list"
  wh_SideEffects :: string
  wh_FailurePolicy :: string
  wh_ServiceName :: string
  wh_ServiceNamespace :: string
  wh_Path :: string
  wh_Port :: int
  wh_CABundle :: string
  wh_Operations :: "string list"
  wh_APIGroups :: "string list"
  wh_APIVersions :: "string list"
  wh_Resources :: "string list"

record 'res DeploymentSpec =
  ds_Replicas :: int
  ds_Labels :: "(string, string) gomap"
  ds_ServiceAccount :: string
  ds_Container :: string
  ds_Image :: string
  ds_Command :: "string list"
  ds_Resources :: 'res
  ds_Port :: int

text \<open>An environment variable is a value or a field of the Pod; a mount is a name, a path and the read-only flag,
  a volume a name and a path of the host (all of type \<open>DirectoryOrCreate\<close>).\<close>

datatype agent_env = AgentValue string string | AgentField string string

record 'res DaemonSetSpec =
  ns_Labels :: "(string, string) gomap"
  ns_ServiceAccount :: string
  ns_RunAs :: "int \<times> int"
  ns_Container :: string
  ns_Image :: string
  ns_Command :: "string list"
  ns_Resources :: 'res
  ns_Env :: "agent_env list"
  ns_Mounts :: "(string \<times> string \<times> bool) list"
  ns_Volumes :: "(string \<times> string) list"

datatype 'res spec =
    ServiceAccount
  | Service ServiceSpec
  | ClusterRole "PolicyRule list"
  | ClusterRoleBinding BindingSpec
  | MutatingWebhook "Webhook list"
  | Deployment "'res DeploymentSpec"
  | DaemonSet "'res DaemonSetSpec"

datatype kind = KServiceAccount | KService | KClusterRole | KClusterRoleBinding | KWebhook | KDeployment | KDaemonSet

fun kind_of :: "'res spec \<Rightarrow> kind" where
  "kind_of ServiceAccount = KServiceAccount"
| "kind_of (Service s) = KService"
| "kind_of (ClusterRole r) = KClusterRole"
| "kind_of (ClusterRoleBinding b) = KClusterRoleBinding"
| "kind_of (MutatingWebhook w) = KWebhook"
| "kind_of (Deployment d) = KDeployment"
| "kind_of (DaemonSet d) = KDaemonSet"

type_synonym object_id = "kind \<times> string \<times> string"

record 'res mobj =
  mo_Namespace :: string
  mo_Name :: string
  mo_Owner :: "string option"
  mo_ResourceVersion :: string
  mo_Spec :: "'res spec"

definition obj_key :: "'res mobj \<Rightarrow> object_id" where
  "obj_key o1 = (kind_of (mo_Spec o1), mo_Namespace o1, mo_Name o1)"

definition plain :: "string \<Rightarrow> string \<Rightarrow> 'res spec \<Rightarrow> 'res mobj" where
  "plain namespace name s = \<lparr>mo_Namespace = namespace, mo_Name = name, mo_Owner = None, mo_ResourceVersion = [], mo_Spec = s\<rparr>"

section \<open>The objects of a LogPilot\<close>

definition apiName :: string where "apiName = ''log-pilot-api''"
definition agentName :: string where "agentName = ''log-pilot-agent''"
definition labelName :: string where "labelName = ''app.kubernetes.io/name''"
definition labelComponent :: string where "labelComponent = ''app.kubernetes.io/component''"
definition webhookPort :: int where "webhookPort = 8443"
definition agentKubeletPath :: string where "agentKubeletPath = ''/var/lib/kubelet''"
definition agentPodLogsPath :: string where "agentPodLogsPath = ''/var/log/pods''"

abbreviation lo_ns :: "'res LogPilot \<Rightarrow> string" where
  "lo_ns lp \<equiv> om_Namespace (lo_Meta lp)"

definition buildAPIDeployment :: "'res LogPilot \<Rightarrow> string \<Rightarrow> 'res mobj" where
  "buildAPIDeployment lp img =
     (let api = lp_API (lo_Spec lp); replicas = (if ap_Replicas api = 0 then 2 else ap_Replicas api)
      in plain (lo_ns lp) ''log-pilot-api'' (Deployment
           \<lparr>ds_Replicas = replicas, ds_Labels = [(labelName, ''log-pilot-api''), (labelComponent, ''webhook'')],
            ds_ServiceAccount = apiName, ds_Container = apiName, ds_Image = img, ds_Command = [''/usr/local/bin/log-pilot-api''],
            ds_Resources = ap_Resources api, ds_Port = webhookPort\<rparr>))"

definition agent_log_dir :: "'res LogPilot \<Rightarrow> string" where
  "agent_log_dir lp = (let d = ag_LogDir (lp_Agent (lo_Spec lp)) in if d = [] then ''/var/log/log-pilot'' else d)"

definition agent_meta_dir :: "'res LogPilot \<Rightarrow> string" where
  "agent_meta_dir lp = (let d = ag_MetaDir (lp_Agent (lo_Spec lp)) in if d = [] then ''/var/lib/log-pilot-agent'' else d)"

definition buildAgentDaemonSet :: "'res LogPilot \<Rightarrow> string \<Rightarrow> 'res mobj" where
  "buildAgentDaemonSet lp img =
     (let logDir = agent_log_dir lp; metaDir = agent_meta_dir lp
      in plain (lo_ns lp) ''log-pilot-agent'' (DaemonSet
           \<lparr>ns_Labels = [(labelName, ''log-pilot-agent''), (labelComponent, ''agent'')], ns_ServiceAccount = agentName, ns_RunAs = (0, 0),
            ns_Container = agentName, ns_Image = img, ns_Command = [''/usr/local/bin/log-pilot-agent''],
            ns_Resources = ag_Resources (lp_Agent (lo_Spec lp)),
            ns_Env = [AgentField ''NODE_NAME'' ''spec.nodeName'', AgentField ''POD_NAMESPACE'' ''metadata.namespace'',
              AgentValue ''LOG_DIR'' logDir, AgentValue ''META_DIR'' metaDir],
            ns_Mounts = [(''log-dir'', logDir, False), (''meta-dir'', metaDir, False), (''pod-logs'', agentPodLogsPath, True),
              (''kubelet'', agentKubeletPath, True)],
            ns_Volumes = [(''log-dir'', logDir), (''meta-dir'', metaDir), (''pod-logs'', agentPodLogsPath), (''kubelet'', agentKubeletPath)]\<rparr>))"

definition buildServiceAccount :: "'res LogPilot \<Rightarrow> string \<Rightarrow> 'res mobj" where
  "buildServiceAccount lp name = plain (lo_ns lp) name ServiceAccount"

definition buildAPIService :: "'res LogPilot \<Rightarrow> 'res mobj" where
  "buildAPIService lp = plain (lo_ns lp) apiName (Service
     \<lparr>sv_Selector = [(labelName, apiName), (labelComponent, ''webhook'')], sv_Ports = [(''https'', webhookPort, webhookPort)],
      sv_ClusterIP = [], sv_ClusterIPs = [], sv_IPFamilies = [], sv_IPFamilyPolicy = None\<rparr>)"

definition rule :: "string \<Rightarrow> string list \<Rightarrow> string list \<Rightarrow> PolicyRule" where
  "rule grp res verbs = \<lparr>pr_APIGroups = [grp], pr_Resources = res, pr_Verbs = verbs\<rparr>"

definition reads :: "string list" where
  "reads = [''get'', ''list'', ''watch'']"

definition buildAPIClusterRole :: "'res LogPilot \<Rightarrow> 'res mobj" where
  "buildAPIClusterRole lp = plain [] (lo_ns lp @ ''-'' @ apiName) (ClusterRole
     [rule [] [''secrets'', ''configmaps'', ''events''] (reads @ [''create'', ''update'', ''patch'', ''delete'']),
      rule ''coordination.k8s.io'' [''leases''] (reads @ [''create'', ''update'', ''patch'', ''delete'']),
      rule ''logpilot.logpilot.jimyag.com'' [''logpilotpolicies''] reads,
      rule ''admissionregistration.k8s.io'' [''mutatingwebhookconfigurations''] (reads @ [''update'', ''patch''])])"

definition buildAPIClusterRoleBinding :: "'res LogPilot \<Rightarrow> 'res mobj" where
  "buildAPIClusterRoleBinding lp = plain [] (lo_ns lp @ ''-'' @ apiName) (ClusterRoleBinding
     \<lparr>bs_RoleName = lo_ns lp @ ''-'' @ apiName, bs_SubjectName = apiName, bs_SubjectNamespace = lo_ns lp\<rparr>)"

definition buildAgentClusterRole :: "'res LogPilot \<Rightarrow> 'res mobj" where
  "buildAgentClusterRole lp = plain [] (lo_ns lp @ ''-'' @ agentName) (ClusterRole
     [rule [] [''pods'', ''nodes'', ''events''] reads,
      rule ''apps'' [''deployments'', ''statefulsets'', ''daemonsets''] reads,
      rule ''batch'' [''jobs''] reads,
      rule ''coordination.k8s.io'' [''leases''] (reads @ [''create'', ''update'', ''patch'']),
      rule ''logpilot.logpilot.jimyag.com'' [''clusterlogpilotpolicies''] reads])"

definition buildAgentClusterRoleBinding :: "'res LogPilot \<Rightarrow> 'res mobj" where
  "buildAgentClusterRoleBinding lp = plain [] (lo_ns lp @ ''-'' @ agentName) (ClusterRoleBinding
     \<lparr>bs_RoleName = lo_ns lp @ ''-'' @ agentName, bs_SubjectName = agentName, bs_SubjectNamespace = lo_ns lp\<rparr>)"

definition buildMutatingWebhook :: "'res LogPilot \<Rightarrow> 'res mobj" where
  "buildMutatingWebhook lp = plain [] ''log-pilot-api'' (MutatingWebhook
     [\<lparr>wh_Name = ''pods.logpilot.jimyag.com'', wh_Versions = [''v1''], wh_SideEffects = ''None'', wh_FailurePolicy = ''Ignore'',
       wh_ServiceName = apiName, wh_ServiceNamespace = lo_ns lp, wh_Path = ''/mutate-pod'', wh_Port = webhookPort, wh_CABundle = [],
       wh_Operations = [''CREATE''], wh_APIGroups = [[]], wh_APIVersions = [''v1''], wh_Resources = [''pods'']\<rparr>])"

definition buildSupportObjects :: "'res LogPilot \<Rightarrow> 'res mobj list" where
  "buildSupportObjects lp =
     [buildServiceAccount lp apiName, buildServiceAccount lp agentName, buildAPIService lp, buildAPIClusterRole lp,
      buildAPIClusterRoleBinding lp, buildAgentClusterRole lp, buildAgentClusterRoleBinding lp, buildMutatingWebhook lp]"

definition buildManagedObjects :: "'res LogPilot \<Rightarrow> string \<Rightarrow> string \<Rightarrow> 'res mobj list" where
  "buildManagedObjects lp apiImage agentImage =
     buildSupportObjects lp @ [buildAPIDeployment lp apiImage, buildAgentDaemonSet lp agentImage]"

section \<open>Reconciling an object\<close>

record ('res, 'w) kube_client =
  kc_Get :: "object_id \<Rightarrow> 'w \<Rightarrow> client_err + 'res mobj"
  kc_Create :: "'res mobj \<Rightarrow> 'w \<Rightarrow> client_err option \<times> 'w"
  kc_Update :: "'res mobj \<Rightarrow> 'w \<Rightarrow> client_err option \<times> 'w"
  kc_Delete :: "object_id \<Rightarrow> 'w \<Rightarrow> client_err option \<times> 'w"

text \<open>\<open>reconcileDeployment\<close> and \<open>reconcileDaemonSet\<close>: the spec is replaced in the object that was read.\<close>

definition reconcile_spec :: "('res, 'w) kube_client \<Rightarrow> 'res mobj \<Rightarrow> 'w \<Rightarrow> client_err option \<times> 'w" where
  "reconcile_spec c desired w =
     (case kc_Get c (obj_key desired) w of
        Inl NotFound \<Rightarrow> kc_Create c desired w
      | Inl e \<Rightarrow> (Some e, w)
      | Inr existing \<Rightarrow> kc_Update c (existing\<lparr>mo_Spec := mo_Spec desired\<rparr>) w)"

definition reconcileDeployment :: "('res, 'w) kube_client \<Rightarrow> 'res mobj \<Rightarrow> 'w \<Rightarrow> client_err option \<times> 'w" where
  "reconcileDeployment c desired w = reconcile_spec c desired w"

definition reconcileDaemonSet :: "('res, 'w) kube_client \<Rightarrow> 'res mobj \<Rightarrow> 'w \<Rightarrow> client_err option \<times> 'w" where
  "reconcileDaemonSet c desired w = reconcile_spec c desired w"

text \<open>The inner loop over the existing webhooks: the last one of the same name gives the bundle.\<close>

definition keep_bundle :: "Webhook list \<Rightarrow> Webhook \<Rightarrow> Webhook" where
  "keep_bundle existing d =
     fold (\<lambda>cur d'. if wh_Name d' = wh_Name cur then d'\<lparr>wh_CABundle := wh_CABundle cur\<rparr> else d') existing d"

fun preserve_spec :: "'res spec \<Rightarrow> 'res spec \<Rightarrow> 'res spec" where
  "preserve_spec (Service e) (Service d) =
     Service (d\<lparr>sv_ClusterIP := sv_ClusterIP e, sv_ClusterIPs := sv_ClusterIPs e, sv_IPFamilies := sv_IPFamilies e,
       sv_IPFamilyPolicy := sv_IPFamilyPolicy e\<rparr>)"
| "preserve_spec (MutatingWebhook es) (MutatingWebhook ds) = MutatingWebhook (map (keep_bundle es) ds)"
| "preserve_spec e d = d"

definition preserveImmutableAndRuntimeFields :: "'res mobj \<Rightarrow> 'res mobj \<Rightarrow> 'res mobj" where
  "preserveImmutableAndRuntimeFields existing desired =
     desired\<lparr>mo_Spec := preserve_spec (mo_Spec existing) (mo_Spec desired)\<rparr>"

definition reconcileObject :: "('res, 'w) kube_client \<Rightarrow> 'res mobj \<Rightarrow> 'w \<Rightarrow> client_err option \<times> 'w" where
  "reconcileObject c desired w =
     (case kc_Get c (obj_key desired) w of
        Inl NotFound \<Rightarrow> kc_Create c desired w
      | Inl e \<Rightarrow> (Some e, w)
      | Inr existing \<Rightarrow>
          kc_Update c ((preserveImmutableAndRuntimeFields existing desired)\<lparr>mo_ResourceVersion := mo_ResourceVersion existing\<rparr>) w)"

section \<open>Reconciling a LogPilot\<close>

fun delete_all :: "('res, 'w) kube_client \<Rightarrow> 'res mobj list \<Rightarrow> 'w \<Rightarrow> client_err option \<times> 'w" where
  "delete_all c [] w = (None, w)"
| "delete_all c (x # xs) w =
     (case kc_Delete c (obj_key x) w of
        (None, w') \<Rightarrow> delete_all c xs w'
      | (Some NotFound, w') \<Rightarrow> delete_all c xs w'
      | (Some e, w') \<Rightarrow> (Some e, w'))"

definition cleanupLogPilot :: "('res, 'w) kube_client \<Rightarrow> 'res LogPilot \<Rightarrow> 'w \<Rightarrow> client_err option \<times> 'w" where
  "cleanupLogPilot c lp w = delete_all c (buildManagedObjects lp [] []) w"

text \<open>The loop over the support objects: those in a namespace get their owner.\<close>

fun reconcile_support ::
    "('res, 'w) kube_client \<Rightarrow> ('res mobj \<Rightarrow> client_err + 'res mobj) \<Rightarrow> 'res mobj list \<Rightarrow> 'w \<Rightarrow> client_err option \<times> 'w" where
  "reconcile_support c set_ref [] w = (None, w)"
| "reconcile_support c set_ref (x # xs) w =
     (case (if mo_Namespace x \<noteq> [] then set_ref x else Inr x) of
        Inl e \<Rightarrow> (Some e, w)
      | Inr x' \<Rightarrow>
          (case reconcileObject c x' w of
             (None, w') \<Rightarrow> reconcile_support c set_ref xs w'
           | (Some e, w') \<Rightarrow> (Some e, w')))"

definition reconcile_objects ::
    "('res, 'w) kube_client \<Rightarrow> ('res mobj \<Rightarrow> client_err + 'res mobj) \<Rightarrow> string \<Rightarrow> string \<Rightarrow> 'res LogPilot \<Rightarrow> 'w
       \<Rightarrow> client_err option \<times> 'w" where
  "reconcile_objects c set_ref apiImage agentImage lp w =
     (case reconcile_support c set_ref (buildSupportObjects lp) w of
        (Some e, w1) \<Rightarrow> (Some e, w1)
      | (None, w1) \<Rightarrow>
          (case set_ref (buildAPIDeployment lp apiImage) of
             Inl e \<Rightarrow> (Some e, w1)
           | Inr dep \<Rightarrow>
               (case reconcileDeployment c dep w1 of
                  (Some e, w2) \<Rightarrow> (Some e, w2)
                | (None, w2) \<Rightarrow>
                    (case set_ref (buildAgentDaemonSet lp agentImage) of
                       Inl e \<Rightarrow> (Some e, w2)
                     | Inr ds \<Rightarrow> reconcileDaemonSet c ds w2))))"

definition logPilotFinalizer :: string where
  "logPilotFinalizer = ''logpilot.logpilot.jimyag.com/finalizer''"

definition env_or :: "string \<Rightarrow> string \<Rightarrow> string" where
  "env_or v def = (if v = [] then def else v)"

definition set_finalizers :: "string list \<Rightarrow> 'res LogPilot \<Rightarrow> 'res LogPilot" where
  "set_finalizers fs lp = lp\<lparr>lo_Meta := (lo_Meta lp)\<lparr>om_Finalizers := fs\<rparr>\<rparr>"

text \<open>\<open>Reconcile\<close>: \<open>get_lp\<close> and \<open>update_lp\<close> read and write the LogPilot, the two strings are the environment
  variables of the images.\<close>

definition Reconcile_LogPilot ::
    "('res, 'w) kube_client \<Rightarrow> ('res LogPilot \<Rightarrow> 'res mobj \<Rightarrow> client_err + 'res mobj) \<Rightarrow> ('w \<Rightarrow> client_err + 'res LogPilot)
       \<Rightarrow> ('res LogPilot \<Rightarrow> 'w \<Rightarrow> client_err option \<times> 'w) \<Rightarrow> string \<Rightarrow> string \<Rightarrow> 'w \<Rightarrow> client_err option \<times> 'w" where
  "Reconcile_LogPilot c set_ref get_lp update_lp api_env agent_env w =
     (case get_lp w of
        Inl NotFound \<Rightarrow> (None, w)
      | Inl e \<Rightarrow> (Some e, w)
      | Inr lp \<Rightarrow>
          (let fs = om_Finalizers (lo_Meta lp) in
           if om_DeletionTimestamp (lo_Meta lp) \<noteq> None then
             (if logPilotFinalizer \<in> set fs then
                (case cleanupLogPilot c lp w of
                   (Some e, w1) \<Rightarrow> (Some e, w1)
                 | (None, w1) \<Rightarrow> update_lp (set_finalizers (filter (\<lambda>f. f \<noteq> logPilotFinalizer) fs) lp) w1)
              else (None, w))
           else if logPilotFinalizer \<notin> set fs then update_lp (set_finalizers (fs @ [logPilotFinalizer]) lp) w
           else reconcile_objects c (set_ref lp) (env_or api_env ''ghcr.io/jimyag/logpilot/log-pilot-api:latest'')
             (env_or agent_env ''ghcr.io/jimyag/logpilot/log-pilot-agent:latest'') lp w))"

section \<open>What the API server does\<close>

text \<open>The documented behaviour of a client that nobody disturbs: reads return what is stored, a write that succeeds stores
  the object up to its resource version, a deletion removes it, and objects are stored under their keys.\<close>

definition api_laws :: "('res, 'w) kube_client \<Rightarrow> ('w \<Rightarrow> object_id \<Rightarrow> 'res mobj option) \<Rightarrow> bool" where
  "api_laws c store =
     ((\<forall>k w. (case kc_Get c k w of Inr x \<Rightarrow> store w k = Some x | Inl NotFound \<Rightarrow> store w k = None | Inl e \<Rightarrow> True))
      \<and> (\<forall>x w w'. kc_Create c x w = (None, w') \<longrightarrow> (\<exists>rv. store w' = (store w)(obj_key x \<mapsto> x\<lparr>mo_ResourceVersion := rv\<rparr>)))
      \<and> (\<forall>x w w'. kc_Update c x w = (None, w') \<longrightarrow> (\<exists>rv. store w' = (store w)(obj_key x \<mapsto> x\<lparr>mo_ResourceVersion := rv\<rparr>)))
      \<and> (\<forall>k w w'. kc_Delete c k w = (None, w') \<longrightarrow> store w' = (store w)(k := None))
      \<and> (\<forall>k w w'. kc_Delete c k w = (Some NotFound, w') \<longrightarrow> store w k = None \<and> store w' = store w)
      \<and> (\<forall>k w x. store w k = Some x \<longrightarrow> obj_key x = k))"

definition ref_laws :: "('res mobj \<Rightarrow> client_err + 'res mobj) \<Rightarrow> bool" where
  "ref_laws set_ref = (\<forall>x x'. set_ref x = Inr x' \<longrightarrow> obj_key x' = obj_key x \<and> mo_Spec x' = mo_Spec x)"

section \<open>The desired state\<close>

text \<open>The spec an object is to have: the desired one, with the runtime fields of the object that is there.\<close>

definition settled :: "'res mobj option \<Rightarrow> 'res spec \<Rightarrow> 'res spec" where
  "settled old s = (case old of None \<Rightarrow> s | Some e \<Rightarrow> preserve_spec (mo_Spec e) s)"

definition realizes :: "('w \<Rightarrow> object_id \<Rightarrow> 'res mobj option) \<Rightarrow> 'res mobj list \<Rightarrow> 'w \<Rightarrow> 'w \<Rightarrow> bool" where
  "realizes store ds w w' =
     ((\<forall>d\<in>set ds. map_option mo_Spec (store w' (obj_key d)) = Some (settled (store w (obj_key d)) (mo_Spec d)))
      \<and> (\<forall>k. k \<notin> obj_key ` set ds \<longrightarrow> store w' k = store w k))"

lemma realizes_Nil [simp]: "realizes store [] w w' = (store w' = store w)"
  by (auto simp: realizes_def)

lemma realizes_append:
  assumes "realizes store ds w w1" "realizes store es w1 w2" "obj_key ` set ds \<inter> obj_key ` set es = {}"
  shows "realizes store (ds @ es) w w2"
proof -
  have "store w1 (obj_key e) = store w (obj_key e)" if "e \<in> set es" for e
  proof -
    have "obj_key e \<notin> obj_key ` set ds" using assms(3) that by blast
    then show ?thesis using assms(1) unfolding realizes_def by blast
  qed
  moreover have "store w2 (obj_key d) = store w1 (obj_key d)" if "d \<in> set ds" for d
  proof -
    have "obj_key d \<notin> obj_key ` set es" using assms(3) that by blast
    then show ?thesis using assms(2) unfolding realizes_def by blast
  qed
  ultimately show ?thesis using assms(1,2) unfolding realizes_def by (simp add: ball_Un image_Un del: split_paired_All)
qed

text \<open>Only the key and the spec of a desired object matter.\<close>

lemma realizes_same:
  assumes "realizes store ds w w'" "list_all2 (\<lambda>d e. obj_key d = obj_key e \<and> mo_Spec d = mo_Spec e) ds es"
  shows "realizes store es w w'"
proof -
  have k: "obj_key ` set es = obj_key ` set ds" using assms(2) by (induction rule: list_all2_induct) auto
  have "\<exists>d\<in>set ds. obj_key d = obj_key e \<and> mo_Spec d = mo_Spec e" if "e \<in> set es" for e
    using assms(2) that by (induction rule: list_all2_induct) auto
  with assms(1) k show ?thesis unfolding realizes_def by metis
qed

lemma kind_of_preserve [simp]: "kind_of (preserve_spec e d) = kind_of d"
  by (induction e d rule: preserve_spec.induct) auto

text \<open>Each of the three reconcile functions realizes its object, if it reports no error.\<close>

lemma reconcileObject_realizes:
  assumes "api_laws c store" "reconcileObject c d w = (None, w')"
  shows "realizes store [d] w w'"
proof (cases "kc_Get c (obj_key d) w")
  case (Inl e)
  with assms(2) have e: "e = NotFound" "kc_Create c d w = (None, w')"
    by (auto simp: reconcileObject_def split: client_err.splits)
  have "case kc_Get c (obj_key d) w of Inr x \<Rightarrow> store w (obj_key d) = Some x | Inl NotFound \<Rightarrow> store w (obj_key d) = None | Inl e \<Rightarrow> True"
    using assms(1) unfolding api_laws_def by blast
  with Inl e have n: "store w (obj_key d) = None" by simp
  from assms(1) e(2) obtain rv where "store w' = (store w)(obj_key d \<mapsto> d\<lparr>mo_ResourceVersion := rv\<rparr>)" unfolding api_laws_def by blast
  with n show ?thesis by (simp add: realizes_def settled_def)
next
  case (Inr x)
  let ?d = "(preserveImmutableAndRuntimeFields x d)\<lparr>mo_ResourceVersion := mo_ResourceVersion x\<rparr>"
  have u: "kc_Update c ?d w = (None, w')" using assms(2) Inr by (simp add: reconcileObject_def)
  have k: "obj_key ?d = obj_key d" by (simp add: obj_key_def preserveImmutableAndRuntimeFields_def)
  have "case kc_Get c (obj_key d) w of Inr x \<Rightarrow> store w (obj_key d) = Some x | Inl NotFound \<Rightarrow> store w (obj_key d) = None | Inl e \<Rightarrow> True"
    using assms(1) unfolding api_laws_def by blast
  with Inr have s: "store w (obj_key d) = Some x" by simp
  from assms(1) u obtain rv where "store w' = (store w)(obj_key ?d \<mapsto> ?d\<lparr>mo_ResourceVersion := rv\<rparr>)" unfolding api_laws_def by blast
  with k s show ?thesis by (simp add: realizes_def settled_def preserveImmutableAndRuntimeFields_def)
qed

lemma reconcile_spec_realizes:
  assumes "api_laws c store" "reconcile_spec c d w = (None, w')" "kind_of (mo_Spec d) \<in> {KDeployment, KDaemonSet}"
  shows "realizes store [d] w w'"
proof (cases "kc_Get c (obj_key d) w")
  case (Inl e)
  with assms(2) have "reconcileObject c d w = (None, w')"
    by (auto simp: reconcile_spec_def reconcileObject_def split: client_err.splits)
  with assms(1) show ?thesis by (rule reconcileObject_realizes)
next
  case (Inr x)
  let ?d = "x\<lparr>mo_Spec := mo_Spec d\<rparr>"
  have u: "kc_Update c ?d w = (None, w')" using assms(2) Inr by (simp add: reconcile_spec_def)
  have "case kc_Get c (obj_key d) w of Inr x \<Rightarrow> store w (obj_key d) = Some x | Inl NotFound \<Rightarrow> store w (obj_key d) = None | Inl e \<Rightarrow> True"
    using assms(1) unfolding api_laws_def by blast
  with Inr have s: "store w (obj_key d) = Some x" by simp
  then have "obj_key x = obj_key d" using assms(1) unfolding api_laws_def by blast
  then have k: "obj_key ?d = obj_key d" by (simp add: obj_key_def)
  have p: "preserve_spec (mo_Spec x) (mo_Spec d) = mo_Spec d"
    using assms(3) by (cases "mo_Spec d"; cases "mo_Spec x") auto
  from assms(1) u obtain rv where "store w' = (store w)(obj_key ?d \<mapsto> ?d\<lparr>mo_ResourceVersion := rv\<rparr>)" unfolding api_laws_def by blast
  with k s p show ?thesis by (simp add: realizes_def settled_def)
qed

lemma reconcile_support_realizes:
  assumes "api_laws c store" "ref_laws set_ref"
  shows "reconcile_support c set_ref ds w = (None, w') \<Longrightarrow> distinct (map obj_key ds) \<Longrightarrow> realizes store ds w w'"
proof (induction ds arbitrary: w)
  case (Cons d ds)
  obtain d' where d': "(if mo_Namespace d \<noteq> [] then set_ref d else Inr d) = Inr d'"
    using Cons.prems(1) by (auto split: sum.splits)
  have same: "obj_key d' = obj_key d \<and> mo_Spec d' = mo_Spec d"
    using d' assms(2) by (auto simp: ref_laws_def split: if_splits)
  obtain w1 where w1: "reconcileObject c d' w = (None, w1)" "reconcile_support c set_ref ds w1 = (None, w')"
    using Cons.prems(1) d' by (auto split: prod.splits option.splits)
  have "realizes store [d] w w1"
    by (rule realizes_same[OF reconcileObject_realizes[OF assms(1) w1(1)]]) (simp add: same)
  from realizes_append[OF this Cons.IH[OF w1(2)]] Cons.prems(2) show ?case by auto
qed simp

lemma managed_distinct: "distinct (map obj_key (buildManagedObjects lp a b))"
  by (simp add: buildManagedObjects_def buildSupportObjects_def obj_key_def plain_def buildServiceAccount_def buildAPIService_def
      buildAPIClusterRole_def buildAPIClusterRoleBinding_def buildAgentClusterRole_def buildAgentClusterRoleBinding_def
      buildMutatingWebhook_def buildAPIDeployment_def buildAgentDaemonSet_def apiName_def agentName_def Let_def)

lemma reconcile_objects_realizes:
  assumes "api_laws c store" "ref_laws set_ref" "reconcile_objects c set_ref ai gi lp w = (None, w')"
  shows "realizes store (buildManagedObjects lp ai gi) w w'"
proof -
  let ?s = "buildSupportObjects lp" and ?dep = "buildAPIDeployment lp ai" and ?ds = "buildAgentDaemonSet lp gi"
  from assms(3) obtain w1 dep w2 ds where
      s: "reconcile_support c set_ref ?s w = (None, w1)" and d: "set_ref ?dep = Inr dep" "reconcileDeployment c dep w1 = (None, w2)"
    and n: "set_ref ?ds = Inr ds" "reconcileDaemonSet c ds w2 = (None, w')"
    by (auto simp: reconcile_objects_def split: prod.splits option.splits sum.splits)
  have m: "buildManagedObjects lp ai gi = (?s @ [?dep]) @ [?ds]" by (simp add: buildManagedObjects_def)
  have dist: "distinct (map obj_key ((?s @ [?dep]) @ [?ds]))" using managed_distinct[of lp ai gi] unfolding m .
  have same: "obj_key dep = obj_key ?dep" "mo_Spec dep = mo_Spec ?dep" "obj_key ds = obj_key ?ds" "mo_Spec ds = mo_Spec ?ds"
    using assms(2) d(1) n(1) unfolding ref_laws_def by blast+
  have kinds: "kind_of (mo_Spec dep) \<in> {KDeployment, KDaemonSet}" "kind_of (mo_Spec ds) \<in> {KDeployment, KDaemonSet}"
    by (simp_all add: same buildAPIDeployment_def buildAgentDaemonSet_def plain_def Let_def)
  have r1: "realizes store ?s w w1"
    by (rule reconcile_support_realizes[OF assms(1,2) s]) (use dist in simp)
  have "realizes store [dep] w1 w2" by (rule reconcile_spec_realizes[OF assms(1) _ kinds(1)]) (use d(2) in \<open>simp add: reconcileDeployment_def\<close>)
  then have r2: "realizes store [?dep] w1 w2" by (rule realizes_same) (simp add: same)
  have "realizes store [ds] w2 w'" by (rule reconcile_spec_realizes[OF assms(1) _ kinds(2)]) (use n(2) in \<open>simp add: reconcileDaemonSet_def\<close>)
  then have r3: "realizes store [?ds] w2 w'" by (rule realizes_same) (simp add: same)
  have "realizes store (?s @ [?dep]) w w2" by (rule realizes_append[OF r1 r2]) (use dist in auto)
  then show ?thesis unfolding m by (rule realizes_append[OF _ r3]) (use dist in auto)
qed

lemma delete_all_removes:
  assumes "api_laws c store"
  shows "delete_all c ds w = (None, w') \<Longrightarrow> store w' = (\<lambda>k. if k \<in> obj_key ` set ds then None else store w k)"
proof (induction ds arbitrary: w)
  case (Cons d ds)
  obtain e w1 where e: "kc_Delete c (obj_key d) w = (e, w1)" by force
  have w1: "store w1 = (store w)(obj_key d := None)" "delete_all c ds w1 = (None, w')"
  proof -
    have "e = None \<or> e = Some NotFound" using Cons.prems e by (auto split: option.splits client_err.splits)
    moreover have "e = None \<Longrightarrow> store w1 = (store w)(obj_key d := None)" using assms e unfolding api_laws_def by blast
    moreover have "e = Some NotFound \<Longrightarrow> store w (obj_key d) = None \<and> store w1 = store w" using assms e unfolding api_laws_def by blast
    ultimately show "store w1 = (store w)(obj_key d := None)" by (metis fun_upd_triv)
    show "delete_all c ds w1 = (None, w')" using Cons.prems e by (auto split: option.splits client_err.splits)
  qed
  show ?case unfolding Cons.IH[OF w1(2)] w1(1) by (rule ext) simp
qed simp

lemma kept_bundle: "\<exists>b. keep_bundle es d = d\<lparr>wh_CABundle := b\<rparr>"
proof (induction es rule: rev_induct)
  case Nil
  have "keep_bundle [] d = d\<lparr>wh_CABundle := wh_CABundle d\<rparr>" by (simp add: keep_bundle_def)
  then show ?case by blast
next
  case (snoc e es)
  then obtain b where b: "keep_bundle es d = d\<lparr>wh_CABundle := b\<rparr>" by blast
  have "keep_bundle (es @ [e]) d =
      (if wh_Name (keep_bundle es d) = wh_Name e then (keep_bundle es d)\<lparr>wh_CABundle := wh_CABundle e\<rparr> else keep_bundle es d)"
    by (simp add: keep_bundle_def)
  then show ?case by (cases "wh_Name (keep_bundle es d) = wh_Name e") (use b in auto)
qed

lemma keep_bundle_again: "keep_bundle [keep_bundle es d] d = keep_bundle es d"
  using kept_bundle[of es d] by (auto simp: keep_bundle_def)

lemma keep_bundle_self: "keep_bundle [d] d = d"
  by (simp add: keep_bundle_def)

text \<open>What the code keeps of an object is kept again, for specs with at most one webhook, as the operator's are.\<close>

lemma preserve_again:
  assumes "\<And>hs. s = MutatingWebhook hs \<Longrightarrow> \<exists>h. hs = [h]"
  shows "preserve_spec (preserve_spec e s) s = preserve_spec e s"
proof (cases s)
  case (MutatingWebhook hs)
  then obtain h where "hs = [h]" using assms by blast
  with MutatingWebhook show ?thesis by (cases e) (simp_all add: keep_bundle_again keep_bundle_self)
qed (cases e; simp)+

lemma preserve_self:
  assumes "\<And>hs. s = MutatingWebhook hs \<Longrightarrow> \<exists>h. hs = [h]"
  shows "preserve_spec s s = s"
proof (cases s)
  case (MutatingWebhook hs)
  then obtain h where "hs = [h]" using assms by blast
  with MutatingWebhook show ?thesis by (simp add: keep_bundle_self)
qed simp_all

lemma managed_webhook:
  assumes "d \<in> set (buildManagedObjects lp a b)" "mo_Spec d = MutatingWebhook hs"
  shows "\<exists>h. hs = [h]"
proof -
  have "\<exists>h. mo_Spec (buildMutatingWebhook lp) = MutatingWebhook [h]" by (simp add: buildMutatingWebhook_def plain_def)
  with assms show ?thesis
    by (auto simp: buildManagedObjects_def buildSupportObjects_def plain_def buildServiceAccount_def buildAPIService_def
      buildAPIClusterRole_def buildAPIClusterRoleBinding_def buildAgentClusterRole_def buildAgentClusterRoleBinding_def
      buildAPIDeployment_def buildAgentDaemonSet_def Let_def)
qed

lemma realizes_again:
  assumes "realizes store ds w w1" "realizes store ds w1 w2" "\<And>d hs. d \<in> set ds \<Longrightarrow> mo_Spec d = MutatingWebhook hs \<Longrightarrow> \<exists>h. hs = [h]"
  shows "map_option mo_Spec (store w2 k) = map_option mo_Spec (store w1 k)"
proof (cases "k \<in> obj_key ` set ds")
  case True
  then obtain d where d: "d \<in> set ds" "k = obj_key d" by blast
  note h = assms(3)[OF d(1)]
  have s1: "map_option mo_Spec (store w1 k) = Some (settled (store w k) (mo_Spec d))"
    and s2: "map_option mo_Spec (store w2 k) = Some (settled (store w1 k) (mo_Spec d))"
    using assms(1,2) d unfolding realizes_def by blast+
  then obtain x where x: "store w1 k = Some x" "mo_Spec x = settled (store w k) (mo_Spec d)" by auto
  have "preserve_spec (settled (store w k) (mo_Spec d)) (mo_Spec d) = settled (store w k) (mo_Spec d)"
    unfolding settled_def using preserve_again[OF h] preserve_self[OF h] by (auto split: option.split)
  then show ?thesis using s1 s2 x by (simp add: settled_def)
next
  case False
  then show ?thesis using assms(2) unfolding realizes_def by metis
qed

lemma Reconcile_objects:
  assumes "get_lp w = Inr lp" "om_DeletionTimestamp (lo_Meta lp) = None" "logPilotFinalizer \<in> set (om_Finalizers (lo_Meta lp))"
  shows "Reconcile_LogPilot c set_ref get_lp update_lp api_env agent_env w =
    reconcile_objects c (set_ref lp) (env_or api_env ''ghcr.io/jimyag/logpilot/log-pilot-api:latest'')
      (env_or agent_env ''ghcr.io/jimyag/logpilot/log-pilot-agent:latest'') lp w"
  using assms by (simp add: Reconcile_LogPilot_def Let_def)




section \<open>Concrete runs\<close>

definition demo_store :: "nat mobj list \<Rightarrow> object_id \<Rightarrow> nat mobj option" where
  "demo_store w k = find (\<lambda>x. obj_key x = k) w"

definition demo_client :: "(nat, nat mobj list) kube_client" where
  "demo_client = \<lparr>kc_Get = (\<lambda>k w. case demo_store w k of Some x \<Rightarrow> Inr x | None \<Rightarrow> Inl NotFound),
     kc_Create = (\<lambda>x w. (None, x # filter (\<lambda>y. obj_key y \<noteq> obj_key x) w)),
     kc_Update = (\<lambda>x w. (None, x # filter (\<lambda>y. obj_key y \<noteq> obj_key x) w)),
     kc_Delete = (\<lambda>k w. if demo_store w k = None then (Some NotFound, w) else (None, filter (\<lambda>y. obj_key y \<noteq> k) w))\<rparr>"

lemma demo_store_filter: "demo_store (filter (\<lambda>y. obj_key y \<noteq> k) w) = (demo_store w)(k := None)"
  by (rule ext, induction w) (auto simp: demo_store_def)

lemma demo_store_put: "demo_store (x # filter (\<lambda>y. obj_key y \<noteq> obj_key x) w) = (demo_store w)(obj_key x \<mapsto> x)"
  using demo_store_filter[of "obj_key x" w] by (auto simp: demo_store_def fun_eq_iff)

lemma demo_store_key: "demo_store w k = Some x \<Longrightarrow> obj_key x = k"
  by (induction w) (auto simp: demo_store_def split: if_splits)

lemma demo_laws: "api_laws demo_client demo_store"
proof -
  have p: "\<exists>rv. demo_store (x # filter (\<lambda>y. obj_key y \<noteq> obj_key x) w) = (demo_store w)(obj_key x \<mapsto> x\<lparr>mo_ResourceVersion := rv\<rparr>)"
    for x :: "nat mobj" and w
    by (rule exI[of _ "mo_ResourceVersion x"]) (simp add: demo_store_put)
  show ?thesis unfolding api_laws_def
    by (intro conjI allI impI)
      (use p demo_store_key in \<open>auto simp: demo_client_def demo_store_filter split: option.splits if_splits\<close>)
qed

definition demo_lp :: "string \<Rightarrow> int option \<Rightarrow> nat LogPilot" where
  "demo_lp ns del = \<lparr>
     lo_Meta = \<lparr>om_Name = ''lp'', om_Namespace = ns, om_UID = ''u'', om_Labels = [], om_Annotations = None, om_Generation = 1,
       om_Finalizers = [logPilotFinalizer], om_DeletionTimestamp = del, om_ResourceVersion = ''1''\<rparr>,
     lo_Spec = \<lparr>lp_Agent = \<lparr>ag_ConfigDir = [], ag_MetaDir = [], ag_LogDir = [], ag_SelfLog = \<lparr>sl_Dir = [], sl_ReserveCount = 0\<rparr>,
         ag_Resources = 0\<rparr>, lp_API = \<lparr>ap_Replicas = 0, ap_Resources = 0\<rparr>\<rparr>, lo_Conditions = []\<rparr>"

definition demo_ref :: "nat LogPilot \<Rightarrow> nat mobj \<Rightarrow> client_err + nat mobj" where
  "demo_ref lp x = Inr (x\<lparr>mo_Owner := Some (om_UID (lo_Meta lp))\<rparr>)"

lemma demo_ref_laws: "ref_laws (demo_ref lp)"
  by (simp add: ref_laws_def demo_ref_def obj_key_def)

definition demo_reconcile :: "string \<Rightarrow> int option \<Rightarrow> nat mobj list \<Rightarrow> client_err option \<times> nat mobj list" where
  "demo_reconcile ns del w =
     Reconcile_LogPilot demo_client demo_ref (\<lambda>w. Inr (demo_lp ns del)) (\<lambda>lp w. (None, w)) [] [] w"

lemma demo_reconcile_ok:
  "fst (demo_reconcile ''a'' None []) = None" "fst (demo_reconcile ''a'' None (snd (demo_reconcile ''a'' None []))) = None"
  "fst (demo_reconcile ''a'' (Some 5) (snd (demo_reconcile ''a'' None []))) = None"
  by code_simp+

abbreviation demo_managed :: "string \<Rightarrow> nat mobj list" where
  "demo_managed ns \<equiv> buildManagedObjects (demo_lp ns None) (env_or [] ''ghcr.io/jimyag/logpilot/log-pilot-api:latest'')
     (env_or [] ''ghcr.io/jimyag/logpilot/log-pilot-agent:latest'')"




text \<open>Two LogPilots in different namespaces share one cluster-wide webhook configuration, because its name is constant: reconciling
  the second one points it at the second namespace, and deleting the second one deletes it although the first LogPilot is still
  there.\<close>

definition two_pilots :: "nat mobj list" where
  "two_pilots = snd (demo_reconcile ''b'' None (snd (demo_reconcile ''a'' None [])))"

definition webhook_namespace :: "nat mobj list \<Rightarrow> string list option" where
  "webhook_namespace w = (case demo_store w (KWebhook, [], ''log-pilot-api'') of
     Some x \<Rightarrow> (case mo_Spec x of MutatingWebhook hs \<Rightarrow> Some (map wh_ServiceNamespace hs) | _ \<Rightarrow> None) | None \<Rightarrow> None)"

theorem webhook_is_shared:
  "webhook_namespace (snd (demo_reconcile ''a'' None [])) = Some [''a'']
   \<and> webhook_namespace two_pilots = Some [''b'']
   \<and> fst (demo_reconcile ''b'' (Some 5) two_pilots) = None
   \<and> webhook_namespace (snd (demo_reconcile ''b'' (Some 5) two_pilots)) = None
   \<and> demo_store (snd (demo_reconcile ''b'' (Some 5) two_pilots)) (KDeployment, ''a'', ''log-pilot-api'') \<noteq> None"
  by code_simp

end
