(* ===== verification/Deployed.thy ===== *)
theory Deployed
  imports Deploy Watcher
begin

text \<open>
  The deployed agent: \<open>cmd/log-pilot-agent/main.go\<close> reads its configuration from the environment the DaemonSet of
  \<open>deploy.go\<close> gives it. This ties the three programs together: the directory the operator configures, the one
  the webhook mounts into the containers and the one the runners of the agent read.

  The kubelet resolves the fields of the Pod; \<open>field\<close> stands for that. The clients, the status server's listener and
  the signals of \<open>main\<close> are not modelled.
\<close>

section \<open>The environment of the agent\<close>

definition envOrDefault :: "(string, string) gomap \<Rightarrow> string \<Rightarrow> string \<Rightarrow> string" where
  "envOrDefault env key def = (let v = gm_str env key in if v \<noteq> [] then v else def)"

text \<open>\<open>main\<close> exits without the name of its node.\<close>

definition agent_config :: "(string, string) gomap \<Rightarrow> WatcherConfig option" where
  "agent_config env =
     (let nodeName = gm_str env ''NODE_NAME''
      in if nodeName = [] then None
         else Some \<lparr>wc_NodeName = nodeName, wc_Namespace = envOrDefault env ''POD_NAMESPACE'' ''default'',
           wc_LogDir = envOrDefault env ''LOG_DIR'' ''/var/log/log-pilot'',
           wc_ConfigDir = envOrDefault env ''CONFIG_DIR'' ''/var/lib/log-pilot-agent/conf'',
           wc_MetaDir = envOrDefault env ''META_DIR'' ''/var/lib/log-pilot-agent/meta''\<rparr>)"

fun env_of :: "(string \<Rightarrow> string) \<Rightarrow> agent_env list \<Rightarrow> (string, string) gomap" where
  "env_of field [] = []"
| "env_of field (AgentValue n v # es) = gm_put n v (env_of field es)"
| "env_of field (AgentField n p # es) = gm_put n (field p) (env_of field es)"

definition deployed_env :: "(string \<Rightarrow> string) \<Rightarrow> 'res mobj \<Rightarrow> (string, string) gomap" where
  "deployed_env field ds = (case mo_Spec ds of DaemonSet s \<Rightarrow> env_of field (ns_Env s) | _ \<Rightarrow> [])"

lemma deployed_env_vars:
  "gm_str (deployed_env field (buildAgentDaemonSet lp img)) ''NODE_NAME'' = field ''spec.nodeName''"
  "gm_str (deployed_env field (buildAgentDaemonSet lp img)) ''POD_NAMESPACE'' = field ''metadata.namespace''"
  "gm_str (deployed_env field (buildAgentDaemonSet lp img)) ''LOG_DIR'' = agent_log_dir lp"
  "gm_str (deployed_env field (buildAgentDaemonSet lp img)) ''META_DIR'' = agent_meta_dir lp"
  "gm_str (deployed_env field (buildAgentDaemonSet lp img)) ''CONFIG_DIR'' = []"
  by (simp_all add: deployed_env_def buildAgentDaemonSet_def plain_def Let_def gm_str_def gomap_simps)

lemma deployed_config:
  assumes "field ''spec.nodeName'' \<noteq> []"
  shows "\<exists>cfg. agent_config (deployed_env field (buildAgentDaemonSet lp img)) = Some cfg \<and> wc_LogDir cfg = agent_log_dir lp
    \<and> wc_MetaDir cfg = agent_meta_dir lp \<and> wc_NodeName cfg = field ''spec.nodeName''"
proof -
  have "agent_log_dir lp \<noteq> []" "agent_meta_dir lp \<noteq> []" by (simp_all add: agent_log_dir_def agent_meta_dir_def Let_def)
  with assms show ?thesis by (simp add: agent_config_def envOrDefault_def Let_def deployed_env_vars)
qed

section \<open>The directory of a container's logs\<close>



end
