(* ===== verification/GoMemory.thy ===== *)
theory GoMemory
  imports Prelude
begin

text \<open>
  The memory of Go as far as copying depends on it: pointers, slices and maps refer to cells, and a struct
  assignment copies references, not what they refer to.

  A type says where references are. \<open>conf\<close> is a value of a type in a memory, \<open>view\<close> is what a reader sees of
  it through all its references, and \<open>refs\<close> are the cells it can reach. A type from another module is opaque: its values
  are some data and the cells they own. \<open>deep\<close> is the specification of a deep copy, and a lemma for each shape of
  type derives it for the code that \<open>controller-gen\<close> writes for that shape.
\<close>

section \<open>Types, values, cells\<close>

datatype gtyp = TString | TInt | TExt string | TPtr gtyp | TSlice gtyp | TMap gtyp | TStruct "(string \<times> gtyp) list"

text \<open>A slice is a cell with the offset and the length of its part.\<close>

datatype gval =
    VString string
  | VInt int
  | VNil
  | VRef nat
  | VSlice nat nat nat
  | VMapRef nat
  | VStruct "(string \<times> gval) list"
  | VExt string "nat list"

datatype cell = CVal gval | CArr "gval list" | CMap "(string \<times> gval) list" | CExt string

record memory =
  mem :: "nat \<Rightarrow> cell option"
  nxt :: nat

definition mem_wf :: "memory \<Rightarrow> bool" where
  "mem_wf s = (\<forall>a. mem s a \<noteq> None \<longrightarrow> a < nxt s)"

definition alloc :: "cell \<Rightarrow> memory \<Rightarrow> nat \<times> memory" where
  "alloc c s = (nxt s, s\<lparr>mem := (mem s)(nxt s \<mapsto> c), nxt := Suc (nxt s)\<rparr>)"

text \<open>The elements of a slice; \<open>None\<close> when it does not fit its cell.\<close>

definition slice_of :: "memory \<Rightarrow> nat \<Rightarrow> nat \<Rightarrow> nat \<Rightarrow> gval list option" where
  "slice_of s a off n =
     (case mem s a of Some (CArr vs) \<Rightarrow> (if off + n \<le> length vs then Some (take n (drop off vs)) else None) | _ \<Rightarrow> None)"

section \<open>Copying\<close>

text \<open>A copier returns the copy and the memory, or is \<open>None\<close> where the code would panic.\<close>

type_synonym copier = "gval \<Rightarrow> memory \<Rightarrow> (gval \<times> memory) option"

text \<open>An assignment \<open>*out = *in\<close>.\<close>

definition copy_assign :: copier where
  "copy_assign v s = Some (v, s)"

text \<open>The struct assignment followed by the copies of the named fields.\<close>

fun copy_members :: "(string \<Rightarrow> copier option) \<Rightarrow> (string \<times> gval) list \<Rightarrow> memory \<Rightarrow> ((string \<times> gval) list \<times> memory) option" where
  "copy_members cs [] s = Some ([], s)"
| "copy_members cs ((n, v) # fs) s =
     (case (case cs n of None \<Rightarrow> Some (v, s) | Some c \<Rightarrow> c v s) of
        None \<Rightarrow> None
      | Some (v', s1) \<Rightarrow>
          (case copy_members cs fs s1 of None \<Rightarrow> None | Some (fs', s2) \<Rightarrow> Some ((n, v') # fs', s2)))"

definition copy_fields :: "(string \<times> copier) list \<Rightarrow> copier" where
  "copy_fields cs v s =
     (case v of
        VStruct fs \<Rightarrow> (case copy_members (map_of cs) fs s of None \<Rightarrow> None | Some (fs', s') \<Rightarrow> Some (VStruct fs', s'))
      | _ \<Rightarrow> None)"

fun copy_list :: "copier \<Rightarrow> gval list \<Rightarrow> memory \<Rightarrow> (gval list \<times> memory) option" where
  "copy_list c [] s = Some ([], s)"
| "copy_list c (v # vs) s =
     (case c v s of
        None \<Rightarrow> None
      | Some (v', s1) \<Rightarrow> (case copy_list c vs s1 of None \<Rightarrow> None | Some (vs', s2) \<Rightarrow> Some (v' # vs', s2)))"

text \<open>Nil stays nil; otherwise a new variable, a new array or a new map is filled with copies. The new cell is
  allocated when it is full, which nothing else can see.\<close>

definition copy_ptr :: "copier \<Rightarrow> copier" where
  "copy_ptr c v s =
     (case v of
        VNil \<Rightarrow> Some (VNil, s)
      | VRef a \<Rightarrow>
          (case mem s a of
             Some (CVal w) \<Rightarrow>
               (case c w s of None \<Rightarrow> None | Some (w', s1) \<Rightarrow> (case alloc (CVal w') s1 of (b, s2) \<Rightarrow> Some (VRef b, s2)))
           | _ \<Rightarrow> None)
      | _ \<Rightarrow> None)"

definition copy_slice :: "copier \<Rightarrow> copier" where
  "copy_slice c v s =
     (case v of
        VNil \<Rightarrow> Some (VNil, s)
      | VSlice a off n \<Rightarrow>
          (case slice_of s a off n of
             None \<Rightarrow> None
           | Some vs \<Rightarrow>
               (case copy_list c vs s of
                  None \<Rightarrow> None
                | Some (vs', s1) \<Rightarrow> (case alloc (CArr vs') s1 of (b, s2) \<Rightarrow> Some (VSlice b 0 n, s2))))
      | _ \<Rightarrow> None)"

definition copy_map :: "copier \<Rightarrow> copier" where
  "copy_map c v s =
     (case v of
        VNil \<Rightarrow> Some (VNil, s)
      | VMapRef a \<Rightarrow>
          (case mem s a of
             Some (CMap ms) \<Rightarrow>
               (case copy_list c (map snd ms) s of
                  None \<Rightarrow> None
                | Some (vs', s1) \<Rightarrow> (case alloc (CMap (zip (map fst ms) vs')) s1 of (b, s2) \<Rightarrow> Some (VMapRef b, s2)))
           | _ \<Rightarrow> None)
      | _ \<Rightarrow> None)"

section \<open>What a value is in a memory\<close>

fun conf :: "memory \<Rightarrow> gtyp \<Rightarrow> gval \<Rightarrow> bool"
  and conf_fields :: "memory \<Rightarrow> (string \<times> gtyp) list \<Rightarrow> (string \<times> gval) list \<Rightarrow> bool" where
  "conf s TString v = (case v of VString x \<Rightarrow> True | _ \<Rightarrow> False)"
| "conf s TInt v = (case v of VInt x \<Rightarrow> True | _ \<Rightarrow> False)"
| "conf s (TExt n) v = (case v of VExt d as \<Rightarrow> list_all (\<lambda>a. case mem s a of Some (CExt x) \<Rightarrow> True | _ \<Rightarrow> False) as | _ \<Rightarrow> False)"
| "conf s (TPtr t) v =
     (case v of VNil \<Rightarrow> True | VRef a \<Rightarrow> (case mem s a of Some (CVal w) \<Rightarrow> conf s t w | _ \<Rightarrow> False) | _ \<Rightarrow> False)"
| "conf s (TSlice t) v =
     (case v of VNil \<Rightarrow> True | VSlice a off n \<Rightarrow> (case slice_of s a off n of Some vs \<Rightarrow> list_all (conf s t) vs | None \<Rightarrow> False) | _ \<Rightarrow> False)"
| "conf s (TMap t) v =
     (case v of VNil \<Rightarrow> True | VMapRef a \<Rightarrow> (case mem s a of Some (CMap ms) \<Rightarrow> list_all (conf s t) (map snd ms) | _ \<Rightarrow> False) | _ \<Rightarrow> False)"
| "conf s (TStruct ts) v = (case v of VStruct fs \<Rightarrow> conf_fields s ts fs | _ \<Rightarrow> False)"
| "conf_fields s [] fs = (fs = [])"
| "conf_fields s ((n, t) # ts) fs = (case fs of (m, v) # fs' \<Rightarrow> m = n \<and> conf s t v \<and> conf_fields s ts fs' | [] \<Rightarrow> False)"

datatype gtree =
    LString string
  | LInt int
  | LNil
  | LExt string "string list"
  | LPtr gtree
  | LSlice "gtree list"
  | LMap "(string \<times> gtree) list"
  | LStruct "(string \<times> gtree) list"

definition ext_cell :: "memory \<Rightarrow> nat \<Rightarrow> string" where
  "ext_cell s a = (case mem s a of Some (CExt x) \<Rightarrow> x | _ \<Rightarrow> [])"

fun view :: "memory \<Rightarrow> gtyp \<Rightarrow> gval \<Rightarrow> gtree"
  and view_fields :: "memory \<Rightarrow> (string \<times> gtyp) list \<Rightarrow> (string \<times> gval) list \<Rightarrow> (string \<times> gtree) list" where
  "view s TString v = (case v of VString x \<Rightarrow> LString x | _ \<Rightarrow> LNil)"
| "view s TInt v = (case v of VInt x \<Rightarrow> LInt x | _ \<Rightarrow> LNil)"
| "view s (TExt n) v = (case v of VExt d as \<Rightarrow> LExt d (map (ext_cell s) as) | _ \<Rightarrow> LNil)"
| "view s (TPtr t) v = (case v of VRef a \<Rightarrow> (case mem s a of Some (CVal w) \<Rightarrow> LPtr (view s t w) | _ \<Rightarrow> LNil) | _ \<Rightarrow> LNil)"
| "view s (TSlice t) v =
     (case v of VSlice a off n \<Rightarrow> (case slice_of s a off n of Some vs \<Rightarrow> LSlice (map (view s t) vs) | None \<Rightarrow> LNil) | _ \<Rightarrow> LNil)"
| "view s (TMap t) v =
     (case v of VMapRef a \<Rightarrow> (case mem s a of Some (CMap ms) \<Rightarrow> LMap (zip (map fst ms) (map (view s t) (map snd ms))) | _ \<Rightarrow> LNil) | _ \<Rightarrow> LNil)"
| "view s (TStruct ts) v = (case v of VStruct fs \<Rightarrow> LStruct (view_fields s ts fs) | _ \<Rightarrow> LNil)"
| "view_fields s [] fs = []"
| "view_fields s ((n, t) # ts) fs = (case fs of (m, v) # fs' \<Rightarrow> (n, view s t v) # view_fields s ts fs' | [] \<Rightarrow> [])"

fun refs :: "memory \<Rightarrow> gtyp \<Rightarrow> gval \<Rightarrow> nat list"
  and refs_fields :: "memory \<Rightarrow> (string \<times> gtyp) list \<Rightarrow> (string \<times> gval) list \<Rightarrow> nat list" where
  "refs s TString v = []"
| "refs s TInt v = []"
| "refs s (TExt n) v = (case v of VExt d as \<Rightarrow> as | _ \<Rightarrow> [])"
| "refs s (TPtr t) v = (case v of VRef a \<Rightarrow> a # (case mem s a of Some (CVal w) \<Rightarrow> refs s t w | _ \<Rightarrow> []) | _ \<Rightarrow> [])"
| "refs s (TSlice t) v =
     (case v of VSlice a off n \<Rightarrow> a # (case slice_of s a off n of Some vs \<Rightarrow> concat (map (refs s t) vs) | None \<Rightarrow> []) | _ \<Rightarrow> [])"
| "refs s (TMap t) v =
     (case v of VMapRef a \<Rightarrow> a # (case mem s a of Some (CMap ms) \<Rightarrow> concat (map (refs s t) (map snd ms)) | _ \<Rightarrow> []) | _ \<Rightarrow> [])"
| "refs s (TStruct ts) v = (case v of VStruct fs \<Rightarrow> refs_fields s ts fs | _ \<Rightarrow> [])"
| "refs_fields s [] fs = []"
| "refs_fields s ((n, t) # ts) fs = (case fs of (m, v) # fs' \<Rightarrow> refs s t v @ refs_fields s ts fs' | [] \<Rightarrow> [])"

section \<open>Memories that agree\<close>

text \<open>What a value reaches decides everything about it.\<close>

lemma agree:
  "(\<And>a. a \<in> set (refs s t v) \<Longrightarrow> mem s' a = mem s a) \<Longrightarrow>
     conf s' t v = conf s t v \<and> view s' t v = view s t v \<and> refs s' t v = refs s t v"
  "(\<And>a. a \<in> set (refs_fields s ts fs) \<Longrightarrow> mem s' a = mem s a) \<Longrightarrow>
     conf_fields s' ts fs = conf_fields s ts fs \<and> view_fields s' ts fs = view_fields s ts fs \<and> refs_fields s' ts fs = refs_fields s ts fs"
proof (induction s t v and s ts fs rule: refs_refs_fields.induct)
  case (3 s n v)
  then show ?case
    by (auto simp: ext_cell_def list_all_iff split: gval.splits cell.splits option.splits)
next
  case (4 s t v)
  show ?case
  proof (cases v)
    case (VRef a)
    then have m: "mem s' a = mem s a" using 4 by simp
    show ?thesis
    proof (cases "mem s a")
      case (Some c)
      then show ?thesis using 4 VRef m by (cases c) auto
    qed (use VRef m in simp)
  qed simp_all
next
  case (5 s t v)
  show ?case
  proof (cases v)
    case (VSlice a off n)
    then have m: "mem s' a = mem s a" using 5 by simp
    then have sl: "slice_of s' a off n = slice_of s a off n" by (simp add: slice_of_def)
    show ?thesis
    proof (cases "slice_of s a off n")
      case (Some vs)
      have "conf s' t x = conf s t x \<and> view s' t x = view s t x \<and> refs s' t x = refs s t x" if "x \<in> set vs" for x
      proof (rule "5.IH"[OF VSlice Some that])
        show "mem s' b = mem s b" if "b \<in> set (refs s t x)" for b
          using "5.prems"[of b] VSlice Some \<open>x \<in> set vs\<close> that by auto
      qed
      then show ?thesis using VSlice Some sl by (simp add: list_all_iff cong: map_cong)
    qed (use VSlice sl in simp)
  qed simp_all
next
  case (6 s t v)
  show ?case
  proof (cases v)
    case (VMapRef a)
    then have m: "mem s' a = mem s a" using 6 by simp
    show ?thesis
    proof (cases "mem s a")
      case (Some c)
      show ?thesis
      proof (cases c)
        case (CMap ms)
        have "conf s' t x = conf s t x \<and> view s' t x = view s t x \<and> refs s' t x = refs s t x" if "x \<in> snd ` set ms" for x
        proof -
          have x: "x \<in> set (map snd ms)" using that by simp
          show ?thesis
          proof (rule "6.IH"[OF VMapRef Some CMap x])
            show "mem s' b = mem s b" if "b \<in> set (refs s t x)" for b
              using "6.prems"[of b] VMapRef Some CMap x that by auto
          qed
        qed
        then show ?thesis using VMapRef Some CMap m by (simp add: list_all_iff cong: map_cong)
      qed (use VMapRef Some m in simp_all)
    qed (use VMapRef m in simp)
  qed simp_all
next
  case (7 s ts v)
  then show ?case by (cases v) auto
next
  case (9 s n t ts fs)
  then show ?case by (cases fs) (auto split: prod.splits)
qed simp_all

text \<open>What a well-typed value reaches is allocated.\<close>

lemma conf_refs:
  "conf s t v \<Longrightarrow> a \<in> set (refs s t v) \<Longrightarrow> mem s a \<noteq> None"
  "conf_fields s ts fs \<Longrightarrow> a \<in> set (refs_fields s ts fs) \<Longrightarrow> mem s a \<noteq> None"
proof (induction s t v and s ts fs arbitrary: a and a rule: refs_refs_fields.induct)
  case (4 s t v)
  then show ?case by (auto split: gval.splits option.splits cell.splits)
next
  case (5 s t v)
  then show ?case by (auto simp: list_all_iff slice_of_def split: gval.splits option.splits)
next
  case (6 s t v)
  show ?case
  proof (cases v)
    case (VMapRef b)
    then obtain ms where ms: "mem s b = Some (CMap ms)" "list_all (conf s t) (map snd ms)"
      using "6.prems"(1) by (auto split: option.splits cell.splits)
    have "mem s a \<noteq> None" if "x \<in> set (map snd ms)" "a \<in> set (refs s t x)" for x
      using "6.IH"[OF VMapRef ms(1) refl that(1)] ms(2) that by (auto simp: list_all_iff)
    then show ?thesis using "6.prems"(2) VMapRef ms(1) by auto
  qed (use "6.prems" in simp_all)
next
  case (9 s n t ts fs)
  then show ?case by (cases fs) (auto split: prod.splits)
qed (auto simp: list_all_iff split: gval.splits option.splits)

section \<open>Deep copies\<close>

text \<open>A memory that has grown keeps every cell it had.\<close>

definition grown :: "memory \<Rightarrow> memory \<Rightarrow> bool" where
  "grown s s' = (mem_wf s' \<and> nxt s \<le> nxt s' \<and> (\<forall>a<nxt s. mem s' a = mem s a))"

lemma grown_refl: "mem_wf s \<Longrightarrow> grown s s"
  by (simp add: grown_def)

lemma grown_trans: "grown s s' \<Longrightarrow> grown s' s'' \<Longrightarrow> grown s s''"
  by (auto simp: grown_def)

lemma grown_wf: "grown s s' \<Longrightarrow> mem_wf s'"
  by (simp add: grown_def)

lemma grown_alloc: "mem_wf s \<Longrightarrow> alloc c s = (b, s') \<Longrightarrow> grown s s' \<and> mem s' b = Some c \<and> nxt s \<le> b"
  by (auto simp: grown_def mem_wf_def alloc_def less_Suc_eq)

lemma grown_same:
  assumes "mem_wf s" "grown s s'"
  shows "conf s t v \<Longrightarrow> conf s' t v \<and> view s' t v = view s t v \<and> refs s' t v = refs s t v"
    and "conf_fields s ts fs \<Longrightarrow> conf_fields s' ts fs \<and> view_fields s' ts fs = view_fields s ts fs \<and> refs_fields s' ts fs = refs_fields s ts fs"
proof -
  have m: "mem s' a = mem s a" if "mem s a \<noteq> None" for a using assms that by (auto simp: mem_wf_def grown_def)
  show "conf s t v \<Longrightarrow> conf s' t v \<and> view s' t v = view s t v \<and> refs s' t v = refs s t v"
    using agree(1)[of s t v s'] conf_refs(1) m by blast
  show "conf_fields s ts fs \<Longrightarrow> conf_fields s' ts fs \<and> view_fields s' ts fs = view_fields s ts fs \<and> refs_fields s' ts fs = refs_fields s ts fs"
    using agree(2)[of s ts fs s'] conf_refs(2) m by blast
qed

text \<open>The specification: the copy exists, has the type, looks the same, and reaches new cells only.\<close>

definition deep :: "gtyp \<Rightarrow> copier \<Rightarrow> bool" where
  "deep t c =
     (\<forall>v s. mem_wf s \<longrightarrow> conf s t v \<longrightarrow>
        (\<exists>v' s'. c v s = Some (v', s') \<and> grown s s' \<and> conf s' t v' \<and> view s' t v' = view s t v
          \<and> (\<forall>a\<in>set (refs s' t v'). nxt s \<le> a)))"

lemma deepD:
  assumes "deep t c" "mem_wf s" "conf s t v"
  obtains v' s' where "c v s = Some (v', s')" "grown s s'" "conf s' t v'" "view s' t v' = view s t v"
    "\<forall>a\<in>set (refs s' t v'). nxt s \<le> a"
  using assms unfolding deep_def by blast

text \<open>An assignment copies what holds no reference.\<close>

fun flat :: "gtyp \<Rightarrow> bool" and flat_fields :: "(string \<times> gtyp) list \<Rightarrow> bool" where
  "flat TString = True"
| "flat TInt = True"
| "flat (TStruct ts) = flat_fields ts"
| "flat _ = False"
| "flat_fields [] = True"
| "flat_fields ((n, t) # ts) = (flat t \<and> flat_fields ts)"

lemma flat_refs: "flat t \<Longrightarrow> refs s t v = []" "flat_fields ts \<Longrightarrow> refs_fields s ts fs = []"
  by (induction s t v and s ts fs rule: refs_refs_fields.induct) (auto split: gval.split list.split prod.split)

lemma deep_assign: "flat t \<Longrightarrow> deep t copy_assign"
  by (simp add: deep_def copy_assign_def grown_refl flat_refs)

lemma copy_list_deep:
  assumes "deep t c"
  shows "mem_wf s \<Longrightarrow> list_all (conf s t) vs \<Longrightarrow>
    \<exists>vs' s'. copy_list c vs s = Some (vs', s') \<and> grown s s' \<and> list_all (conf s' t) vs' \<and> map (view s' t) vs' = map (view s t) vs
      \<and> (\<forall>v\<in>set vs'. \<forall>a\<in>set (refs s' t v). nxt s \<le> a)"
proof (induction vs arbitrary: s)
  case Nil
  then show ?case by (simp add: grown_refl)
next
  case (Cons v vs)
  then have cv: "conf s t v" and cvs: "list_all (conf s t) vs" by simp_all
  obtain v' s1 where 1: "c v s = Some (v', s1)" "grown s s1" "conf s1 t v'" "view s1 t v' = view s t v"
    "\<forall>a\<in>set (refs s1 t v'). nxt s \<le> a"
    by (rule deepD[OF assms Cons.prems(1) cv]) blast
  have same: "conf s1 t x \<and> view s1 t x = view s t x" if "x \<in> set vs" for x
    using grown_same(1)[OF Cons.prems(1) 1(2), of t x] cvs that by (simp add: list_all_iff)
  then have "list_all (conf s1 t) vs" by (simp add: list_all_iff)
  from Cons.IH[OF grown_wf[OF 1(2)] this] obtain vs' s2 where 2: "copy_list c vs s1 = Some (vs', s2)" "grown s1 s2"
    "list_all (conf s2 t) vs'" "map (view s2 t) vs' = map (view s1 t) vs" "\<forall>v\<in>set vs'. \<forall>a\<in>set (refs s2 t v). nxt s1 \<le> a" by blast
  have v': "conf s2 t v'" "view s2 t v' = view s t v" "refs s2 t v' = refs s1 t v'"
    using grown_same(1)[OF grown_wf[OF 1(2)] 2(2) 1(3)] 1(4) by simp_all
  have "nxt s \<le> nxt s1" using 1(2) by (simp add: grown_def)
  then have "\<forall>v\<in>set (v' # vs'). \<forall>a\<in>set (refs s2 t v). nxt s \<le> a" using 1(5) 2(5) v'(3) by (auto intro: order_trans)
  moreover have "map (view s2 t) (v' # vs') = map (view s t) (v # vs)" using 2(4) v'(2) same by (simp cong: map_cong)
  moreover have "copy_list c (v # vs) s = Some (v' # vs', s2)" using 1(1) 2(1) by simp
  ultimately show ?case using grown_trans[OF 1(2) 2(2)] 2(3) v'(1) by (intro exI[of _ "v' # vs'"] exI[of _ s2]) simp
qed

lemma deep_ptr:
  assumes "deep t c"
  shows "deep (TPtr t) (copy_ptr c)"
  unfolding deep_def
proof (intro allI impI)
  fix v s assume wf: "mem_wf s" and cv: "conf s (TPtr t) v"
  consider "v = VNil" | a w where "v = VRef a" "mem s a = Some (CVal w)" "conf s t w"
    using cv by (auto split: gval.splits option.splits cell.splits)
  then show "\<exists>v' s'. copy_ptr c v s = Some (v', s') \<and> grown s s' \<and> conf s' (TPtr t) v' \<and> view s' (TPtr t) v' = view s (TPtr t) v
      \<and> (\<forall>a\<in>set (refs s' (TPtr t) v'). nxt s \<le> a)"
  proof cases
    case 1
    then show ?thesis by (simp add: copy_ptr_def grown_refl wf)
  next
    case (2 a w)
    obtain w' s1 where 1: "c w s = Some (w', s1)" "grown s s1" "conf s1 t w'" "view s1 t w' = view s t w"
      "\<forall>a\<in>set (refs s1 t w'). nxt s \<le> a" by (rule deepD[OF assms wf 2(3)]) blast
    obtain b s2 where al: "alloc (CVal w') s1 = (b, s2)" by force
    note g = grown_alloc[OF grown_wf[OF 1(2)] al]
    from grown_same(1)[OF grown_wf[OF 1(2)] _ 1(3), of s2] g have
      w: "conf s2 t w'" "view s2 t w' = view s t w" "refs s2 t w' = refs s1 t w'" using 1(4) by simp_all
    have "nxt s \<le> b" using g 1(2) by (simp add: grown_def)
    then show ?thesis using 1 2 al g w grown_trans[OF 1(2), of s2] by (simp add: copy_ptr_def)
  qed
qed

lemma deep_slice:
  assumes "deep t c"
  shows "deep (TSlice t) (copy_slice c)"
  unfolding deep_def
proof (intro allI impI)
  fix v s assume wf: "mem_wf s" and cv: "conf s (TSlice t) v"
  consider "v = VNil" | a off n vs where "v = VSlice a off n" "slice_of s a off n = Some vs" "list_all (conf s t) vs"
    using cv by (auto split: gval.splits option.splits)
  then show "\<exists>v' s'. copy_slice c v s = Some (v', s') \<and> grown s s' \<and> conf s' (TSlice t) v' \<and> view s' (TSlice t) v' = view s (TSlice t) v
      \<and> (\<forall>a\<in>set (refs s' (TSlice t) v'). nxt s \<le> a)"
  proof cases
    case 1
    then show ?thesis by (simp add: copy_slice_def grown_refl wf)
  next
    case (2 a off n vs)
    from copy_list_deep[OF assms wf 2(3)] obtain vs' s1 where 1: "copy_list c vs s = Some (vs', s1)" "grown s s1"
      "list_all (conf s1 t) vs'" "map (view s1 t) vs' = map (view s t) vs" "\<forall>v\<in>set vs'. \<forall>a\<in>set (refs s1 t v). nxt s \<le> a" by blast
    obtain b s2 where al: "alloc (CArr vs') s1 = (b, s2)" by force
    note g = grown_alloc[OF grown_wf[OF 1(2)] al]
    have w: "conf s2 t x \<and> view s2 t x = view s1 t x \<and> refs s2 t x = refs s1 t x" if "x \<in> set vs'" for x
      using grown_same(1)[OF grown_wf[OF 1(2)], of s2 t x] g 1(3) that by (simp add: list_all_iff)
    have "length vs = n" using 2(2) by (auto simp: slice_of_def split: option.splits cell.splits if_splits)
    then have n: "length vs' = n" using arg_cong[OF 1(4), of length] by simp
    then have sl: "slice_of s2 b 0 n = Some vs'" using g by (simp add: slice_of_def)
    have "nxt s \<le> b" using g 1(2) by (simp add: grown_def)
    moreover have "map (view s2 t) vs' = map (view s t) vs" using 1(4) w by (metis (no_types, lifting) map_eq_conv)
    moreover have "nxt s \<le> a" if "x \<in> set vs'" "a \<in> set (refs s2 t x)" for x a using 1(5) w that by auto
    ultimately show ?thesis using 1(1-3) 2(1,2) al g w sl grown_trans[OF 1(2), of s2] by (auto simp: copy_slice_def list_all_iff)
  qed
qed

lemma deep_map:
  assumes "deep t c"
  shows "deep (TMap t) (copy_map c)"
  unfolding deep_def
proof (intro allI impI)
  fix v s assume wf: "mem_wf s" and cv: "conf s (TMap t) v"
  consider "v = VNil" | a ms where "v = VMapRef a" "mem s a = Some (CMap ms)" "list_all (conf s t) (map snd ms)"
    using cv by (auto split: gval.splits option.splits cell.splits)
  then show "\<exists>v' s'. copy_map c v s = Some (v', s') \<and> grown s s' \<and> conf s' (TMap t) v' \<and> view s' (TMap t) v' = view s (TMap t) v
      \<and> (\<forall>a\<in>set (refs s' (TMap t) v'). nxt s \<le> a)"
  proof cases
    case 1
    then show ?thesis by (simp add: copy_map_def grown_refl wf)
  next
    case (2 a ms)
    from copy_list_deep[OF assms wf 2(3)] obtain vs' s1 where 1: "copy_list c (map snd ms) s = Some (vs', s1)" "grown s s1"
      "list_all (conf s1 t) vs'" "map (view s1 t) vs' = map (view s t) (map snd ms)" "\<forall>v\<in>set vs'. \<forall>a\<in>set (refs s1 t v). nxt s \<le> a" by blast
    let ?ms = "zip (map fst ms) vs'"
    obtain b s2 where al: "alloc (CMap ?ms) s1 = (b, s2)" by force
    note g = grown_alloc[OF grown_wf[OF 1(2)] al]
    have w: "conf s2 t x \<and> view s2 t x = view s1 t x \<and> refs s2 t x = refs s1 t x" if "x \<in> set vs'" for x
      using grown_same(1)[OF grown_wf[OF 1(2)], of s2 t x] g 1(3) that by (simp add: list_all_iff)
    have n: "length vs' = length ms" using arg_cong[OF 1(4), of length] by simp
    then have ms: "map fst ?ms = map fst ms" "map snd ?ms = vs'" by simp_all
    have "nxt s \<le> b" using g 1(2) by (simp add: grown_def)
    moreover have "map (view s2 t) vs' = map (view s t) (map snd ms)" using 1(4) w by (metis (no_types, lifting) map_eq_conv)
    moreover have "nxt s \<le> a" if "a \<in> set (concat (map (refs s2 t) vs'))" for a using 1(5) w that by auto
    moreover have "list_all (conf s2 t) vs'" using 1(3) w by (simp add: list_all_iff)
    ultimately show ?thesis using 1(1,2) 2(1,2) al g ms grown_trans[OF 1(2), of s2]
      by (auto simp: copy_map_def simp del: map_map set_concat)
  qed
qed

text \<open>A struct: every field is copied by a deep copier, or holds no reference.\<close>

lemma deep_members:
  assumes "\<And>n t. (n, t) \<in> set ts \<Longrightarrow> deep t (case cs n of None \<Rightarrow> copy_assign | Some c \<Rightarrow> c)"
  shows "mem_wf s \<Longrightarrow> conf_fields s ts fs \<Longrightarrow>
    \<exists>fs' s'. copy_members cs fs s = Some (fs', s') \<and> grown s s' \<and> conf_fields s' ts fs' \<and> view_fields s' ts fs' = view_fields s ts fs
      \<and> (\<forall>a\<in>set (refs_fields s' ts fs'). nxt s \<le> a)"
  using assms
proof (induction ts arbitrary: fs s)
  case Nil
  then show ?case by (simp add: grown_refl)
next
  case (Cons nt ts)
  obtain n t where nt: "nt = (n, t)" by force
  obtain v fs1 where fs: "fs = (n, v) # fs1" "conf s t v" "conf_fields s ts fs1"
    using Cons.prems(2) nt by (auto split: list.splits)
  let ?c = "case cs n of None \<Rightarrow> copy_assign | Some c \<Rightarrow> c"
  have d: "deep t ?c" using Cons.prems(3) nt by simp
  obtain v' s1 where 1: "?c v s = Some (v', s1)" "grown s s1" "conf s1 t v'" "view s1 t v' = view s t v"
    "\<forall>a\<in>set (refs s1 t v'). nxt s \<le> a" by (rule deepD[OF d Cons.prems(1) fs(2)]) blast
  note same = grown_same(2)[OF Cons.prems(1) 1(2) fs(3)]
  from Cons.IH[OF grown_wf[OF 1(2)], of fs1] same Cons.prems(3) obtain fs' s2 where
    2: "copy_members cs fs1 s1 = Some (fs', s2)" "grown s1 s2" "conf_fields s2 ts fs'" "view_fields s2 ts fs' = view_fields s1 ts fs1"
      "\<forall>a\<in>set (refs_fields s2 ts fs'). nxt s1 \<le> a" by auto
  note v' = grown_same(1)[OF grown_wf[OF 1(2)] 2(2) 1(3)]
  have "(case cs n of None \<Rightarrow> Some (v, s) | Some c \<Rightarrow> c v s) = Some (v', s1)"
    using 1(1) by (auto simp: copy_assign_def split: option.splits)
  then have "copy_members cs fs s = Some ((n, v') # fs', s2)" using 2(1) fs(1) by simp
  moreover have "nxt s \<le> nxt s1" using 1(2) by (simp add: grown_def)
  then have "\<forall>a\<in>set (refs_fields s2 (nt # ts) ((n, v') # fs')). nxt s \<le> a" using 1(5) 2(5) v' by (auto simp: nt intro: order_trans)
  ultimately show ?case using grown_trans[OF 1(2) 2(2)] v' 2(3,4) same 1(4) fs(1)
    by (intro exI[of _ "(n, v') # fs'"] exI[of _ s2]) (simp add: nt)
qed

lemma deep_struct:
  assumes "list_all (\<lambda>(n, t). deep t (case map_of cs n of None \<Rightarrow> copy_assign | Some c \<Rightarrow> c)) ts"
  shows "deep (TStruct ts) (copy_fields cs)"
  unfolding deep_def
proof (intro allI impI)
  fix v s assume wf: "mem_wf s" and cv: "conf s (TStruct ts) v"
  then obtain fs where fs: "v = VStruct fs" "conf_fields s ts fs" by (auto split: gval.splits)
  have "\<And>n t. (n, t) \<in> set ts \<Longrightarrow> deep t (case map_of cs n of None \<Rightarrow> copy_assign | Some c \<Rightarrow> c)"
    using assms by (auto simp: list_all_iff)
  from deep_members[OF this wf fs(2)] fs(1)
  show "\<exists>v' s'. copy_fields cs v s = Some (v', s') \<and> grown s s' \<and> conf s' (TStruct ts) v' \<and> view s' (TStruct ts) v' = view s (TStruct ts) v
      \<and> (\<forall>a\<in>set (refs s' (TStruct ts) v'). nxt s \<le> a)"
    by (fastforce simp: copy_fields_def)
qed

text \<open>What a deep copy is for: whatever is written through the copy, the original keeps its value, and the other way round.\<close>

lemma deep_independent:
  assumes "deep t c" "mem_wf s" "conf s t v"
  shows "\<exists>v' s'. c v s = Some (v', s') \<and> conf s' t v' \<and> view s' t v' = view s t v \<and> view s' t v = view s t v
    \<and> (\<forall>a\<in>set (refs s' t v'). \<forall>x. view (s'\<lparr>mem := (mem s')(a := x)\<rparr>) t v = view s t v)
    \<and> (\<forall>a\<in>set (refs s' t v). \<forall>x. view (s'\<lparr>mem := (mem s')(a := x)\<rparr>) t v' = view s t v)"
proof -
  obtain v' s' where c: "c v s = Some (v', s')" "grown s s'" "conf s' t v'" "view s' t v' = view s t v"
    "\<forall>a\<in>set (refs s' t v'). nxt s \<le> a" by (rule deepD[OF assms]) blast
  note same = grown_same(1)[OF assms(2) c(2) assms(3)]
  have old: "\<forall>a\<in>set (refs s' t v). a < nxt s"
    using conf_refs(1)[OF assms(3)] assms(2) same by (auto simp: mem_wf_def)
  have "view (s'\<lparr>mem := (mem s')(a := x)\<rparr>) t v = view s t v" if "a \<in> set (refs s' t v')" for a x
    using agree(1)[of s' t v "s'\<lparr>mem := (mem s')(a := x)\<rparr>"] old c(5) that same by fastforce
  moreover have "view (s'\<lparr>mem := (mem s')(a := x)\<rparr>) t v' = view s t v" if "a \<in> set (refs s' t v)" for a x
    using agree(1)[of s' t v' "s'\<lparr>mem := (mem s')(a := x)\<rparr>"] old c(4,5) that by fastforce
  ultimately show ?thesis using c same by blast
qed

end
