(* ===== verification/DeepCopy.thy ===== *)
theory DeepCopy
  imports GoMemory
begin

text \<open>
  \<open>api/v1alpha1/zz_generated.deepcopy.go\<close>: the deep copies of the custom resources, which the client libraries use to hand out
  objects of their caches. Each type of \<open>api/v1alpha1\<close> is described by its fields, and each \<open>DeepCopyInto\<close> by what it
  does to them. The theorems say that the two files fit: no field with a reference is merely assigned.

  Types of other modules are opaque; their own \<open>DeepCopyInto\<close> (\<open>DeepCopy\<close> for \<open>JSON\<close>) is the argument \<open>ext\<close>, by the name of the type.
  \<open>TypeMeta\<close> is two strings.
\<close>

section \<open>The types\<close>

definition TypeMeta_t :: gtyp where
  "TypeMeta_t = TStruct [(''Kind'', TString), (''APIVersion'', TString)]"

definition InputSpec_t :: gtyp where
  "InputSpec_t = TStruct [(''Type'', TString), (''BatchLen'', TInt), (''Config'', TMap (TExt ''JSON''))]"

definition TransformSpec_t :: gtyp where
  "TransformSpec_t = TStruct [(''Type'', TString), (''BatchLen'', TInt), (''Config'', TMap (TExt ''JSON''))]"

definition OutputSpec_t :: gtyp where
  "OutputSpec_t = TStruct
     [(''Type'', TString), (''BatchLen'', TInt), (''BatchSize'', TInt), (''BatchInterval'', TInt),
      (''Config'', TMap (TExt ''JSON''))]"

definition CleanSpec_t :: gtyp where
  "CleanSpec_t = TStruct
     [(''Strategy'', TString), (''RetainDays'', TInt), (''Interval'', TInt), (''ReserveFileNumber'', TInt),
      (''ReserveFileSize'', TInt)]"

definition ContainerPolicy_t :: gtyp where
  "ContainerPolicy_t = TStruct
     [(''Name'', TString), (''LogType'', TString), (''Path'', TString), (''Collector'', TString),
      (''Delivery'', TString), (''BatchLen'', TInt), (''BatchSize'', TInt), (''BatchInterval'', TInt),
      (''Input'', InputSpec_t), (''Transforms'', TSlice TransformSpec_t), (''Output'', OutputSpec_t),
      (''Clean'', CleanSpec_t)]"

definition LogPilotPolicySpec_t :: gtyp where
  "LogPilotPolicySpec_t = TStruct
     [(''Selector'', TPtr (TExt ''LabelSelector'')), (''Containers'', TSlice ContainerPolicy_t),
      (''Input'', TPtr InputSpec_t), (''Transforms'', TSlice TransformSpec_t), (''Output'', TPtr OutputSpec_t)]"

definition LogPilotPolicyStatus_t :: gtyp where
  "LogPilotPolicyStatus_t = TStruct [(''Conditions'', TSlice (TExt ''Condition''))]"

definition LogPilotPolicy_t :: gtyp where
  "LogPilotPolicy_t = TStruct
     [(''TypeMeta'', TypeMeta_t), (''ObjectMeta'', TExt ''ObjectMeta''), (''Spec'', LogPilotPolicySpec_t),
      (''Status'', LogPilotPolicyStatus_t)]"

definition LogPilotPolicyList_t :: gtyp where
  "LogPilotPolicyList_t = TStruct
     [(''TypeMeta'', TypeMeta_t), (''ListMeta'', TExt ''ListMeta''), (''Items'', TSlice LogPilotPolicy_t)]"

definition ClusterLogPilotPolicySpec_t :: gtyp where
  "ClusterLogPilotPolicySpec_t = TStruct
     [(''Input'', InputSpec_t), (''Transforms'', TSlice TransformSpec_t), (''Output'', OutputSpec_t)]"

definition ClusterLogPilotPolicyStatus_t :: gtyp where
  "ClusterLogPilotPolicyStatus_t = TStruct [(''Conditions'', TSlice (TExt ''Condition''))]"

definition ClusterLogPilotPolicy_t :: gtyp where
  "ClusterLogPilotPolicy_t = TStruct
     [(''TypeMeta'', TypeMeta_t), (''ObjectMeta'', TExt ''ObjectMeta''), (''Spec'', ClusterLogPilotPolicySpec_t),
      (''Status'', ClusterLogPilotPolicyStatus_t)]"

definition ClusterLogPilotPolicyList_t :: gtyp where
  "ClusterLogPilotPolicyList_t = TStruct
     [(''TypeMeta'', TypeMeta_t), (''ListMeta'', TExt ''ListMeta''),
      (''Items'', TSlice ClusterLogPilotPolicy_t)]"

definition AgentSelfLogSpec_t :: gtyp where
  "AgentSelfLogSpec_t = TStruct [(''Dir'', TString), (''ReserveCount'', TInt)]"

definition AgentSpec_t :: gtyp where
  "AgentSpec_t = TStruct
     [(''ConfigDir'', TString), (''MetaDir'', TString), (''LogDir'', TString), (''SelfLog'', AgentSelfLogSpec_t),
      (''Resources'', TExt ''ResourceRequirements'')]"

definition APISpec_t :: gtyp where
  "APISpec_t = TStruct [(''Replicas'', TInt), (''Resources'', TExt ''ResourceRequirements'')]"

definition LogPilotSpec_t :: gtyp where
  "LogPilotSpec_t = TStruct [(''Agent'', AgentSpec_t), (''API'', APISpec_t)]"

definition LogPilotStatus_t :: gtyp where
  "LogPilotStatus_t = TStruct [(''Conditions'', TSlice (TExt ''Condition''))]"

definition LogPilot_t :: gtyp where
  "LogPilot_t = TStruct
     [(''TypeMeta'', TypeMeta_t), (''ObjectMeta'', TExt ''ObjectMeta''), (''Spec'', LogPilotSpec_t),
      (''Status'', LogPilotStatus_t)]"

definition LogPilotList_t :: gtyp where
  "LogPilotList_t = TStruct
     [(''TypeMeta'', TypeMeta_t), (''ListMeta'', TExt ''ListMeta''), (''Items'', TSlice LogPilot_t)]"

section \<open>The copies\<close>

definition InputSpec_DeepCopyInto :: "(string \<Rightarrow> copier) \<Rightarrow> copier" where
  "InputSpec_DeepCopyInto ext = copy_fields [(''Config'', copy_map (ext ''JSON''))]"

definition TransformSpec_DeepCopyInto :: "(string \<Rightarrow> copier) \<Rightarrow> copier" where
  "TransformSpec_DeepCopyInto ext = copy_fields [(''Config'', copy_map (ext ''JSON''))]"

definition OutputSpec_DeepCopyInto :: "(string \<Rightarrow> copier) \<Rightarrow> copier" where
  "OutputSpec_DeepCopyInto ext = copy_fields [(''Config'', copy_map (ext ''JSON''))]"

definition CleanSpec_DeepCopyInto :: "(string \<Rightarrow> copier) \<Rightarrow> copier" where
  "CleanSpec_DeepCopyInto ext = copy_assign"

definition ContainerPolicy_DeepCopyInto :: "(string \<Rightarrow> copier) \<Rightarrow> copier" where
  "ContainerPolicy_DeepCopyInto ext = copy_fields
     [(''Input'', InputSpec_DeepCopyInto ext), (''Transforms'', copy_slice (TransformSpec_DeepCopyInto ext)),
      (''Output'', OutputSpec_DeepCopyInto ext), (''Clean'', copy_assign)]"

definition LogPilotPolicySpec_DeepCopyInto :: "(string \<Rightarrow> copier) \<Rightarrow> copier" where
  "LogPilotPolicySpec_DeepCopyInto ext = copy_fields
     [(''Selector'', copy_ptr (ext ''LabelSelector'')),
      (''Containers'', copy_slice (ContainerPolicy_DeepCopyInto ext)),
      (''Input'', copy_ptr (InputSpec_DeepCopyInto ext)),
      (''Transforms'', copy_slice (TransformSpec_DeepCopyInto ext)),
      (''Output'', copy_ptr (OutputSpec_DeepCopyInto ext))]"

definition LogPilotPolicyStatus_DeepCopyInto :: "(string \<Rightarrow> copier) \<Rightarrow> copier" where
  "LogPilotPolicyStatus_DeepCopyInto ext = copy_fields [(''Conditions'', copy_slice (ext ''Condition''))]"

definition LogPilotPolicy_DeepCopyInto :: "(string \<Rightarrow> copier) \<Rightarrow> copier" where
  "LogPilotPolicy_DeepCopyInto ext = copy_fields
     [(''TypeMeta'', copy_assign), (''ObjectMeta'', ext ''ObjectMeta''),
      (''Spec'', LogPilotPolicySpec_DeepCopyInto ext), (''Status'', LogPilotPolicyStatus_DeepCopyInto ext)]"

definition LogPilotPolicyList_DeepCopyInto :: "(string \<Rightarrow> copier) \<Rightarrow> copier" where
  "LogPilotPolicyList_DeepCopyInto ext = copy_fields
     [(''TypeMeta'', copy_assign), (''ListMeta'', ext ''ListMeta''),
      (''Items'', copy_slice (LogPilotPolicy_DeepCopyInto ext))]"

definition ClusterLogPilotPolicySpec_DeepCopyInto :: "(string \<Rightarrow> copier) \<Rightarrow> copier" where
  "ClusterLogPilotPolicySpec_DeepCopyInto ext = copy_fields
     [(''Input'', InputSpec_DeepCopyInto ext), (''Transforms'', copy_slice (TransformSpec_DeepCopyInto ext)),
      (''Output'', OutputSpec_DeepCopyInto ext)]"

definition ClusterLogPilotPolicyStatus_DeepCopyInto :: "(string \<Rightarrow> copier) \<Rightarrow> copier" where
  "ClusterLogPilotPolicyStatus_DeepCopyInto ext = copy_fields [(''Conditions'', copy_slice (ext ''Condition''))]"

definition ClusterLogPilotPolicy_DeepCopyInto :: "(string \<Rightarrow> copier) \<Rightarrow> copier" where
  "ClusterLogPilotPolicy_DeepCopyInto ext = copy_fields
     [(''TypeMeta'', copy_assign), (''ObjectMeta'', ext ''ObjectMeta''),
      (''Spec'', ClusterLogPilotPolicySpec_DeepCopyInto ext),
      (''Status'', ClusterLogPilotPolicyStatus_DeepCopyInto ext)]"

definition ClusterLogPilotPolicyList_DeepCopyInto :: "(string \<Rightarrow> copier) \<Rightarrow> copier" where
  "ClusterLogPilotPolicyList_DeepCopyInto ext = copy_fields
     [(''TypeMeta'', copy_assign), (''ListMeta'', ext ''ListMeta''),
      (''Items'', copy_slice (ClusterLogPilotPolicy_DeepCopyInto ext))]"

definition AgentSelfLogSpec_DeepCopyInto :: "(string \<Rightarrow> copier) \<Rightarrow> copier" where
  "AgentSelfLogSpec_DeepCopyInto ext = copy_assign"

definition AgentSpec_DeepCopyInto :: "(string \<Rightarrow> copier) \<Rightarrow> copier" where
  "AgentSpec_DeepCopyInto ext = copy_fields [(''SelfLog'', copy_assign), (''Resources'', ext ''ResourceRequirements'')]"

definition APISpec_DeepCopyInto :: "(string \<Rightarrow> copier) \<Rightarrow> copier" where
  "APISpec_DeepCopyInto ext = copy_fields [(''Resources'', ext ''ResourceRequirements'')]"

definition LogPilotSpec_DeepCopyInto :: "(string \<Rightarrow> copier) \<Rightarrow> copier" where
  "LogPilotSpec_DeepCopyInto ext = copy_fields
     [(''Agent'', AgentSpec_DeepCopyInto ext), (''API'', APISpec_DeepCopyInto ext)]"

definition LogPilotStatus_DeepCopyInto :: "(string \<Rightarrow> copier) \<Rightarrow> copier" where
  "LogPilotStatus_DeepCopyInto ext = copy_fields [(''Conditions'', copy_slice (ext ''Condition''))]"

definition LogPilot_DeepCopyInto :: "(string \<Rightarrow> copier) \<Rightarrow> copier" where
  "LogPilot_DeepCopyInto ext = copy_fields
     [(''TypeMeta'', copy_assign), (''ObjectMeta'', ext ''ObjectMeta''),
      (''Spec'', LogPilotSpec_DeepCopyInto ext), (''Status'', LogPilotStatus_DeepCopyInto ext)]"

definition LogPilotList_DeepCopyInto :: "(string \<Rightarrow> copier) \<Rightarrow> copier" where
  "LogPilotList_DeepCopyInto ext = copy_fields
     [(''TypeMeta'', copy_assign), (''ListMeta'', ext ''ListMeta''),
      (''Items'', copy_slice (LogPilot_DeepCopyInto ext))]"

text \<open>\<open>DeepCopy\<close>: nil for nil, else a new variable with the copy. \<open>DeepCopyObject\<close> is the same value as an interface, nil for nil.\<close>

definition InputSpec_DeepCopy :: "(string \<Rightarrow> copier) \<Rightarrow> copier" where
  "InputSpec_DeepCopy ext = copy_ptr (InputSpec_DeepCopyInto ext)"

definition TransformSpec_DeepCopy :: "(string \<Rightarrow> copier) \<Rightarrow> copier" where
  "TransformSpec_DeepCopy ext = copy_ptr (TransformSpec_DeepCopyInto ext)"

definition OutputSpec_DeepCopy :: "(string \<Rightarrow> copier) \<Rightarrow> copier" where
  "OutputSpec_DeepCopy ext = copy_ptr (OutputSpec_DeepCopyInto ext)"

definition CleanSpec_DeepCopy :: "(string \<Rightarrow> copier) \<Rightarrow> copier" where
  "CleanSpec_DeepCopy ext = copy_ptr (CleanSpec_DeepCopyInto ext)"

definition ContainerPolicy_DeepCopy :: "(string \<Rightarrow> copier) \<Rightarrow> copier" where
  "ContainerPolicy_DeepCopy ext = copy_ptr (ContainerPolicy_DeepCopyInto ext)"

definition LogPilotPolicySpec_DeepCopy :: "(string \<Rightarrow> copier) \<Rightarrow> copier" where
  "LogPilotPolicySpec_DeepCopy ext = copy_ptr (LogPilotPolicySpec_DeepCopyInto ext)"

definition LogPilotPolicyStatus_DeepCopy :: "(string \<Rightarrow> copier) \<Rightarrow> copier" where
  "LogPilotPolicyStatus_DeepCopy ext = copy_ptr (LogPilotPolicyStatus_DeepCopyInto ext)"

definition LogPilotPolicy_DeepCopy :: "(string \<Rightarrow> copier) \<Rightarrow> copier" where
  "LogPilotPolicy_DeepCopy ext = copy_ptr (LogPilotPolicy_DeepCopyInto ext)"

definition LogPilotPolicyList_DeepCopy :: "(string \<Rightarrow> copier) \<Rightarrow> copier" where
  "LogPilotPolicyList_DeepCopy ext = copy_ptr (LogPilotPolicyList_DeepCopyInto ext)"

definition ClusterLogPilotPolicySpec_DeepCopy :: "(string \<Rightarrow> copier) \<Rightarrow> copier" where
  "ClusterLogPilotPolicySpec_DeepCopy ext = copy_ptr (ClusterLogPilotPolicySpec_DeepCopyInto ext)"

definition ClusterLogPilotPolicyStatus_DeepCopy :: "(string \<Rightarrow> copier) \<Rightarrow> copier" where
  "ClusterLogPilotPolicyStatus_DeepCopy ext = copy_ptr (ClusterLogPilotPolicyStatus_DeepCopyInto ext)"

definition ClusterLogPilotPolicy_DeepCopy :: "(string \<Rightarrow> copier) \<Rightarrow> copier" where
  "ClusterLogPilotPolicy_DeepCopy ext = copy_ptr (ClusterLogPilotPolicy_DeepCopyInto ext)"

definition ClusterLogPilotPolicyList_DeepCopy :: "(string \<Rightarrow> copier) \<Rightarrow> copier" where
  "ClusterLogPilotPolicyList_DeepCopy ext = copy_ptr (ClusterLogPilotPolicyList_DeepCopyInto ext)"

definition AgentSelfLogSpec_DeepCopy :: "(string \<Rightarrow> copier) \<Rightarrow> copier" where
  "AgentSelfLogSpec_DeepCopy ext = copy_ptr (AgentSelfLogSpec_DeepCopyInto ext)"

definition AgentSpec_DeepCopy :: "(string \<Rightarrow> copier) \<Rightarrow> copier" where
  "AgentSpec_DeepCopy ext = copy_ptr (AgentSpec_DeepCopyInto ext)"

definition APISpec_DeepCopy :: "(string \<Rightarrow> copier) \<Rightarrow> copier" where
  "APISpec_DeepCopy ext = copy_ptr (APISpec_DeepCopyInto ext)"

definition LogPilotSpec_DeepCopy :: "(string \<Rightarrow> copier) \<Rightarrow> copier" where
  "LogPilotSpec_DeepCopy ext = copy_ptr (LogPilotSpec_DeepCopyInto ext)"

definition LogPilotStatus_DeepCopy :: "(string \<Rightarrow> copier) \<Rightarrow> copier" where
  "LogPilotStatus_DeepCopy ext = copy_ptr (LogPilotStatus_DeepCopyInto ext)"

definition LogPilot_DeepCopy :: "(string \<Rightarrow> copier) \<Rightarrow> copier" where
  "LogPilot_DeepCopy ext = copy_ptr (LogPilot_DeepCopyInto ext)"

definition LogPilotList_DeepCopy :: "(string \<Rightarrow> copier) \<Rightarrow> copier" where
  "LogPilotList_DeepCopy ext = copy_ptr (LogPilotList_DeepCopyInto ext)"

definition LogPilotPolicy_DeepCopyObject :: "(string \<Rightarrow> copier) \<Rightarrow> copier" where
  "LogPilotPolicy_DeepCopyObject ext v s =
     (case LogPilotPolicy_DeepCopy ext v s of None \<Rightarrow> None | Some (c, s') \<Rightarrow> Some (if c \<noteq> VNil then c else VNil, s'))"

definition LogPilotPolicyList_DeepCopyObject :: "(string \<Rightarrow> copier) \<Rightarrow> copier" where
  "LogPilotPolicyList_DeepCopyObject ext v s =
     (case LogPilotPolicyList_DeepCopy ext v s of None \<Rightarrow> None | Some (c, s') \<Rightarrow> Some (if c \<noteq> VNil then c else VNil, s'))"

definition ClusterLogPilotPolicy_DeepCopyObject :: "(string \<Rightarrow> copier) \<Rightarrow> copier" where
  "ClusterLogPilotPolicy_DeepCopyObject ext v s =
     (case ClusterLogPilotPolicy_DeepCopy ext v s of None \<Rightarrow> None | Some (c, s') \<Rightarrow> Some (if c \<noteq> VNil then c else VNil, s'))"

definition ClusterLogPilotPolicyList_DeepCopyObject :: "(string \<Rightarrow> copier) \<Rightarrow> copier" where
  "ClusterLogPilotPolicyList_DeepCopyObject ext v s =
     (case ClusterLogPilotPolicyList_DeepCopy ext v s of None \<Rightarrow> None | Some (c, s') \<Rightarrow> Some (if c \<noteq> VNil then c else VNil, s'))"

definition LogPilot_DeepCopyObject :: "(string \<Rightarrow> copier) \<Rightarrow> copier" where
  "LogPilot_DeepCopyObject ext v s =
     (case LogPilot_DeepCopy ext v s of None \<Rightarrow> None | Some (c, s') \<Rightarrow> Some (if c \<noteq> VNil then c else VNil, s'))"

definition LogPilotList_DeepCopyObject :: "(string \<Rightarrow> copier) \<Rightarrow> copier" where
  "LogPilotList_DeepCopyObject ext v s =
     (case LogPilotList_DeepCopy ext v s of None \<Rightarrow> None | Some (c, s') \<Rightarrow> Some (if c \<noteq> VNil then c else VNil, s'))"

section \<open>The scheme\<close>

text \<open>
  The types each \<open>init\<close> registers: the kind (the name of the Go type), the type and its \<open>DeepCopyObject\<close>, which makes it
  an object of the client libraries.
\<close>

definition SchemeGroupVersion :: "string \<times> string" where
  "SchemeGroupVersion = (''logpilot.logpilot.jimyag.com'', ''v1alpha1'')"

type_synonym registered = "string \<times> gtyp \<times> ((string \<Rightarrow> copier) \<Rightarrow> copier)"

definition init_ClusterLogPilotPolicy :: "registered list" where
  "init_ClusterLogPilotPolicy =
     [(''ClusterLogPilotPolicy'', ClusterLogPilotPolicy_t, ClusterLogPilotPolicy_DeepCopyObject),
      (''ClusterLogPilotPolicyList'', ClusterLogPilotPolicyList_t, ClusterLogPilotPolicyList_DeepCopyObject)]"

definition init_LogPilot :: "registered list" where
  "init_LogPilot =
     [(''LogPilot'', LogPilot_t, LogPilot_DeepCopyObject), (''LogPilotList'', LogPilotList_t, LogPilotList_DeepCopyObject)]"

definition init_LogPilotPolicy :: "registered list" where
  "init_LogPilotPolicy =
     [(''LogPilotPolicy'', LogPilotPolicy_t, LogPilotPolicy_DeepCopyObject),
      (''LogPilotPolicyList'', LogPilotPolicyList_t, LogPilotPolicyList_DeepCopyObject)]"

definition AddToScheme :: "((string \<times> string) \<times> registered) list" where
  "AddToScheme = map (\<lambda>r. (SchemeGroupVersion, r)) (init_ClusterLogPilotPolicy @ init_LogPilot @ init_LogPilotPolicy)"

lemma AddToScheme_kinds: "distinct (map (fst \<circ> snd) AddToScheme)"
  by (simp add: AddToScheme_def init_ClusterLogPilotPolicy_def init_LogPilot_def init_LogPilotPolicy_def)

section \<open>Every copy is deep\<close>

text \<open>What the code relies on: the copies of the types of other modules are deep.\<close>

definition ext_deep :: "(string \<Rightarrow> copier) \<Rightarrow> bool" where
  "ext_deep ext = list_all (\<lambda>n. deep (TExt n) (ext n))
     [''JSON'', ''LabelSelector'', ''Condition'', ''ObjectMeta'', ''ListMeta'', ''ResourceRequirements'']"

lemma ext_deepD:
  assumes "ext_deep ext"
  shows "deep (TExt ''JSON'') (ext ''JSON'')" "deep (TExt ''LabelSelector'') (ext ''LabelSelector'')" "deep (TExt ''Condition'') (ext ''Condition'')"
    "deep (TExt ''ObjectMeta'') (ext ''ObjectMeta'')" "deep (TExt ''ListMeta'') (ext ''ListMeta'')"
    "deep (TExt ''ResourceRequirements'') (ext ''ResourceRequirements'')"
  using assms by (simp_all add: ext_deep_def)

lemma TypeMeta_flat: "flat TypeMeta_t"
  by (simp add: TypeMeta_t_def)

lemma Clean_flat: "flat CleanSpec_t"
  by (simp add: CleanSpec_t_def)

lemma SelfLog_flat: "flat AgentSelfLogSpec_t"
  by (simp add: AgentSelfLogSpec_t_def)

lemma InputSpec_deep: "ext_deep ext \<Longrightarrow> deep InputSpec_t (InputSpec_DeepCopyInto ext)"
  unfolding InputSpec_t_def InputSpec_DeepCopyInto_def
  by (rule deep_struct) (simp add: deep_assign deep_map ext_deepD)

lemma TransformSpec_deep: "ext_deep ext \<Longrightarrow> deep TransformSpec_t (TransformSpec_DeepCopyInto ext)"
  unfolding TransformSpec_t_def TransformSpec_DeepCopyInto_def
  by (rule deep_struct) (simp add: deep_assign deep_map ext_deepD)

lemma OutputSpec_deep: "ext_deep ext \<Longrightarrow> deep OutputSpec_t (OutputSpec_DeepCopyInto ext)"
  unfolding OutputSpec_t_def OutputSpec_DeepCopyInto_def
  by (rule deep_struct) (simp add: deep_assign deep_map ext_deepD)

lemma CleanSpec_deep: "ext_deep ext \<Longrightarrow> deep CleanSpec_t (CleanSpec_DeepCopyInto ext)"
  by (simp add: CleanSpec_DeepCopyInto_def deep_assign Clean_flat)

lemma ContainerPolicy_deep: "ext_deep ext \<Longrightarrow> deep ContainerPolicy_t (ContainerPolicy_DeepCopyInto ext)"
  unfolding ContainerPolicy_t_def ContainerPolicy_DeepCopyInto_def
  by (rule deep_struct) (simp add: deep_assign deep_slice InputSpec_deep TransformSpec_deep OutputSpec_deep Clean_flat)

lemma LogPilotPolicySpec_deep: "ext_deep ext \<Longrightarrow> deep LogPilotPolicySpec_t (LogPilotPolicySpec_DeepCopyInto ext)"
  unfolding LogPilotPolicySpec_t_def LogPilotPolicySpec_DeepCopyInto_def
  by (rule deep_struct) (simp add: deep_ptr deep_slice ContainerPolicy_deep InputSpec_deep TransformSpec_deep OutputSpec_deep ext_deepD)

lemma LogPilotPolicyStatus_deep:
  "ext_deep ext \<Longrightarrow> deep LogPilotPolicyStatus_t (LogPilotPolicyStatus_DeepCopyInto ext)"
  unfolding LogPilotPolicyStatus_t_def LogPilotPolicyStatus_DeepCopyInto_def
  by (rule deep_struct) (simp add: deep_slice ext_deepD)

lemma LogPilotPolicy_deep: "ext_deep ext \<Longrightarrow> deep LogPilotPolicy_t (LogPilotPolicy_DeepCopyInto ext)"
  unfolding LogPilotPolicy_t_def LogPilotPolicy_DeepCopyInto_def
  by (rule deep_struct) (simp add: deep_assign LogPilotPolicySpec_deep LogPilotPolicyStatus_deep TypeMeta_flat ext_deepD)

lemma LogPilotPolicyList_deep: "ext_deep ext \<Longrightarrow> deep LogPilotPolicyList_t (LogPilotPolicyList_DeepCopyInto ext)"
  unfolding LogPilotPolicyList_t_def LogPilotPolicyList_DeepCopyInto_def
  by (rule deep_struct) (simp add: deep_assign deep_slice LogPilotPolicy_deep TypeMeta_flat ext_deepD)

lemma ClusterLogPilotPolicySpec_deep:
  "ext_deep ext \<Longrightarrow> deep ClusterLogPilotPolicySpec_t (ClusterLogPilotPolicySpec_DeepCopyInto ext)"
  unfolding ClusterLogPilotPolicySpec_t_def ClusterLogPilotPolicySpec_DeepCopyInto_def
  by (rule deep_struct) (simp add: deep_slice InputSpec_deep TransformSpec_deep OutputSpec_deep)

lemma ClusterLogPilotPolicyStatus_deep:
  "ext_deep ext \<Longrightarrow> deep ClusterLogPilotPolicyStatus_t (ClusterLogPilotPolicyStatus_DeepCopyInto ext)"
  unfolding ClusterLogPilotPolicyStatus_t_def ClusterLogPilotPolicyStatus_DeepCopyInto_def
  by (rule deep_struct) (simp add: deep_slice ext_deepD)

lemma ClusterLogPilotPolicy_deep:
  "ext_deep ext \<Longrightarrow> deep ClusterLogPilotPolicy_t (ClusterLogPilotPolicy_DeepCopyInto ext)"
  unfolding ClusterLogPilotPolicy_t_def ClusterLogPilotPolicy_DeepCopyInto_def
  by (rule deep_struct) (simp add: deep_assign ClusterLogPilotPolicySpec_deep ClusterLogPilotPolicyStatus_deep TypeMeta_flat ext_deepD)

lemma ClusterLogPilotPolicyList_deep:
  "ext_deep ext \<Longrightarrow> deep ClusterLogPilotPolicyList_t (ClusterLogPilotPolicyList_DeepCopyInto ext)"
  unfolding ClusterLogPilotPolicyList_t_def ClusterLogPilotPolicyList_DeepCopyInto_def
  by (rule deep_struct) (simp add: deep_assign deep_slice ClusterLogPilotPolicy_deep TypeMeta_flat ext_deepD)

lemma AgentSelfLogSpec_deep: "ext_deep ext \<Longrightarrow> deep AgentSelfLogSpec_t (AgentSelfLogSpec_DeepCopyInto ext)"
  by (simp add: AgentSelfLogSpec_DeepCopyInto_def deep_assign SelfLog_flat)

lemma AgentSpec_deep: "ext_deep ext \<Longrightarrow> deep AgentSpec_t (AgentSpec_DeepCopyInto ext)"
  unfolding AgentSpec_t_def AgentSpec_DeepCopyInto_def
  by (rule deep_struct) (simp add: deep_assign SelfLog_flat ext_deepD)

lemma APISpec_deep: "ext_deep ext \<Longrightarrow> deep APISpec_t (APISpec_DeepCopyInto ext)"
  unfolding APISpec_t_def APISpec_DeepCopyInto_def
  by (rule deep_struct) (simp add: deep_assign ext_deepD)

lemma LogPilotSpec_deep: "ext_deep ext \<Longrightarrow> deep LogPilotSpec_t (LogPilotSpec_DeepCopyInto ext)"
  unfolding LogPilotSpec_t_def LogPilotSpec_DeepCopyInto_def
  by (rule deep_struct) (simp add: AgentSpec_deep APISpec_deep)

lemma LogPilotStatus_deep: "ext_deep ext \<Longrightarrow> deep LogPilotStatus_t (LogPilotStatus_DeepCopyInto ext)"
  unfolding LogPilotStatus_t_def LogPilotStatus_DeepCopyInto_def
  by (rule deep_struct) (simp add: deep_slice ext_deepD)

lemma LogPilot_deep: "ext_deep ext \<Longrightarrow> deep LogPilot_t (LogPilot_DeepCopyInto ext)"
  unfolding LogPilot_t_def LogPilot_DeepCopyInto_def
  by (rule deep_struct) (simp add: deep_assign LogPilotSpec_deep LogPilotStatus_deep TypeMeta_flat ext_deepD)

lemma LogPilotList_deep: "ext_deep ext \<Longrightarrow> deep LogPilotList_t (LogPilotList_DeepCopyInto ext)"
  unfolding LogPilotList_t_def LogPilotList_DeepCopyInto_def
  by (rule deep_struct) (simp add: deep_assign deep_slice LogPilot_deep TypeMeta_flat ext_deepD)

text \<open>The copies of the pointers, and the objects of the scheme.\<close>

lemma DeepCopyObject_is_copy:
  "LogPilotPolicy_DeepCopyObject ext = copy_ptr (LogPilotPolicy_DeepCopyInto ext)"
  "LogPilotPolicyList_DeepCopyObject ext = copy_ptr (LogPilotPolicyList_DeepCopyInto ext)"
  "ClusterLogPilotPolicy_DeepCopyObject ext = copy_ptr (ClusterLogPilotPolicy_DeepCopyInto ext)"
  "ClusterLogPilotPolicyList_DeepCopyObject ext = copy_ptr (ClusterLogPilotPolicyList_DeepCopyInto ext)"
  "LogPilot_DeepCopyObject ext = copy_ptr (LogPilot_DeepCopyInto ext)"
  "LogPilotList_DeepCopyObject ext = copy_ptr (LogPilotList_DeepCopyInto ext)"
  by (simp_all add: fun_eq_iff LogPilotPolicy_DeepCopyObject_def LogPilotPolicyList_DeepCopyObject_def
    ClusterLogPilotPolicy_DeepCopyObject_def ClusterLogPilotPolicyList_DeepCopyObject_def LogPilot_DeepCopyObject_def
    LogPilotList_DeepCopyObject_def LogPilotPolicy_DeepCopy_def LogPilotPolicyList_DeepCopy_def
    ClusterLogPilotPolicy_DeepCopy_def ClusterLogPilotPolicyList_DeepCopy_def LogPilot_DeepCopy_def LogPilotList_DeepCopy_def
    split: option.split)

lemma scheme_deep:
  assumes "ext_deep ext" "(gv, k, t, c) \<in> set AddToScheme"
  shows "deep (TPtr t) (c ext)"
  using assms(2) deep_ptr LogPilotPolicy_deep[OF assms(1)] LogPilotPolicyList_deep[OF assms(1)] ClusterLogPilotPolicy_deep[OF assms(1)]
    ClusterLogPilotPolicyList_deep[OF assms(1)] LogPilot_deep[OF assms(1)] LogPilotList_deep[OF assms(1)]
  unfolding AddToScheme_def init_ClusterLogPilotPolicy_def init_LogPilot_def init_LogPilotPolicy_def
  by (auto simp: DeepCopyObject_is_copy)

text \<open>The hypothesis can hold: a copier that allocates a new cell for each cell it is given.\<close>

fun copy_cells :: "nat list \<Rightarrow> memory \<Rightarrow> nat list \<times> memory" where
  "copy_cells [] s = ([], s)"
| "copy_cells (a # as) s =
     (case alloc (CExt (ext_cell s a)) s of (b, s1) \<Rightarrow> (case copy_cells as s1 of (bs, s2) \<Rightarrow> (b # bs, s2)))"

definition copy_ext :: "string \<Rightarrow> copier" where
  "copy_ext n v s = (case v of VExt d as \<Rightarrow> (case copy_cells as s of (bs, s') \<Rightarrow> Some (VExt d bs, s')) | _ \<Rightarrow> None)"

lemma copy_cells_new:
  "mem_wf s \<Longrightarrow> copy_cells as s = (bs, s') \<Longrightarrow> \<forall>a\<in>set as. a < nxt s \<Longrightarrow>
     grown s s' \<and> (\<forall>b\<in>set bs. nxt s \<le> b \<and> (\<exists>x. mem s' b = Some (CExt x))) \<and> map (ext_cell s') bs = map (ext_cell s) as"
proof (induction as arbitrary: s bs)
  case Nil
  then show ?case by (simp add: grown_refl)
next
  case (Cons a as)
  obtain b s1 where al: "alloc (CExt (ext_cell s a)) s = (b, s1)" by force
  obtain bs1 where r: "copy_cells as s1 = (bs1, s')" "bs = b # bs1" using Cons.prems(2) al by (auto split: prod.splits)
  note g = grown_alloc[OF Cons.prems(1) al]
  have lt: "\<forall>a\<in>set as. a < nxt s1" using Cons.prems(3) g by (auto simp: grown_def)
  note ih = Cons.IH[OF grown_wf[of s s1] r(1) lt]
  have b: "b < nxt s1" using al by (auto simp: alloc_def)
  then have m: "mem s' b = Some (CExt (ext_cell s a))" using g ih by (simp add: grown_def)
  have "ext_cell s1 x = ext_cell s x" if "x \<in> set as" for x using g Cons.prems(3) that by (simp add: ext_cell_def grown_def)
  then have "map (ext_cell s') bs1 = map (ext_cell s) as" using g ih by (simp cong: map_cong)
  moreover have "ext_cell s' b = ext_cell s a" using m by (simp add: ext_cell_def)
  moreover have "grown s s'" using g ih grown_trans by blast
  moreover have "nxt s \<le> x \<and> (\<exists>y. mem s' x = Some (CExt y))" if "x \<in> set bs" for x
    using that r(2) g ih m order_trans[of "nxt s" "nxt s1" x] by (auto simp: grown_def)
  ultimately show ?case using r(2) by simp
qed

lemma copy_ext_deep: "ext_deep copy_ext"
proof -
  have "deep (TExt n) (copy_ext n)" for n
    unfolding deep_def
  proof (intro allI impI)
    fix v s assume wf: "mem_wf s" and cv: "conf s (TExt n) v"
    then obtain d as where v: "v = VExt d as" by (auto split: gval.splits)
    obtain bs s' where c: "copy_cells as s = (bs, s')" by force
    have "\<forall>a\<in>set as. a < nxt s" using wf conf_refs(1)[OF cv] v by (auto simp: mem_wf_def)
    from copy_cells_new[OF wf c this] show "\<exists>v' s'. copy_ext n v s = Some (v', s') \<and> grown s s' \<and> conf s' (TExt n) v'
        \<and> view s' (TExt n) v' = view s (TExt n) v \<and> (\<forall>a\<in>set (refs s' (TExt n) v'). nxt s \<le> a)"
      using v c by (auto simp: copy_ext_def list_all_iff)
  qed
  then show ?thesis by (simp add: ext_deep_def)
qed

text \<open>C26: Every object registered in the scheme is deeply copied by its \<open>DeepCopyObject\<close>: for a well-typed pointer the copy exists and
  looks the same, and whatever is written through one of the two is not seen through the other.\<close>

theorem DeepCopyObject_independent:
  assumes "ext_deep ext" "(gv, k, t, c) \<in> set AddToScheme" "mem_wf s" "conf s (TPtr t) v"
  shows "\<exists>v' s'. c ext v s = Some (v', s') \<and> conf s' (TPtr t) v' \<and> view s' (TPtr t) v' = view s (TPtr t) v
    \<and> view s' (TPtr t) v = view s (TPtr t) v
    \<and> (\<forall>a\<in>set (refs s' (TPtr t) v'). \<forall>x. view (s'\<lparr>mem := (mem s')(a := x)\<rparr>) (TPtr t) v = view s (TPtr t) v)
    \<and> (\<forall>a\<in>set (refs s' (TPtr t) v). \<forall>x. view (s'\<lparr>mem := (mem s')(a := x)\<rparr>) (TPtr t) v' = view s (TPtr t) v)"
  by (rule deep_independent[OF scheme_deep[OF assms(1,2)] assms(3,4)])

text \<open>A cluster policy with one transform and an output, whose configurations are two maps.\<close>

definition policy_memory :: memory where
  "policy_memory = \<lparr>mem = map_of
     [(0, CExt ''true''), (1, CMap [(''drop'', VExt [] [0])]),
      (2, CArr [VStruct [(''Type'', VString ''drop''), (''BatchLen'', VInt 0), (''Config'', VMapRef 1)]]),
      (3, CVal (VStruct [(''TypeMeta'', VStruct [(''Kind'', VString []), (''APIVersion'', VString [])]), (''ObjectMeta'', VExt ''p'' []),
        (''Spec'', VStruct [(''Input'', VStruct [(''Type'', VString ''k8sEvent''), (''BatchLen'', VInt 0), (''Config'', VNil)]),
          (''Transforms'', VSlice 2 0 1),
          (''Output'', VStruct [(''Type'', VString ''file''), (''BatchLen'', VInt 0), (''BatchSize'', VInt 0),
            (''BatchInterval'', VInt 0), (''Config'', VNil)])]),
        (''Status'', VStruct [(''Conditions'', VNil)])]))], nxt = 4\<rparr>"

lemma policy_memory_wf: "mem_wf policy_memory"
  by (auto simp: mem_wf_def policy_memory_def split: if_splits)

lemma policy_memory_conf: "conf policy_memory (TPtr ClusterLogPilotPolicy_t) (VRef 3)"
  by (simp add: policy_memory_def ClusterLogPilotPolicy_t_def ClusterLogPilotPolicySpec_t_def ClusterLogPilotPolicyStatus_t_def
    TypeMeta_t_def InputSpec_t_def TransformSpec_t_def OutputSpec_t_def slice_of_def)

theorem DeepCopyObject_independent_witness:
  "\<exists>v' s'. ClusterLogPilotPolicy_DeepCopyObject copy_ext (VRef 3) policy_memory = Some (v', s')
    \<and> view s' (TPtr ClusterLogPilotPolicy_t) v' = view policy_memory (TPtr ClusterLogPilotPolicy_t) (VRef 3)"
proof -
  have "(SchemeGroupVersion, ''ClusterLogPilotPolicy'', ClusterLogPilotPolicy_t, ClusterLogPilotPolicy_DeepCopyObject) \<in> set AddToScheme"
    by (simp add: AddToScheme_def init_ClusterLogPilotPolicy_def)
  from DeepCopyObject_independent[OF copy_ext_deep this policy_memory_wf policy_memory_conf] show ?thesis by blast
qed

end
