(* ===== verification/Permissions.thy ===== *)
theory Permissions
  imports Deploy Watcher K8sObjectState
begin

text \<open>
  What the programs may do at the API server. The operator gets its role from the \<open>+kubebuilder:rbac\<close> markers of its
  reconcilers; the agent and the webhook get theirs from the objects the operator makes (\<open>deploy.go\<close>). The theorems say that
  the roles suffice for the calls the code makes: a client the API server authorises behaves like one without authorisation.

  Authorisation is the documented behaviour of the RBAC authoriser: a request needs a rule with its group, resource and
  verb; a role is written only by who holds all it grants, and a binding only by who holds all the bound role grants.
\<close>

section \<open>Rules\<close>

definition has_item :: "string \<Rightarrow> string list \<Rightarrow> bool" where
  "has_item x xs = (x \<in> set xs \<or> ''*'' \<in> set xs)"

definition permits :: "PolicyRule list \<Rightarrow> string \<times> string \<times> string \<Rightarrow> bool" where
  "permits rs req =
     (case req of (g, r, v) \<Rightarrow>
        list_ex (\<lambda>p. has_item g (pr_APIGroups p) \<and> has_item r (pr_Resources p) \<and> has_item v (pr_Verbs p)) rs)"

definition rule_requests :: "PolicyRule \<Rightarrow> (string \<times> string \<times> string) list" where
  "rule_requests p = concat (map (\<lambda>g. concat (map (\<lambda>r. map (\<lambda>v. (g, r, v)) (pr_Verbs p)) (pr_Resources p))) (pr_APIGroups p))"

definition covers :: "PolicyRule list \<Rightarrow> PolicyRule list \<Rightarrow> bool" where
  "covers own rs = list_all (\<lambda>p. list_all (permits own) (rule_requests p)) rs"

definition forbidden :: client_err where
  "forbidden = OtherError ''forbidden''"

section \<open>The role of the operator\<close>

definition all_verbs :: "string list" where
  "all_verbs = [''get'', ''list'', ''watch'', ''create'', ''update'', ''patch'', ''delete'']"

definition crd_rules :: "string \<Rightarrow> PolicyRule list" where
  "crd_rules res =
     [rule ''logpilot.logpilot.jimyag.com'' [res] all_verbs,
      rule ''logpilot.logpilot.jimyag.com'' [res @ ''/status''] [''get'', ''update'', ''patch''],
      rule ''logpilot.logpilot.jimyag.com'' [res @ ''/finalizers''] [''update'']]"

definition logpilot_rbac :: "PolicyRule list" where
  "logpilot_rbac = crd_rules ''logpilots'' @
     [rule ''apps'' [''deployments'', ''statefulsets'', ''daemonsets''] all_verbs,
      rule ''batch'' [''jobs''] reads,
      rule [] [''pods'', ''nodes'', ''services'', ''serviceaccounts'', ''secrets'', ''configmaps'', ''events''] all_verbs,
      rule ''rbac.authorization.k8s.io'' [''roles'', ''rolebindings'', ''clusterroles'', ''clusterrolebindings''] all_verbs,
      rule ''admissionregistration.k8s.io'' [''mutatingwebhookconfigurations''] all_verbs,
      rule ''coordination.k8s.io'' [''leases''] all_verbs]"

definition logpilotpolicy_rbac :: "PolicyRule list" where
  "logpilotpolicy_rbac = crd_rules ''logpilotpolicies''"

definition clusterlogpilotpolicy_rbac :: "PolicyRule list" where
  "clusterlogpilotpolicy_rbac = crd_rules ''clusterlogpilotpolicies''"

definition operator_rules :: "PolicyRule list" where
  "operator_rules = clusterlogpilotpolicy_rbac @ logpilot_rbac @ logpilotpolicy_rbac"

section \<open>A client under authorisation\<close>

fun api_resource :: "kind \<Rightarrow> string \<times> string" where
  "api_resource KServiceAccount = ([], ''serviceaccounts'')"
| "api_resource KService = ([], ''services'')"
| "api_resource KClusterRole = (''rbac.authorization.k8s.io'', ''clusterroles'')"
| "api_resource KClusterRoleBinding = (''rbac.authorization.k8s.io'', ''clusterrolebindings'')"
| "api_resource KWebhook = (''admissionregistration.k8s.io'', ''mutatingwebhookconfigurations'')"
| "api_resource KDeployment = (''apps'', ''deployments'')"
| "api_resource KDaemonSet = (''apps'', ''daemonsets'')"

definition may :: "PolicyRule list \<Rightarrow> kind \<Rightarrow> string \<Rightarrow> bool" where
  "may own k verb = (case api_resource k of (g, r) \<Rightarrow> permits own (g, r, verb))"

text \<open>The operator's client reads from a cache that lists and watches the kind.\<close>

definition may_read :: "PolicyRule list \<Rightarrow> string \<Rightarrow> string \<Rightarrow> bool" where
  "may_read own g r = list_all (\<lambda>v. permits own (g, r, v)) reads"

definition no_escalation :: "PolicyRule list \<Rightarrow> ('w \<Rightarrow> object_id \<Rightarrow> 'res mobj option) \<Rightarrow> 'w \<Rightarrow> 'res spec \<Rightarrow> bool" where
  "no_escalation own store w s =
     (case s of
        ClusterRole rs \<Rightarrow> covers own rs
      | ClusterRoleBinding b \<Rightarrow>
          (case store w (KClusterRole, [], bs_RoleName b) of
             Some y \<Rightarrow> (case mo_Spec y of ClusterRole rs \<Rightarrow> covers own rs | _ \<Rightarrow> False)
           | None \<Rightarrow> False)
      | _ \<Rightarrow> True)"

definition authorised ::
    "PolicyRule list \<Rightarrow> ('w \<Rightarrow> object_id \<Rightarrow> 'res mobj option) \<Rightarrow> ('res, 'w) kube_client \<Rightarrow> ('res, 'w) kube_client" where
  "authorised own store c =
     \<lparr>kc_Get = (\<lambda>k w. if may_read own (fst (api_resource (fst k))) (snd (api_resource (fst k))) then kc_Get c k w else Inl forbidden),
      kc_Create = (\<lambda>x w. if may own (kind_of (mo_Spec x)) ''create'' \<and> no_escalation own store w (mo_Spec x) then kc_Create c x w
        else (Some forbidden, w)),
      kc_Update = (\<lambda>x w. if may own (kind_of (mo_Spec x)) ''update'' \<and> no_escalation own store w (mo_Spec x) then kc_Update c x w
        else (Some forbidden, w)),
      kc_Delete = (\<lambda>k w. if may own (fst k) ''delete'' then kc_Delete c k w else (Some forbidden, w))\<rparr>"

text \<open>The reads and writes of the custom resources themselves.\<close>

definition authorised_read :: "PolicyRule list \<Rightarrow> string \<Rightarrow> ('w \<Rightarrow> client_err + 'a) \<Rightarrow> 'w \<Rightarrow> client_err + 'a" where
  "authorised_read own res get w = (if may_read own ''logpilot.logpilot.jimyag.com'' res then get w else Inl forbidden)"

definition authorised_update ::
    "PolicyRule list \<Rightarrow> string \<Rightarrow> ('a \<Rightarrow> 'w \<Rightarrow> client_err option \<times> 'w) \<Rightarrow> 'a \<Rightarrow> 'w \<Rightarrow> client_err option \<times> 'w" where
  "authorised_update own res update x w =
     (if permits own (''logpilot.logpilot.jimyag.com'', res, ''update'') then update x w else (Some forbidden, w))"

section \<open>The operator\<close>

lemmas operator_rules_defs = operator_rules_def logpilot_rbac_def logpilotpolicy_rbac_def clusterlogpilotpolicy_rbac_def
  crd_rules_def all_verbs_def reads_def rule_def

lemma operator_may: "verb \<in> {''create'', ''update'', ''delete''} \<Longrightarrow> may operator_rules k verb"
  by (cases k) (auto simp: may_def permits_def has_item_def operator_rules_defs)

lemma operator_reads: "may_read operator_rules (fst (api_resource k)) (snd (api_resource k))"
  by (cases k) (simp_all add: may_read_def permits_def has_item_def operator_rules_defs)

lemma operator_reads_resources:
  "res \<in> {''logpilots'', ''logpilotpolicies'', ''clusterlogpilotpolicies''} \<Longrightarrow> authorised_read operator_rules res get = get"
  by (auto simp: fun_eq_iff authorised_read_def may_read_def permits_def has_item_def operator_rules_defs)

lemma operator_updates_resources:
  "res \<in> {''logpilots'', ''logpilotpolicies/status'', ''clusterlogpilotpolicies/status''} \<Longrightarrow>
     authorised_update operator_rules res update = update"
  by (auto simp: fun_eq_iff authorised_update_def permits_def has_item_def operator_rules_defs)

lemma authorised_operator:
  "kc_Get (authorised operator_rules store c) = kc_Get c" "kc_Delete (authorised operator_rules store c) = kc_Delete c"
  "no_escalation operator_rules store w (mo_Spec x) \<Longrightarrow> kc_Create (authorised operator_rules store c) x w = kc_Create c x w"
  "no_escalation operator_rules store w (mo_Spec x) \<Longrightarrow> kc_Update (authorised operator_rules store c) x w = kc_Update c x w"
  by (simp_all add: authorised_def operator_reads operator_may fun_eq_iff)

lemma no_escalation_preserve: "no_escalation own store w (preserve_spec e d) = no_escalation own store w d"
  by (induction e d rule: preserve_spec.induct) (auto simp: no_escalation_def)

lemma authorised_reconcileObject:
  "no_escalation operator_rules store w (mo_Spec x) \<Longrightarrow> reconcileObject (authorised operator_rules store c) x w = reconcileObject c x w"
  by (simp add: reconcileObject_def authorised_operator no_escalation_preserve preserveImmutableAndRuntimeFields_def
    split: sum.split client_err.split)

lemma authorised_reconcile_spec:
  "kind_of (mo_Spec x) \<in> {KDeployment, KDaemonSet} \<Longrightarrow> reconcile_spec (authorised operator_rules store c) x w = reconcile_spec c x w"
  by (cases "mo_Spec x") (simp_all add: reconcile_spec_def authorised_operator no_escalation_def split: sum.split client_err.split)

lemma authorised_delete_all: "delete_all (authorised operator_rules store c) xs w = delete_all c xs w"
  by (induction xs arbitrary: w) (simp_all add: authorised_operator split: option.split client_err.split prod.split)

text \<open>A role comes before its binding, and is covered.\<close>

fun roles_first :: "PolicyRule list \<Rightarrow> string list \<Rightarrow> 'res mobj list \<Rightarrow> bool" where
  "roles_first own have_roles [] = True"
| "roles_first own have_roles (x # xs) =
     (case mo_Spec x of
        ClusterRole rs \<Rightarrow> mo_Namespace x = [] \<and> covers own rs \<and> roles_first own (mo_Name x # have_roles) xs
      | ClusterRoleBinding b \<Rightarrow> bs_RoleName b \<in> set have_roles \<and> roles_first own have_roles xs
      | _ \<Rightarrow> roles_first own have_roles xs)"

definition covered_role :: "PolicyRule list \<Rightarrow> ('w \<Rightarrow> object_id \<Rightarrow> 'res mobj option) \<Rightarrow> 'w \<Rightarrow> string \<Rightarrow> bool" where
  "covered_role own store w n =
     (\<exists>y rs. store w (KClusterRole, [], n) = Some y \<and> mo_Spec y = ClusterRole rs \<and> covers own rs)"

lemma covered_role_kept:
  assumes "realizes store [x] w w1" "covered_role own store w n" "\<And>rs. mo_Spec x = ClusterRole rs \<Longrightarrow> covers own rs"
  shows "covered_role own store w1 n"
proof (cases "obj_key x = (KClusterRole, [], n)")
  case True
  then obtain rs where rs: "mo_Spec x = ClusterRole rs" by (cases "mo_Spec x") (auto simp: obj_key_def)
  have "map_option mo_Spec (store w1 (obj_key x)) = Some (settled (store w (obj_key x)) (mo_Spec x))"
    using assms(1) by (simp add: realizes_def)
  moreover have "settled e (ClusterRole rs) = ClusterRole rs" for e :: "'b mobj option" by (simp add: settled_def split: option.split)
  ultimately show ?thesis using True rs assms(3) by (auto simp: covered_role_def)
next
  case False
  then have "store w1 (KClusterRole, [], n) = store w (KClusterRole, [], n)" using assms(1) by (auto simp: realizes_def)
  then show ?thesis using assms(2) by (simp add: covered_role_def)
qed

lemma covered_role_new:
  assumes "realizes store [x] w w1" "mo_Spec x = ClusterRole rs" "mo_Namespace x = []" "covers own rs"
  shows "covered_role own store w1 (mo_Name x)"
proof -
  have "map_option mo_Spec (store w1 (KClusterRole, [], mo_Name x)) = Some (settled (store w (obj_key x)) (mo_Spec x))"
    using assms(1-3) by (simp add: realizes_def obj_key_def)
  moreover have "settled e (ClusterRole rs) = ClusterRole rs" for e :: "'b mobj option" by (simp add: settled_def split: option.split)
  ultimately show ?thesis using assms(2,4) by (auto simp: covered_role_def)
qed

lemma roles_first_step:
  assumes "roles_first own ns (x # xs)" "\<forall>n\<in>set ns. covered_role own store w n"
  shows "no_escalation own store w (mo_Spec x)"
    and "realizes store [x] w w1 \<Longrightarrow> \<exists>ms. roles_first own ms xs \<and> (\<forall>n\<in>set ms. covered_role own store w1 n)"
proof -
  show "no_escalation own store w (mo_Spec x)"
    using assms by (cases "mo_Spec x") (auto simp: no_escalation_def covered_role_def)
  assume r: "realizes store [x] w w1"
  have c: "covers own rs" if "mo_Spec x = ClusterRole rs" for rs using assms(1) that by simp
  have kept: "\<forall>n\<in>set ns. covered_role own store w1 n" using assms(2) covered_role_kept[OF r _ c] by blast
  show "\<exists>ms. roles_first own ms xs \<and> (\<forall>n\<in>set ms. covered_role own store w1 n)"
  proof (cases "mo_Spec x")
    case (ClusterRole rs)
    then have "roles_first own (mo_Name x # ns) xs" "covered_role own store w1 (mo_Name x)"
      using assms(1) covered_role_new[OF r ClusterRole] by simp_all
    then show ?thesis using kept by (intro exI[of _ "mo_Name x # ns"]) simp
  qed (use assms(1) kept in auto)
qed

lemma authorised_reconcile_support:
  assumes "api_laws c store" "ref_laws set_ref"
  shows "roles_first operator_rules ns xs \<Longrightarrow> \<forall>n\<in>set ns. covered_role operator_rules store w n \<Longrightarrow>
    reconcile_support (authorised operator_rules store c) set_ref xs w = reconcile_support c set_ref xs w"
proof (induction xs arbitrary: w ns)
  case (Cons x xs)
  show ?case
  proof (cases "if mo_Namespace x \<noteq> [] then set_ref x else Inr x")
    case (Inr x')
    have same: "obj_key x' = obj_key x \<and> mo_Spec x' = mo_Spec x"
      using Inr assms(2) by (auto simp: ref_laws_def split: if_splits)
    have eq: "reconcileObject (authorised operator_rules store c) x' w = reconcileObject c x' w"
      by (rule authorised_reconcileObject) (use roles_first_step(1)[OF Cons.prems] same in simp)
    obtain e w1 where r: "reconcileObject c x' w = (e, w1)" by force
    show ?thesis
    proof (cases e)
      case None
      have "realizes store [x] w w1"
        by (rule realizes_same[OF reconcileObject_realizes[OF assms(1) r[unfolded None]]]) (simp add: same)
      from roles_first_step(2)[OF Cons.prems this] Cons.IH[of _ w1] show ?thesis using Inr eq r None by auto
    qed (use Inr eq r in simp)
  qed simp
qed simp

lemma built_roles_covered:
  "case mo_Spec (buildAPIClusterRole lp) of ClusterRole rs \<Rightarrow> covers operator_rules rs | _ \<Rightarrow> False"
  "case mo_Spec (buildAgentClusterRole lp) of ClusterRole rs \<Rightarrow> covers operator_rules rs | _ \<Rightarrow> False"
  by code_simp+

lemma support_roles_first: "roles_first operator_rules [] (buildSupportObjects lp)"
  using built_roles_covered[of lp]
  by (simp add: buildSupportObjects_def buildServiceAccount_def buildAPIService_def buildAPIClusterRole_def buildAgentClusterRole_def
    buildAPIClusterRoleBinding_def buildAgentClusterRoleBinding_def buildMutatingWebhook_def plain_def)

lemma authorised_reconcile_objects:
  assumes "api_laws c store" "ref_laws set_ref"
  shows "reconcile_objects (authorised operator_rules store c) set_ref ai gi lp w = reconcile_objects c set_ref ai gi lp w"
proof -
  have s: "reconcile_support (authorised operator_rules store c) set_ref (buildSupportObjects lp) w
      = reconcile_support c set_ref (buildSupportObjects lp) w"
    by (rule authorised_reconcile_support[OF assms support_roles_first]) simp
  have kinds: "kind_of (mo_Spec x) \<in> {KDeployment, KDaemonSet}"
    if "set_ref (buildAPIDeployment lp ai) = Inr x \<or> set_ref (buildAgentDaemonSet lp gi) = Inr x" for x
  proof -
    have "mo_Spec x = mo_Spec (buildAPIDeployment lp ai) \<or> mo_Spec x = mo_Spec (buildAgentDaemonSet lp gi)"
      using that assms(2) by (auto simp: ref_laws_def)
    then show ?thesis by (auto simp: buildAPIDeployment_def buildAgentDaemonSet_def plain_def Let_def)
  qed
  show ?thesis unfolding reconcile_objects_def s reconcileDeployment_def reconcileDaemonSet_def
    by (auto simp: authorised_reconcile_spec[OF kinds] split: option.split prod.split sum.split)
qed

text \<open>C18: The operator's own role suffices for reconciling a LogPilot: an API server that authorises every call, and refuses to let it
  write a role or a binding that grants more than it holds itself, changes nothing.\<close>

theorem operator_is_authorised:
  assumes "api_laws c store" "\<And>lp. ref_laws (set_ref lp)"
  shows "Reconcile_LogPilot (authorised operator_rules store c) set_ref (authorised_read operator_rules ''logpilots'' get_lp)
      (authorised_update operator_rules ''logpilots'' update_lp) api_env agent_env w
    = Reconcile_LogPilot c set_ref get_lp update_lp api_env agent_env w"
  by (simp add: Reconcile_LogPilot_def operator_reads_resources operator_updates_resources authorised_reconcile_objects[OF assms]
    cleanupLogPilot_def authorised_delete_all Let_def split: sum.split client_err.split)

theorem operator_is_authorised_witness:
  "Reconcile_LogPilot (authorised operator_rules demo_store demo_client) demo_ref (authorised_read operator_rules ''logpilots'' (\<lambda>w. Inr (demo_lp ''a'' None)))
      (authorised_update operator_rules ''logpilots'' (\<lambda>lp w. (None, w))) [] [] []
    = demo_reconcile ''a'' None []"
  unfolding operator_is_authorised[OF demo_laws demo_ref_laws] by (simp add: demo_reconcile_def)

lemma policy_reconcilers_authorised:
  "Reconcile_LogPilotPolicy set_cond (\<lambda>req. authorised_read operator_rules ''logpilotpolicies'' (get req))
      (authorised_update operator_rules ''logpilotpolicies/status'' update) req w
    = Reconcile_LogPilotPolicy set_cond get update req w"
  "Reconcile_ClusterLogPilotPolicy set_cond (\<lambda>req. authorised_read operator_rules ''clusterlogpilotpolicies'' (get2 req))
      (authorised_update operator_rules ''clusterlogpilotpolicies/status'' update2) req w
    = Reconcile_ClusterLogPilotPolicy set_cond get2 update2 req w"
  by (simp_all add: operator_reads_resources operator_updates_resources)

section \<open>The deployed programs\<close>

definition role_rules :: "'res mobj list \<Rightarrow> string \<Rightarrow> PolicyRule list" where
  "role_rules objs n =
     concat (map (\<lambda>x. case mo_Spec x of ClusterRole rs \<Rightarrow> if mo_Name x = n then rs else [] | _ \<Rightarrow> []) objs)"

definition bound_rules :: "'res mobj list \<Rightarrow> string \<Rightarrow> string \<Rightarrow> PolicyRule list" where
  "bound_rules objs ns account =
     concat (map (\<lambda>x. case mo_Spec x of
         ClusterRoleBinding b \<Rightarrow> (if bs_SubjectName b = account \<and> bs_SubjectNamespace b = ns then role_rules objs (bs_RoleName b) else [])
       | _ \<Rightarrow> []) objs)"

definition has_account :: "'res mobj list \<Rightarrow> string \<Rightarrow> string \<Rightarrow> bool" where
  "has_account objs ns account =
     list_ex (\<lambda>x. mo_Namespace x = ns \<and> mo_Name x = account \<and> kind_of (mo_Spec x) = KServiceAccount) objs"

text \<open>The rules a Pod of a workload holds; without its service account no Pod is created.\<close>

definition pod_rules :: "'res mobj list \<Rightarrow> 'res mobj \<Rightarrow> PolicyRule list" where
  "pod_rules objs x =
     (let account = (case mo_Spec x of Deployment d \<Rightarrow> ds_ServiceAccount d | DaemonSet d \<Rightarrow> ns_ServiceAccount d | _ \<Rightarrow> [])
      in if has_account objs (mo_Namespace x) account then bound_rules objs (mo_Namespace x) account else [])"

text \<open>The calls of the code: group, resource and verb.\<close>

definition syncPods_calls :: "(string \<times> string \<times> string) list" where
  "syncPods_calls = [([], ''pods'', ''list'')]"

definition Start_calls :: "(string \<times> string \<times> string) list" where
  "Start_calls = [([], ''pods'', ''watch'')]"

definition policies_calls :: "(string \<times> string \<times> string) list" where
  "policies_calls = [(''logpilot.logpilot.jimyag.com'', ''clusterlogpilotpolicies'', ''list'')]"

definition watcher_calls :: "(string \<times> string \<times> string) list" where
  "watcher_calls = syncPods_calls @ policies_calls @ Start_calls"

definition ev_calls :: "(string \<times> string \<times> string) list" where
  "ev_calls = [([], ''events'', ''list''), ([], ''events'', ''watch'')]"

definition collector_calls :: "string \<Rightarrow> (string \<times> string \<times> string) list" where
  "collector_calls kind =
     (let calls = (\<lambda>g r. [(g, r, ''list''), (g, r, ''watch'')])
      in if kind = ''Pod'' then calls [] ''pods''
         else if kind = ''Node'' then calls [] ''nodes''
         else if kind = ''Deployment'' then calls ''apps'' ''deployments''
         else if kind = ''StatefulSet'' then calls ''apps'' ''statefulsets''
         else if kind = ''DaemonSet'' then calls ''apps'' ''daemonsets''
         else calls ''batch'' ''jobs'')"

definition state_calls :: "K8sObjectStateConfig \<Rightarrow> (string \<times> string \<times> string) list" where
  "state_calls cfg = concat (map (\<lambda>c. collector_calls (ol_Kind c)) (oi_collectors (NewK8sObjectStateInput cfg)))"

definition api_calls :: "(string \<times> string \<times> string) list" where
  "api_calls = [(''logpilot.logpilot.jimyag.com'', ''logpilotpolicies'', ''list'')]"

definition lease_may :: "PolicyRule list \<Rightarrow> string \<Rightarrow> bool" where
  "lease_may own verb = permits own (''coordination.k8s.io'', ''leases'', verb)"

definition authorised_lease :: "PolicyRule list \<Rightarrow> 'w lease_client \<Rightarrow> 'w lease_client" where
  "authorised_lease own cl =
     \<lparr>lc_Get = (\<lambda>n w. if lease_may own ''get'' then lc_Get cl n w else (Inl forbidden, w)),
      lc_Create = (\<lambda>l w. if lease_may own ''create'' then lc_Create cl l w else (Some forbidden, w)),
      lc_Update = (\<lambda>l w. if lease_may own ''update'' then lc_Update cl l w else (Some forbidden, w)),
      lc_Now = lc_Now cl\<rparr>"

lemmas build_defs = buildManagedObjects_def buildSupportObjects_def buildServiceAccount_def buildAPIService_def buildAPIClusterRole_def
  buildAPIClusterRoleBinding_def buildAgentClusterRole_def buildAgentClusterRoleBinding_def buildMutatingWebhook_def
  buildAPIDeployment_def buildAgentDaemonSet_def plain_def apiName_def agentName_def

lemma agent_rules:
  "mo_Spec (buildAgentClusterRole lp) = ClusterRole (pod_rules (buildManagedObjects lp ai gi) (buildAgentDaemonSet lp gi))"
  by (simp add: pod_rules_def has_account_def bound_rules_def role_rules_def build_defs Let_def)

lemma api_rules:
  "mo_Spec (buildAPIClusterRole lp) = ClusterRole (pod_rules (buildManagedObjects lp ai gi) (buildAPIDeployment lp ai))"
  by (simp add: pod_rules_def has_account_def bound_rules_def role_rules_def build_defs Let_def)

lemma agent_role_calls:
  "case mo_Spec (buildAgentClusterRole lp) of ClusterRole rs \<Rightarrow> list_all (permits rs) (watcher_calls @ ev_calls) | _ \<Rightarrow> False"
  "case mo_Spec (buildAgentClusterRole lp) of ClusterRole rs \<Rightarrow> list_all (lease_may rs) [''get'', ''create'', ''update''] | _ \<Rightarrow> False"
  "case mo_Spec (buildAgentClusterRole lp) of ClusterRole rs \<Rightarrow>
     list_all (\<lambda>k. list_all (permits rs) (collector_calls k)) [''Pod'', ''Node'', ''Deployment'', ''StatefulSet'', ''DaemonSet'', ''Job''] | _ \<Rightarrow> False"
  by code_simp+

lemma start_collectors_kind: "c \<in> set (start_collectors kind nss) \<Longrightarrow> ol_Kind c = kind"
  by (auto simp: start_collectors_def)

lemma collectors_kinds: "c \<in> set (oi_collectors (NewK8sObjectStateInput cfg)) \<Longrightarrow>
    ol_Kind c \<in> {''Pod'', ''Node'', ''Deployment'', ''StatefulSet'', ''DaemonSet'', ''Job''}"
proof -
  have "ol_Kind c \<in> {''Pod'', ''Node'', ''Deployment'', ''StatefulSet'', ''DaemonSet'', ''Job''}" if "c \<in> set (run_resource cfg r)" for r
    using that unfolding run_resource_def start_defs by (simp only: split: if_splits) ((drule start_collectors_kind)?; simp)+
  then show "c \<in> set (oi_collectors (NewK8sObjectStateInput cfg)) \<Longrightarrow> ?thesis"
    unfolding NewK8sObjectStateInput_def by (simp only: k8sObjectStateInput.simps set_concat set_map UN_iff) blast
qed

lemma authorised_acquire_loop:
  assumes "lease_may own ''get''" "lease_may own ''create''" "lease_may own ''update''"
  shows "acquire_loop n (authorised_lease own cl) holder name w = acquire_loop n cl holder name w"
  by (induction n arbitrary: w) (simp_all add: authorised_lease_def assms Let_def split: sum.split client_err.split option.split prod.split)


section \<open>The way to the webhook\<close>

text \<open>What the webhook program serves: the paths of \<open>Webhooks\<close> and the name of \<open>Configure\<close>.\<close>

definition API_Webhooks :: "string list" where
  "API_Webhooks = [''/mutate-pod'']"

definition API_Configure :: string where
  "API_Configure = ''log-pilot-api''"

definition pod_labels :: "'res mobj \<Rightarrow> (string, string) gomap option" where
  "pod_labels x = (case mo_Spec x of Deployment d \<Rightarrow> Some (ds_Labels d) | DaemonSet d \<Rightarrow> Some (ns_Labels d) | _ \<Rightarrow> None)"

definition labels_match :: "(string, string) gomap \<Rightarrow> (string, string) gomap \<Rightarrow> bool" where
  "labels_match sel ls = list_all (\<lambda>(k, v). gm_get ls k = Some v) sel"

definition selected :: "'res mobj list \<Rightarrow> string \<Rightarrow> (string, string) gomap \<Rightarrow> 'res mobj list" where
  "selected objs ns sel =
     filter (\<lambda>x. mo_Namespace x = ns
       \<and> (case pod_labels x of Some ls \<Rightarrow> labels_match sel ls | None \<Rightarrow> False)) objs"

definition routes :: "'res mobj list \<Rightarrow> Webhook \<Rightarrow> 'res mobj list" where
  "routes objs h =
     concat (map (\<lambda>x. case mo_Spec x of
         Service s \<Rightarrow>
           (if mo_Namespace x = wh_ServiceNamespace h \<and> mo_Name x = wh_ServiceName h then
              concat (map (\<lambda>(n, p, target). if p = wh_Port h
                then filter (\<lambda>d. case mo_Spec d of Deployment ds \<Rightarrow> ds_Port ds = target | _ \<Rightarrow> False) (selected objs (mo_Namespace x) (sv_Selector s))
                else []) (sv_Ports s))
            else [])
       | _ \<Rightarrow> []) objs)"

lemma api_labels_match:
  "labels_match [(labelName, apiName), (labelComponent, ''webhook'')] [(labelName, ''log-pilot-api''), (labelComponent, ''webhook'')]"
  "\<not> labels_match [(labelName, apiName), (labelComponent, ''webhook'')] [(labelName, ''log-pilot-agent''), (labelComponent, ''agent'')]"
  by code_simp+

lemmas built_pods = buildServiceAccount_def buildAPIService_def buildAPIClusterRole_def buildAPIClusterRoleBinding_def
  buildAgentClusterRole_def buildAgentClusterRoleBinding_def buildMutatingWebhook_def plain_def

lemma api_selected:
  "selected (buildManagedObjects lp ai gi) (lo_ns lp) [(labelName, apiName), (labelComponent, ''webhook'')] = [buildAPIDeployment lp ai]"
proof -
  have "pod_labels (buildAPIDeployment lp ai) = Some [(labelName, ''log-pilot-api''), (labelComponent, ''webhook'')]"
    "pod_labels (buildAgentDaemonSet lp gi) = Some [(labelName, ''log-pilot-agent''), (labelComponent, ''agent'')]"
    "mo_Namespace (buildAPIDeployment lp ai) = lo_ns lp"
    by (simp_all add: pod_labels_def buildAPIDeployment_def buildAgentDaemonSet_def plain_def Let_def)
  moreover have "filter (\<lambda>x. mo_Namespace x = lo_ns lp
      \<and> (case pod_labels x of Some ls \<Rightarrow> labels_match [(labelName, apiName), (labelComponent, ''webhook'')] ls | None \<Rightarrow> False))
      (buildSupportObjects lp) = []"
    by (simp add: buildSupportObjects_def pod_labels_def built_pods)
  ultimately show ?thesis by (simp add: selected_def buildManagedObjects_def api_labels_match)
qed

text \<open>C32: The webhook configuration the operator makes leads to the webhook: its Service selects the Pods of the API deployment and
  nothing else, on the port they declare, with a path the program serves.\<close>

theorem webhook_reaches_api:
  "\<exists>h. mo_Spec (buildMutatingWebhook lp) = MutatingWebhook [h] \<and> wh_Path h \<in> set API_Webhooks
     \<and> mo_Name (buildMutatingWebhook lp :: 'res mobj) = API_Configure
     \<and> routes (buildManagedObjects lp ai gi) h = [buildAPIDeployment lp ai]"
  for lp :: "'res LogPilot"
proof -
  obtain h where h: "mo_Spec (buildMutatingWebhook lp :: 'res mobj) = MutatingWebhook [h]"
    by (simp add: buildMutatingWebhook_def plain_def)
  then have hs: "wh_Path h = ''/mutate-pod''" "wh_ServiceNamespace h = lo_ns lp" "wh_ServiceName h = apiName" "wh_Port h = webhookPort"
    by (auto simp: buildMutatingWebhook_def plain_def)
  have dep: "case mo_Spec (buildAPIDeployment lp ai) of Deployment ds \<Rightarrow> ds_Port ds = webhookPort | _ \<Rightarrow> False"
    by (simp add: buildAPIDeployment_def plain_def Let_def)
  define to where "to = (\<lambda>x :: 'res mobj. case mo_Spec x of
      Service s \<Rightarrow>
        (if mo_Namespace x = wh_ServiceNamespace h \<and> mo_Name x = wh_ServiceName h then
           concat (map (\<lambda>(n, p, target). if p = wh_Port h
             then filter (\<lambda>d. case mo_Spec d of Deployment ds \<Rightarrow> ds_Port ds = target | _ \<Rightarrow> False)
               (selected (buildManagedObjects lp ai gi) (mo_Namespace x) (sv_Selector s))
             else []) (sv_Ports s))
         else [])
    | _ \<Rightarrow> [])"
  have "to (buildAPIDeployment lp ai) = []" "to (buildAgentDaemonSet lp gi) = []"
    by (simp_all add: to_def buildAPIDeployment_def buildAgentDaemonSet_def plain_def Let_def)
  moreover have "concat (map to (buildSupportObjects lp)) = to (buildAPIService lp)"
    by (simp add: to_def buildSupportObjects_def built_pods)
  moreover have "to (buildAPIService lp) = filter (\<lambda>d. case mo_Spec d of Deployment ds \<Rightarrow> ds_Port ds = webhookPort | _ \<Rightarrow> False)
      (selected (buildManagedObjects lp ai gi) (lo_ns lp) [(labelName, apiName), (labelComponent, ''webhook'')])"
    by (simp add: to_def buildAPIService_def plain_def hs)
  moreover have "routes (buildManagedObjects lp ai gi) h = concat (map to (buildManagedObjects lp ai gi))"
    by (simp add: routes_def to_def)
  ultimately have "routes (buildManagedObjects lp ai gi) h = [buildAPIDeployment lp ai]"
    using dep by (simp add: api_selected) (simp add: buildManagedObjects_def)
  then show ?thesis using h hs(1) by (simp add: API_Webhooks_def API_Configure_def buildMutatingWebhook_def plain_def)
qed

end
