(* ===== verification/Programs.thy ===== *)
theory Programs
  imports Permissions
begin

text \<open>
  \<open>cmd/log-pilot-operator/main.go\<close> and \<open>cmd/log-pilot-api/main.go\<close>: what the flags of the operator make of its servers, and the
  order in which the two programs start, with the exit of every step that fails. (The agent's \<open>main\<close> is in \<open>Shutdown\<close>.)

  The manager, its servers and the webhook library are of other modules: \<open>ops\<close> is what each call answers. Parsing the
  command line is the \<open>flag\<close> package's; the flags are the values it leaves. The logger is not modelled.
\<close>

section \<open>The flags of the operator\<close>

record operator_flags =
  fl_metricsAddr :: string
  fl_probeAddr :: string
  fl_enableLeaderElection :: bool
  fl_secureMetrics :: bool
  fl_webhookCertPath :: string
  fl_webhookCertName :: string
  fl_webhookCertKey :: string
  fl_metricsCertPath :: string
  fl_metricsCertName :: string
  fl_metricsCertKey :: string
  fl_enableHTTP2 :: bool

definition default_flags :: operator_flags where
  "default_flags = \<lparr>fl_metricsAddr = ''0'', fl_probeAddr = '':8081'', fl_enableLeaderElection = False, fl_secureMetrics = True,
     fl_webhookCertPath = [], fl_webhookCertName = ''tls.crt'', fl_webhookCertKey = ''tls.key'', fl_metricsCertPath = [],
     fl_metricsCertName = ''tls.crt'', fl_metricsCertKey = ''tls.key'', fl_enableHTTP2 = False\<rparr>"

text \<open>Of \<open>tls.Config\<close> only the protocols offered are touched.\<close>

record tls_config =
  tc_NextProtos :: "string list"

type_synonym tls_opts = "(tls_config \<Rightarrow> tls_config) list"

definition disableHTTP2 :: "tls_config \<Rightarrow> tls_config" where
  "disableHTTP2 c = c\<lparr>tc_NextProtos := [''http/1.1'']\<rparr>"

definition tlsOpts :: "operator_flags \<Rightarrow> tls_opts" where
  "tlsOpts f = (if \<not> fl_enableHTTP2 f then [disableHTTP2] else [])"

section \<open>The options of the servers and of the manager\<close>

record webhook_options =
  wo_TLSOpts :: tls_opts
  wo_CertDir :: string
  wo_CertName :: string
  wo_KeyName :: string

definition webhookServerOptions :: "operator_flags \<Rightarrow> webhook_options" where
  "webhookServerOptions f =
     (let opts = \<lparr>wo_TLSOpts = tlsOpts f, wo_CertDir = [], wo_CertName = [], wo_KeyName = []\<rparr>
      in if 0 < length (fl_webhookCertPath f)
         then opts\<lparr>wo_CertDir := fl_webhookCertPath f, wo_CertName := fl_webhookCertName f, wo_KeyName := fl_webhookCertKey f\<rparr>
         else opts)"

text \<open>\<open>mt_Filtered\<close>: requests pass \<open>WithAuthenticationAndAuthorization\<close>.\<close>

record metrics_options =
  mt_BindAddress :: string
  mt_SecureServing :: bool
  mt_TLSOpts :: tls_opts
  mt_Filtered :: bool
  mt_CertDir :: string
  mt_CertName :: string
  mt_KeyName :: string

definition metricsServerOptions :: "operator_flags \<Rightarrow> metrics_options" where
  "metricsServerOptions f =
     (let opts = \<lparr>mt_BindAddress = fl_metricsAddr f, mt_SecureServing = fl_secureMetrics f, mt_TLSOpts = tlsOpts f, mt_Filtered = False,
            mt_CertDir = [], mt_CertName = [], mt_KeyName = []\<rparr>;
          opts1 = (if fl_secureMetrics f then opts\<lparr>mt_Filtered := True\<rparr> else opts)
      in if 0 < length (fl_metricsCertPath f)
         then opts1\<lparr>mt_CertDir := fl_metricsCertPath f, mt_CertName := fl_metricsCertName f, mt_KeyName := fl_metricsCertKey f\<rparr>
         else opts1)"

record manager_options =
  mg_Metrics :: metrics_options
  mg_WebhookServer :: webhook_options
  mg_HealthProbeBindAddress :: string
  mg_LeaderElection :: bool
  mg_LeaderElectionID :: string

definition managerOptions :: "operator_flags \<Rightarrow> manager_options" where
  "managerOptions f = \<lparr>mg_Metrics = metricsServerOptions f, mg_WebhookServer = webhookServerOptions f,
     mg_HealthProbeBindAddress = fl_probeAddr f, mg_LeaderElection = fl_enableLeaderElection f,
     mg_LeaderElectionID = ''8bcbf6ca.logpilot.jimyag.com''\<rparr>"

section \<open>Starting\<close>

text \<open>A controller watches one kind under a name; the two probes are plain pings.\<close>

datatype operator_call =
    GetConfig
  | NewManager manager_options
  | NewController string string
  | AddHealthzCheck string
  | AddReadyzCheck string
  | StartManager

definition SetupLogPilot :: operator_call where
  "SetupLogPilot = NewController ''LogPilot'' ''logpilot''"

definition SetupLogPilotPolicy :: operator_call where
  "SetupLogPilotPolicy = NewController ''LogPilotPolicy'' ''logpilotpolicy''"

definition SetupClusterLogPilotPolicy :: operator_call where
  "SetupClusterLogPilotPolicy = NewController ''ClusterLogPilotPolicy'' ''clusterlogpilotpolicy''"

text \<open>\<open>main\<close>: the calls in their order, each with the message it logs when it fails (\<open>GetConfigOrDie\<close> has its own); the first that
  fails ends the process with code 1.\<close>

fun run_calls :: "('c \<Rightarrow> 'w \<Rightarrow> gerr option \<times> 'w) \<Rightarrow> ('c \<times> string) list \<Rightarrow> 'w \<Rightarrow> (string \<times> gerr) option \<times> 'w" where
  "run_calls ops [] w = (None, w)"
| "run_calls ops ((c, msg) # cs) w =
     (case ops c w of (None, w') \<Rightarrow> run_calls ops cs w' | (Some e, w') \<Rightarrow> (Some (msg, e), w'))"

definition operator_calls :: "operator_flags \<Rightarrow> (operator_call \<times> string) list" where
  "operator_calls f =
     [(GetConfig, []), (NewManager (managerOptions f), ''Failed to start manager''),
      (SetupLogPilot, ''Failed to create controller''), (SetupLogPilotPolicy, ''Failed to create controller''),
      (SetupClusterLogPilotPolicy, ''Failed to create controller''), (AddHealthzCheck ''healthz'', ''Failed to set up health check''),
      (AddReadyzCheck ''readyz'', ''Failed to set up ready check''), (StartManager, ''Failed to run manager'')]"

definition operator_main :: "(operator_call \<Rightarrow> 'w \<Rightarrow> gerr option \<times> 'w) \<Rightarrow> operator_flags \<Rightarrow> 'w \<Rightarrow> nat \<times> 'w" where
  "operator_main ops f w = (case run_calls ops (operator_calls f) w of (None, w') \<Rightarrow> (0, w') | (Some e, w') \<Rightarrow> (1, w'))"

text \<open>The webhook program panics without a configuration or a client (exit code 2), and exits with 1 when the library reports
  an error.\<close>

definition api_main :: "gerr + 'cfg \<Rightarrow> ('cfg \<Rightarrow> gerr + 'client) \<Rightarrow> ('client \<Rightarrow> gerr option) \<Rightarrow> nat" where
  "api_main cfg new_client run =
     (case cfg of
        Inl e \<Rightarrow> 2
      | Inr c \<Rightarrow> (case new_client c of Inl e \<Rightarrow> 2 | Inr cl \<Rightarrow> (case run cl of None \<Rightarrow> 0 | Some e \<Rightarrow> 1)))"

section \<open>What the flags and the start guarantee\<close>

definition apply_tls :: "tls_opts \<Rightarrow> tls_config \<Rightarrow> tls_config" where
  "apply_tls opts c = fold (\<lambda>f. f) opts c"

lemma tlsOpts_protocols:
  "apply_tls (tlsOpts f) c = (if fl_enableHTTP2 f then c else c\<lparr>tc_NextProtos := [''http/1.1'']\<rparr>)"
  by (simp add: apply_tls_def tlsOpts_def disableHTTP2_def)

text \<open>Unless HTTP/2 is enabled both servers of the operator offer HTTP/1.1 only, whatever the server had configured; metrics
  are served over TLS exactly when they are behind authentication and authorisation, which is the default, and certificates come
  from the directory of the flag when it is set.\<close>

theorem operator_servers_secured:
  "let m = managerOptions f in
     (\<not> fl_enableHTTP2 f \<longrightarrow>
        tc_NextProtos (apply_tls (mt_TLSOpts (mg_Metrics m)) c) = [''http/1.1'']
        \<and> tc_NextProtos (apply_tls (wo_TLSOpts (mg_WebhookServer m)) c) = [''http/1.1''])
     \<and> mt_SecureServing (mg_Metrics m) = mt_Filtered (mg_Metrics m)
     \<and> mt_Filtered (mg_Metrics (managerOptions default_flags)) \<and> mt_BindAddress (mg_Metrics (managerOptions default_flags)) = ''0''
     \<and> mt_CertDir (mg_Metrics m) = fl_metricsCertPath f \<and> wo_CertDir (mg_WebhookServer m) = fl_webhookCertPath f"
  by (simp add: managerOptions_def metricsServerOptions_def webhookServerOptions_def default_flags_def tlsOpts_protocols Let_def)

theorem operator_servers_secured_witness:
  "tc_NextProtos (apply_tls (wo_TLSOpts (mg_WebhookServer (managerOptions default_flags))) \<lparr>tc_NextProtos = [''h2'', ''http/1.1'']\<rparr>) = [''http/1.1'']"
proof -
  have "\<not> fl_enableHTTP2 default_flags" by (simp add: default_flags_def)
  with operator_servers_secured[of default_flags "\<lparr>tc_NextProtos = [''h2'', ''http/1.1'']\<rparr>"] show ?thesis unfolding Let_def by blast
qed

text \<open>The calls made, up to and including the first that fails.\<close>

definition logged :: "('c \<Rightarrow> 'w \<Rightarrow> gerr option \<times> 'w) \<Rightarrow> 'c \<Rightarrow> 'w \<times> 'c list \<Rightarrow> gerr option \<times> ('w \<times> 'c list)" where
  "logged ops c wl = (case ops c (fst wl) of (e, w') \<Rightarrow> (e, (w', snd wl @ [c])))"

lemma run_calls_logged:
  "run_calls (logged ops) cs (w, l) = (e, (w', l')) \<Longrightarrow> \<exists>n\<le>length cs. l' = l @ map fst (take n cs) \<and> (e = None \<longrightarrow> n = length cs)"
proof (induction cs arbitrary: w l)
  case (Cons c cs)
  obtain x msg where c: "c = (x, msg)" by force
  obtain r w1 where r: "ops x w = (r, w1)" by force
  show ?case
  proof (cases r)
    case None
    have "logged ops x (w, l) = (r, (w1, l @ [x]))" using r by (simp add: logged_def)
    with None have "run_calls (logged ops) cs (w1, l @ [x]) = (e, (w', l'))" using Cons.prems c by simp
    from Cons.IH[OF this] obtain n where "n \<le> length cs" "l' = l @ map fst (take (Suc n) (c # cs))" "e = None \<longrightarrow> n = length cs"
      by (auto simp: c)
    then show ?thesis by (intro exI[of _ "Suc n"]) simp
  next
    case (Some err)
    then show ?thesis using Cons.prems c r by (intro exI[of _ 1]) (auto simp: logged_def)
  qed
qed simp

text \<open>The manager is started only when the three controllers and both probes are set up, and the exit code is 0 only then.\<close>

lemma operator_starts_complete:
  assumes "operator_main (logged ops) f (w, []) = (code, (w', calls))"
  shows "\<exists>n\<le>8. calls = map fst (take n (operator_calls f)) \<and> (code = 0 \<longrightarrow> n = 8)"
proof -
  obtain e where e: "run_calls (logged ops) (operator_calls f) (w, []) = (e, (w', calls))" "code = 0 \<longrightarrow> e = None"
    using assms by (auto simp: operator_main_def split: prod.splits option.splits)
  have "length (operator_calls f) = 8" by (simp add: operator_calls_def)
  with run_calls_logged[OF e(1)] e(2) show ?thesis by auto
qed

end
