(* ===== verification/Shutdown.thy ===== *)
theory Shutdown
  imports PodRuns Deployed
begin

text \<open>
  \<open>cmd/log-pilot-agent/main.go\<close> and the end of \<open>StopAll\<close>: the main goroutine starts the watcher, waits for the signal, and
  then stops every runner and waits for them, 30 seconds at most. It runs beside the event loop of \<open>PodWatch\<close>, which goes on
  until it sees the cancelled context; the process ends when \<open>main\<close> returns.

  The three clients and the listener of the status server are not modelled beyond whether they can be made.
\<close>

section \<open>The main goroutine\<close>

text \<open>Before the signal; the two loops of \<open>StopAll\<close>, with the runners left and, for the first, the whole snapshot; after
  \<open>StopAll\<close>, \<open>True\<close> when it gave up waiting.\<close>

datatype agent_pc = Serving | Signalling "nat list" "nat list" | Waiting "nat list" | Exited bool

record 'w agent_state =
  as_watch :: "'w watch_state"
  as_pc :: agent_pc

definition agent_init :: "hostfs \<Rightarrow> 'w \<Rightarrow> 'w agent_state" where
  "agent_init h w = \<lparr>as_watch = watch_init h w, as_pc = Serving\<rparr>"

text \<open>The start: an error exits with its message, else the status address, the configuration of the watcher and the state
  both goroutines start in. (The status server is started before the name of the node is looked at.)\<close>

definition agent_main :: "bool \<Rightarrow> bool \<Rightarrow> bool \<Rightarrow> (string, string) gomap \<Rightarrow> hostfs \<Rightarrow> 'w
    \<Rightarrow> string + string \<times> WatcherConfig \<times> 'w agent_state" where
  "agent_main cfg_ok client_ok kube_ok env h w =
     (if \<not> cfg_ok then Inl ''failed to get k8s config''
      else if \<not> client_ok then Inl ''failed to create k8s client''
      else if \<not> kube_ok then Inl ''failed to create kubernetes client''
      else (case agent_config env of
          None \<Rightarrow> Inl ''NODE_NAME env var is required''
        | Some cfg \<Rightarrow> Inr (envOrDefault env ''STATUS_ADDR'' '':9090'', cfg, agent_init h w)))"

text \<open>A turn of the event loop and its goroutines (the process still running), or of the main goroutine. A map is traversed in
  any order, which the snapshot chooses; the wait for one runner ends when it is done or the 30 seconds are over.\<close>

datatype 'w agent_action = Watch "'w action" | Snapshot "nat list" | SignalNext | WaitNext | WaitTimeout

fun agent_act :: "(string \<Rightarrow> bool) \<Rightarrow> WatcherConfig \<Rightarrow> 'w lease_client \<Rightarrow> 'w agent_action \<Rightarrow> 'w agent_state \<Rightarrow> 'w agent_state option" where
  "agent_act pem_ok cfg cl (Watch a) s =
     (case as_pc s of
        Exited b \<Rightarrow> None
      | _ \<Rightarrow> (case a of AStopAll \<Rightarrow> None | _ \<Rightarrow> map_option (\<lambda>x. s\<lparr>as_watch := x\<rparr>) (act pem_ok cfg cl a (as_watch s))))"
| "agent_act pem_ok cfg cl (Snapshot rids) s =
     (if as_pc s = Serving \<and> ws_cancelled (as_watch s)
         \<and> sort rids = sort (map (\<lambda>(k, e). re_rid e) (ws_runners (as_watch s)))
      then Some (s\<lparr>as_pc := Signalling rids rids\<rparr>) else None)"
| "agent_act pem_ok cfg cl SignalNext s =
     (case as_pc s of
        Signalling (i # js) rids \<Rightarrow> Some (s\<lparr>as_watch := stop_rid i (as_watch s), as_pc := Signalling js rids\<rparr>)
      | Signalling [] rids \<Rightarrow> Some (s\<lparr>as_pc := Waiting rids\<rparr>)
      | _ \<Rightarrow> None)"
| "agent_act pem_ok cfg cl WaitNext s =
     (case as_pc s of
        Waiting (i # js) \<Rightarrow> (if rs_done (ws_rs (as_watch s) ! i) then Some (s\<lparr>as_pc := Waiting js\<rparr>) else None)
      | Waiting [] \<Rightarrow> Some (s\<lparr>as_pc := Exited False\<rparr>)
      | _ \<Rightarrow> None)"
| "agent_act pem_ok cfg cl WaitTimeout s =
     (case as_pc s of Waiting (i # js) \<Rightarrow> Some (s\<lparr>as_pc := Exited True\<rparr>) | _ \<Rightarrow> None)"

fun agent_acts :: "(string \<Rightarrow> bool) \<Rightarrow> WatcherConfig \<Rightarrow> 'w lease_client \<Rightarrow> 'w agent_action list \<Rightarrow> 'w agent_state \<Rightarrow> 'w agent_state option" where
  "agent_acts pem_ok cfg cl [] s = Some s"
| "agent_acts pem_ok cfg cl (a # xs) s =
     (case agent_act pem_ok cfg cl a s of None \<Rightarrow> None | Some s' \<Rightarrow> agent_acts pem_ok cfg cl xs s')"

lemma agent_act_Watch:
  "agent_act pem_ok cfg cl (Watch a) s = Some s' \<Longrightarrow>
     as_pc s' = as_pc s \<and> (\<forall>t. as_pc s \<noteq> Exited t) \<and> act pem_ok cfg cl a (as_watch s) = Some (as_watch s')"
  by (auto simp del: act.simps split: agent_pc.splits action.splits)

section \<open>Runners only get further\<close>

definition later :: "runner_state list \<Rightarrow> runner_state list \<Rightarrow> bool" where
  "later rs rs' = (length rs \<le> length rs' \<and> (\<forall>i<length rs. rs_done (rs ! i) \<longrightarrow> rs_done (rs' ! i)))"

lemma later_refl [simp]: "later rs rs"
  by (simp add: later_def)

lemma later_trans: "later rs rs' \<Longrightarrow> later rs' rs'' \<Longrightarrow> later rs rs''"
  by (simp add: later_def)

lemma later_upd: "(rs_done (rs ! i) \<Longrightarrow> rs_done r) \<Longrightarrow> later rs (rs[i := r])"
  by (auto simp: later_def) (metis nth_list_update_eq nth_list_update_neq)

lemma later_append [simp]: "later rs (rs @ xs)"
  by (simp add: later_def nth_append)

lemma later_fold: "(\<And>x s. later (ws_rs s) (ws_rs (f x s))) \<Longrightarrow> later (ws_rs s) (ws_rs (fold f xs s))"
  by (induction xs arbitrary: s) (auto intro: later_trans)

lemma later_stop_rid: "later (ws_rs s) (ws_rs (stop_rid i s))"
  by (auto simp: stop_rid_def upd_runner_def rs_done_def intro!: later_upd)

lemma later_start: "later rs (ws_rs s) \<Longrightarrow> later rs (ws_rs (start_runner key path plan lag s))"
  by (auto simp: start_runner_def intro: later_trans)

lemma later_add_policies_from:
  "later rs (ws_rs s) \<Longrightarrow> add_policies pem_ok cfg pod cps b s = (r, s') \<Longrightarrow> later rs (ws_rs s')"
  by (induction pem_ok cfg pod cps b s rule: add_policies.induct)
    (auto simp: Let_def later_start split: if_splits option.splits prod.splits sum.splits)

lemma later_add_policies: "add_policies pem_ok cfg pod cps b s = (r, s') \<Longrightarrow> later (ws_rs s) (ws_rs s')"
  by (rule later_add_policies_from[OF later_refl])

lemma later_OnPodAdd: "OnPodAdd pem_ok cfg pod s = (r, s') \<Longrightarrow> later (ws_rs s) (ws_rs s')"
  by (auto simp: OnPodAdd_def simp del: add_policies.simps dest: later_add_policies split: option.splits list.splits)

lemma later_see: "later (ws_rs s) (ws_rs (see_pod pem_ok cfg pod s))"
  by (auto simp: see_pod_def Let_def dest: later_OnPodAdd split: prod.split bool.split)

lemma later_forget: "later (ws_rs s) (ws_rs (forget_pod uid s))"
  by (simp add: forget_pod_def onPodDeleted_def)

lemma later_sync: "later (ws_rs s) (ws_rs (syncPods pem_ok cfg pods s))"
  unfolding syncPods_def Let_def by (rule later_trans) (rule later_fold, rule later_see later_forget)+

lemma later_stopRunner: "later (ws_rs s) (ws_rs (stopRunner key nxt s))"
  by (auto simp: stopRunner_def later_stop_rid split: option.split)

lemma later_start_cluster: "startClusterPolicyRunner pem_ok cfg lag policy key s = (r, s') \<Longrightarrow> later (ws_rs s) (ws_rs s')"
  by (auto simp: startClusterPolicyRunner_def start_runner_def split: if_splits sum.splits)

lemma later_cluster_item: "later (ws_rs s) (ws_rs (cluster_item pem_ok cfg cl lag policy nxt s))"
  using later_stopRunner[of "s\<lparr>ws_world := w\<rparr>" for w]
  by (auto simp: cluster_item_def Let_def dest: later_start_cluster split: prod.split bool.split)

lemma later_handle: "handle_event pem_ok cfg e s = (b, s') \<Longrightarrow> later (ws_rs s) (ws_rs s')"
  by (auto simp: handle_event_def later_see later_forget split: option.splits event_type.splits)

lemma later_runner_turn:
  assumes "runner_turn i guard f g s = Some s'" "\<And>r. guard r \<Longrightarrow> rs_done r \<Longrightarrow> rs_done (f r)"
  shows "later (ws_rs s) (ws_rs s')"
  using assms by (auto simp: runner_turn_def upd_runner_def later_upd split: if_splits)

lemma later_task: "task_turn j s = Some s' \<Longrightarrow> later (ws_rs s) (ws_rs s')"
  by (auto simp: task_turn_def Let_def stop_rid_def upd_runner_def rs_done_def intro!: later_upd split: if_splits del_pc.splits)

lemma later_act: "act pem_ok cfg cl a s = Some s' \<Longrightarrow> later (ws_rs s) (ws_rs s')"
proof (cases a)
  case (AListPods res)
  then show "act pem_ok cfg cl a s = Some s' \<Longrightarrow> ?thesis"
    by (cases "ws_main s"; cases res) (auto simp: list_pods_def later_sync)
next
  case (AListPolicies res)
  then show "act pem_ok cfg cl a s = Some s' \<Longrightarrow> ?thesis" by (auto simp: list_policies_def split: main_pc.splits sum.splits)
next
  case (AItem lag)
  then show "act pem_ok cfg cl a s = Some s' \<Longrightarrow> ?thesis"
    by (auto simp: reconcile_turn_def later_cluster_item later_stopRunner split: main_pc.splits list.splits)
next
  case (AEvent e)
  then show "act pem_ok cfg cl a s = Some s' \<Longrightarrow> ?thesis"
    by (auto simp: watch_turn_def consume_failed_def dest: later_handle split: if_splits prod.splits bool.splits)
next
  case AStopAll
  then show "act pem_ok cfg cl a s = Some s' \<Longrightarrow> ?thesis"
    by (auto simp: StopAll_def intro!: later_fold later_stop_rid)
qed (auto simp: open_watch_def watch_turn_def consume_failed_def stopRunner_end_def later_task rs_done_def
  split: if_splits main_pc.splits elim!: later_runner_turn)

section \<open>Shutting down\<close>

text \<open>While the main goroutine waits for the signal the agent is the event loop.\<close>

lemma serving_reach:
  "agent_acts pem_ok cfg cl xs s = Some s' \<Longrightarrow> as_pc s' = Serving \<Longrightarrow> watch_reach pem_ok cfg cl (as_watch s) \<Longrightarrow>
     watch_reach pem_ok cfg cl (as_watch s')"
proof (induction xs arbitrary: s)
  case (Cons a xs)
  obtain s1 where s1: "agent_act pem_ok cfg cl a s = Some s1" "agent_acts pem_ok cfg cl xs s1 = Some s'"
    using Cons.prems(1) by (auto split: option.splits)
  have gone: "as_pc t \<noteq> Serving \<Longrightarrow> agent_acts pem_ok cfg cl ys t = Some t' \<Longrightarrow> as_pc t' \<noteq> Serving" for ys t t'
  proof (induction ys arbitrary: t)
    case (Cons b ys)
    then obtain t1 where t1: "agent_act pem_ok cfg cl b t = Some t1" "agent_acts pem_ok cfg cl ys t1 = Some t'"
      by (auto split: option.splits)
    have "as_pc t1 \<noteq> Serving"
    proof (cases b)
      case (Watch c)
      then show ?thesis using t1(1) Cons.prems(1) agent_act_Watch by metis
    qed (use t1(1) Cons.prems(1) in \<open>auto split: agent_pc.splits list.splits if_splits\<close>)
    then show ?case using Cons.IH t1(2) by blast
  qed simp
  have "as_pc s1 = Serving" using gone[OF _ s1(2)] Cons.prems(2) by blast
  then have "\<exists>b. a = Watch b" using s1(1) by (cases a) (auto split: agent_pc.splits list.splits if_splits)
  then obtain b where "a = Watch b" "act pem_ok cfg cl b (as_watch s) = Some (as_watch s1)"
    using s1(1) agent_act_Watch by blast
  then have "watch_reach pem_ok cfg cl (as_watch s1)" using Cons.prems(3) by (auto intro: watch_reach.more watch_step.turn)
  then show ?case using Cons.IH[OF s1(2) Cons.prems(2)] by blast
qed simp

text \<open>What the main goroutine knows of the runners of its snapshot.\<close>

definition waits_for :: "nat list \<Rightarrow> 'w agent_state \<Rightarrow> bool" where
  "waits_for rids s =
     ((\<forall>i\<in>set rids. i < length (ws_rs (as_watch s)))
      \<and> (case as_pc s of
           Serving \<Rightarrow> False
         | Signalling js all \<Rightarrow> all = rids
         | Waiting js \<Rightarrow> (\<forall>i\<in>set rids. i \<in> set js \<or> rs_done (ws_rs (as_watch s) ! i))
         | Exited timeout \<Rightarrow> \<not> timeout \<longrightarrow> (\<forall>i\<in>set rids. rs_done (ws_rs (as_watch s) ! i))))"

lemma waits_for_act:
  assumes "waits_for rids s" "agent_act pem_ok cfg cl a s = Some s'"
  shows "waits_for rids s'"
proof (cases a)
  case (Watch b)
  then have s': "as_pc s' = as_pc s" "\<forall>t. as_pc s \<noteq> Exited t" "act pem_ok cfg cl b (as_watch s) = Some (as_watch s')"
    using assms(2) agent_act_Watch by blast+
  from later_act[OF s'(3)] assms(1) s'(1,2) show ?thesis
    by (auto simp: waits_for_def later_def split: agent_pc.splits)
next
  case SignalNext
  then obtain js where js: "as_pc s = Signalling js rids"
    using assms by (auto simp: waits_for_def split: agent_pc.splits list.splits)
  show ?thesis
  proof (cases js)
    case (Cons i js')
    then show ?thesis using assms js SignalNext by (auto simp: waits_for_def)
  qed (use assms js SignalNext in \<open>auto simp: waits_for_def\<close>)
next
  case WaitNext
  then show ?thesis using assms by (auto simp: waits_for_def split: agent_pc.splits list.splits if_splits)
qed (use assms in \<open>auto simp: waits_for_def split: agent_pc.splits list.splits if_splits\<close>)

lemma waits_for_acts: "agent_acts pem_ok cfg cl xs s = Some s' \<Longrightarrow> waits_for rids s \<Longrightarrow> waits_for rids s'"
  by (induction xs arbitrary: s) (auto split: option.splits dest: waits_for_act)

text \<open>C14: If the agent exits without giving up its wait, every runner that was started and not told to stop when \<open>StopAll\<close> took its
  snapshot has returned from \<open>Run\<close>, so has drained its input and committed, whatever the event loop did meanwhile; the only
  exception is a runner a deletion was about to stop at that moment.\<close>

theorem main_waits_for_runners:
  assumes "agent_acts pem_ok cfg cl xs (agent_init h w) = Some s" "agent_act pem_ok cfg cl (Snapshot rids) s = Some s1"
    and "agent_acts pem_ok cfg cl ys s1 = Some s2" "as_pc s2 = Exited False"
    and "i < length (ws_rs (as_watch s))" "\<not> rs_stopped (ws_rs (as_watch s) ! i)"
    and "\<not> (\<exists>t\<in>set (ws_tasks (as_watch s)). dt_rid t = i \<and> dt_pc t = AtStop)"
  shows "rs_done (ws_rs (as_watch s2) ! i)"
proof -
  have pc: "as_pc s = Serving" and s1: "s1 = s\<lparr>as_pc := Signalling rids rids\<rparr>"
    and rids: "sort rids = sort (map (\<lambda>(k, e). re_rid e) (ws_runners (as_watch s)))"
    using assms(2) by (auto split: if_splits)
  have reach: "watch_reach pem_ok cfg cl (as_watch s)"
    by (rule serving_reach[OF assms(1) pc]) (simp add: agent_init_def watch_reach.start)
  have "set (sort rids) = set (map (\<lambda>(k, e). re_rid e) (ws_runners (as_watch s)))" unfolding rids by simp
  then have set_rids: "set rids = (\<lambda>(k, e). re_rid e) ` set (ws_runners (as_watch s))" by simp
  from reach_owned[OF reach assms(5,6)] assms(7) have "i \<in> set rids"
    unfolding set_rids owned_def by (force dest: gm_get_SomeD)
  moreover have "j < length (ws_rs (as_watch s))" if j: "j \<in> set rids" for j
  proof -
    obtain k e where ke: "(k, e) \<in> set (ws_runners (as_watch s))" "re_rid e = j" using j unfolding set_rids by auto
    have inv: "gm_wf (ws_runners (as_watch s))" "entry_ok (ws_runners (as_watch s)) (ws_rs (as_watch s))"
      using reach_winv[OF reach] by (auto simp: runners_inv_def)
    then have "gm_get (ws_runners (as_watch s)) k = Some e" using ke(1) by (simp add: gm_wf_def gm_get_def)
    then show ?thesis using inv(2) ke(2) by (auto simp: entry_ok_def)
  qed
  then have "waits_for rids s1" by (simp add: waits_for_def s1)
  from waits_for_acts[OF assms(3) this] assms(4) have "\<forall>j\<in>set rids. rs_done (ws_rs (as_watch s2) ! j)" by (simp add: waits_for_def)
  ultimately show ?thesis by blast
qed

section \<open>Concrete runs\<close>

definition agent_run :: "lease_world agent_action list \<Rightarrow> lease_world agent_state \<Rightarrow> lease_world agent_state" where
  "agent_run xs s = (case agent_acts (\<lambda>s. True) demo_wcfg store_client xs s of Some s' \<Rightarrow> s' | None \<Rightarrow> s)"

definition agent_idle :: "lease_world agent_state" where
  "agent_idle = agent_init \<lparr>hf_nodes = [], hf_script = []\<rparr> (lease_at 200)"

lemma agent_runI:
  "agent_acts (\<lambda>s. True) demo_wcfg store_client xs s \<noteq> None \<Longrightarrow> agent_acts (\<lambda>s. True) demo_wcfg store_client xs s = Some (agent_run xs s)"
  by (auto simp: agent_run_def)

text \<open>An agent with one runner gets the signal; its runner returns, and then the agent exits.\<close>

definition agent_signalled :: "lease_world agent_action list" where
  "agent_signalled = map Watch (demo_open @ [watched Added demo_one, ACancel])"

definition agent_stops :: "lease_world agent_action list" where
  "agent_stops = [SignalNext, SignalNext, Watch (ARunReturn 0), WaitNext, WaitNext]"

theorem main_waits_for_runners_witness:
  "rs_done (ws_rs (as_watch (agent_run agent_stops (agent_run [Snapshot [0]] (agent_run agent_signalled agent_idle)))) ! 0)"
proof (rule main_waits_for_runners)
  let ?s = "agent_run agent_signalled agent_idle"
  show "agent_acts (\<lambda>s. True) demo_wcfg store_client agent_signalled (agent_init \<lparr>hf_nodes = [], hf_script = []\<rparr> (lease_at 200)) = Some ?s"
    unfolding agent_idle_def[symmetric] by (rule agent_runI) code_simp
  have "agent_acts (\<lambda>s. True) demo_wcfg store_client [Snapshot [0]] ?s = Some (agent_run [Snapshot [0]] ?s)"
    by (rule agent_runI) code_simp
  then show "agent_act (\<lambda>s. True) demo_wcfg store_client (Snapshot [0]) ?s = Some (agent_run [Snapshot [0]] ?s)"
    by (simp del: agent_act.simps split: option.splits)
  show "agent_acts (\<lambda>s. True) demo_wcfg store_client agent_stops (agent_run [Snapshot [0]] ?s)
      = Some (agent_run agent_stops (agent_run [Snapshot [0]] ?s))" by (rule agent_runI) code_simp
  show "as_pc (agent_run agent_stops (agent_run [Snapshot [0]] ?s)) = Exited False" "0 < length (ws_rs (as_watch ?s))"
    "\<not> rs_stopped (ws_rs (as_watch ?s) ! 0)" "\<not> (\<exists>t\<in>set (ws_tasks (as_watch ?s)). dt_rid t = 0 \<and> dt_pc t = AtStop)"
    by code_simp+
qed

text \<open>In a concrete run the event loop takes an event after the signal, as a \<open>select\<close> between the two may, and starts a runner \<open>StopAll\<close>
  has not seen: the agent exits at once, while that runner runs and was never told to stop.\<close>

theorem late_runner_not_waited:
  "(let s = agent_run (map Watch (demo_open @ [ACancel]) @ [Snapshot [], Watch (watched Added demo_one), SignalNext, WaitNext]) agent_idle
    in as_pc s = Exited False \<and> map rs_run (ws_rs (as_watch s)) = [Running] \<and> map rs_stopped (ws_rs (as_watch s)) = [False])"
  by code_simp

text \<open>The start of the program: no client or no node name ends it, and the configuration is that of the environment.\<close>

lemma agent_main_starts:
  "agent_main cfg_ok client_ok kube_ok env h w = Inr (addr, cfg, s) \<longleftrightarrow>
     cfg_ok \<and> client_ok \<and> kube_ok \<and> agent_config env = Some cfg \<and> addr = envOrDefault env ''STATUS_ADDR'' '':9090'' \<and> s = agent_init h w"
  by (auto simp: agent_main_def split: option.split)

text \<open>The agent the operator deploys starts, on a node with a name, with the log directory of its LogPilot.\<close>

lemma deployed_agent_starts:
  assumes "field ''spec.nodeName'' \<noteq> []"
  shows "\<exists>cfg. agent_main True True True (deployed_env field (buildAgentDaemonSet lp img)) h w = Inr ('':9090'', cfg, agent_init h w)
    \<and> wc_LogDir cfg = agent_log_dir lp"
proof -
  have "gm_str (deployed_env field (buildAgentDaemonSet lp img)) ''STATUS_ADDR'' = []"
    by (simp add: deployed_env_def buildAgentDaemonSet_def plain_def Let_def gm_str_def gomap_simps)
  then show ?thesis using deployed_config[of field lp img, OF assms] by (auto simp: agent_main_def envOrDefault_def)
qed

end
