(* ===== verification/ClusterPipeline.thy ===== *)
theory ClusterPipeline
  imports Pipeline K8sEvent PodRuns
begin

text \<open>
  The runner the agent gives a \<open>ClusterLogPilotPolicy\<close> with an event input (\<open>startClusterPolicyRunner\<close> of \<open>watcher.go\<close>): the loop of
  \<open>runner.go\<close> on \<open>k8sevent.go\<close> and the file output, while the goroutines of the input go on.

  Before each step of the runner the goroutines make the turns \<open>cw_turns\<close> gives for it, those that are possible, and time
  passes (\<open>cw_cost\<close>), so a world covers every interleaving. \<open>cw_pick\<close> is the choice of a \<open>select\<close> that may take a record or see that the
  context is done. The last two fields record the batches acknowledged and how many of the records read the saved version covers.
\<close>

record cworld =
  cw_k :: k_world
  cw_turns :: "nat \<Rightarrow> k_action list"
  cw_cost :: "nat \<Rightarrow> nat"
  cw_pick :: "nat \<Rightarrow> bool"
  cw_tick :: nat
  cw_now :: int
  cw_stop :: int
  cw_deadline :: int
  cw_out :: fileOutput
  cw_file :: osfile
  cw_acked :: "LogRecord list"
  cw_committed :: nat

section \<open>The goroutines of the input\<close>

fun runner_side :: "k_action \<Rightarrow> bool" where
  "runner_side (KRead sz stop) = True"
| "runner_side KCommit = True"
| "runner_side KClose = True"
| "runner_side _ = False"

fun k_moves :: "k_action list \<Rightarrow> k_world \<Rightarrow> k_world" where
  "k_moves [] w = w"
| "k_moves (a # xs) w = k_moves xs (if runner_side a then w else (case k_act a w of None \<Rightarrow> w | Some w' \<Rightarrow> w'))"

definition others :: "cworld \<Rightarrow> cworld" where
  "others w = w\<lparr>cw_k := k_moves (cw_turns w (cw_tick w)) (cw_k w), cw_now := cw_now w + int (cw_cost w (cw_tick w)), cw_tick := Suc (cw_tick w)\<rparr>"

section \<open>Contexts and timers\<close>

definition c_expiry :: "ctx \<Rightarrow> cworld \<Rightarrow> int" where
  "c_expiry c w = (case c of RunCtx \<Rightarrow> cw_stop w | DrainCtx \<Rightarrow> cw_deadline w)"

definition c_done :: "ctx \<Rightarrow> cworld \<Rightarrow> bool" where
  "c_done c w = (c_expiry c w \<le> cw_now w)"

definition c_wait :: "ctx \<Rightarrow> int \<Rightarrow> cworld \<Rightarrow> bool \<times> cworld" where
  "c_wait c k w =
     (if c_expiry c w \<le> cw_now w + k then (True, others (w\<lparr>cw_now := max (cw_now w) (c_expiry c w)\<rparr>))
      else (False, others (w\<lparr>cw_now := cw_now w + max k 0\<rparr>)))"

definition c_cancel :: "cworld \<Rightarrow> cworld" where
  "c_cancel w = w\<lparr>cw_stop := min (cw_stop w) (cw_now w)\<rparr>"

definition c_timeout :: "int \<Rightarrow> cworld \<Rightarrow> cworld" where
  "c_timeout k w = w\<lparr>cw_deadline := cw_now w + k\<rparr>"

definition c_env :: "cworld env" where
  "c_env = \<lparr>ev_done = c_done, ev_wait = c_wait, ev_cancel = c_cancel, ev_timeout = c_timeout\<rparr>"

section \<open>The input\<close>

text \<open>\<open>ReadBatch\<close> record by record, the goroutines sending in between.\<close>

fun c_read :: "nat \<Rightarrow> ctx \<Rightarrow> cworld \<Rightarrow> LogRecord list \<times> cworld" where
  "c_read 0 c w = ([], w)"
| "c_read (Suc n) c w =
     (let w1 = others w
      in if c_done c w1 \<and> cw_pick w1 (cw_tick w1) then ([], w1)
         else (case ev_ReadBatch 1 None (kw_input (cw_k w1)) of
             ([], k) \<Rightarrow> ([], w1)
           | (r # rs, k) \<Rightarrow>
               (case c_read n c (w1\<lparr>cw_k := (cw_k w1)\<lparr>kw_input := k, kw_out := kw_out (cw_k w1) @ (r # rs)\<rparr>\<rparr>) of
                  (us, w2) \<Rightarrow> ((r # rs) @ us, w2))))"

definition c_ReadBatch :: "ctx \<Rightarrow> int \<Rightarrow> cworld \<Rightarrow> (gerr + LogRecord list) \<times> cworld" where
  "c_ReadBatch c sz w = (case c_read (nat sz) c w of (records, w') \<Rightarrow> (Inr records, w'))"

definition c_saved :: "k8sEventInput \<Rightarrow> bool \<times> metafs \<Rightarrow> cworld \<Rightarrow> gerr option \<times> cworld" where
  "c_saved k res w =
     (case res of (ok, m) \<Rightarrow>
        (if ok then None else Some ''commit k8s event resourceVersion'',
         w\<lparr>cw_k := (cw_k w)\<lparr>kw_input := k, kw_meta := m\<rparr>,
           cw_committed := (if kv_read k \<noteq> [] \<and> os_ReadFile m (kc_ResourceVersionPath (kv_cfg k)) = Some (kv_read k)
                            then length (kw_out (cw_k w)) else cw_committed w)\<rparr>))"

definition c_Commit :: "cworld \<Rightarrow> gerr option \<times> cworld" where
  "c_Commit w = (let w1 = others w; k = kw_input (cw_k w1) in c_saved k (ev_Commit k (kw_meta (cw_k w1))) w1)"

definition c_Close :: "cworld \<Rightarrow> gerr option \<times> cworld" where
  "c_Close w = (let w1 = others w in (case ev_Close (kw_input (cw_k w1)) (kw_meta (cw_k w1)) of (k, res) \<Rightarrow> c_saved k res w1))"

definition c_input :: "cworld input_ops" where
  "c_input = \<lparr>io_ReadBatch = c_ReadBatch, io_Commit = c_Commit, io_Lag = (\<lambda>w. ev_Lag (kw_input (cw_k w))), io_Close = c_Close\<rparr>"

section \<open>The output and the runner\<close>

definition c_WriteBatch :: "ctx \<Rightarrow> LogRecord list \<Rightarrow> cworld \<Rightarrow> gerr option \<times> cworld" where
  "c_WriteBatch c records w =
     (let w1 = others w
      in (case file_WriteBatch records (cw_out w1) (cw_file w1) of
            (e, fo, f) \<Rightarrow>
              (e, w1\<lparr>cw_out := fo, cw_file := f, cw_acked := (if e = None then cw_acked w1 @ records else cw_acked w1)\<rparr>)))"

definition c_out_Close :: "cworld \<Rightarrow> gerr option \<times> cworld" where
  "c_out_Close w = (let w1 = others w in (case file_Close (cw_out w1) (cw_file w1) of (e, fo, f) \<Rightarrow> (e, w1\<lparr>cw_out := fo, cw_file := f\<rparr>)))"

definition c_output :: "cworld output_ops" where
  "c_output = \<lparr>oo_WriteBatch = c_WriteBatch, oo_Close = c_out_Close\<rparr>"

text \<open>The configuration of \<open>startClusterPolicyRunner\<close>: no cleaner.\<close>

definition plan_config :: "ClusterPlan \<Rightarrow> cworld Config" where
  "plan_config p =
     \<lparr>rc_Name = kp_Name p, rc_Input = Some c_input, rc_Transforms = map Transform (kp_Transforms p), rc_Output = Some c_output,
      rc_Clean = None, rc_BatchLen = kp_BatchLen p\<rparr>"

lemmas c_ops = c_env_def c_input_def c_output_def plan_config_def

section \<open>The contract holds\<close>

lemma others_simps [simp]:
  "cw_out (others w) = cw_out w" "cw_file (others w) = cw_file w" "cw_acked (others w) = cw_acked w"
  "cw_committed (others w) = cw_committed w"
  by (simp_all add: others_def)

lemma k_act_out: "k_act a w = Some w' \<Longrightarrow> \<not> runner_side a \<Longrightarrow> kw_out w' = kw_out w"
  by (cases a) (auto simp: goroutine_def split: if_splits)

lemma k_moves_out [simp]: "kw_out (k_moves xs w) = kw_out w"
  by (induction xs arbitrary: w) (auto simp: k_act_out split: option.splits)

lemma others_out [simp]: "kw_out (cw_k (others w)) = kw_out (cw_k w)"
  by (simp add: others_def)

lemma c_read_spec: "c_read n c w = (rs, w') \<Longrightarrow>
    kw_out (cw_k w') = kw_out (cw_k w) @ rs \<and> cw_acked w' = cw_acked w \<and> cw_committed w' = cw_committed w \<and> cw_file w' = cw_file w"
proof (induction n arbitrary: w rs w')
  case (Suc n)
  obtain us k where r: "ev_ReadBatch 1 None (kw_input (cw_k (others w))) = (us, k)" by fastforce
  show ?case
  proof (cases "c_done c (others w) \<and> cw_pick (others w) (cw_tick (others w)) \<or> us = []")
    case False
    let ?w = "(others w)\<lparr>cw_k := (cw_k (others w))\<lparr>kw_input := k, kw_out := kw_out (cw_k (others w)) @ us\<rparr>\<rparr>"
    obtain vs w2 where v: "c_read n c ?w = (vs, w2)" by fastforce
    have "rs = us @ vs" "w' = w2" using Suc.prems False r v by (auto simp: Let_def split: list.splits if_splits)
    with Suc.IH[OF v] show ?thesis by simp
  qed (use Suc.prems r in \<open>auto simp: Let_def split: if_splits\<close>)
qed simp

interpretation cl: pipeline c_env "plan_config p" c_input c_output "chain (kp_Transforms p)" "\<lambda>w. kw_out (cw_k w)" cw_acked cw_committed
    "\<lambda>w. of_script (cw_file w) = []" for p
proof
  show "applyTransforms (rc_Transforms (plan_config p)) rs = concat (map (chain (kp_Transforms p)) rs)" for rs
    by (simp add: c_ops applyTransforms_chain)
next
  fix c sz w w' and rs :: "LogRecord list"
  assume "io_ReadBatch c_input c sz w = (Inr rs, w')"
  then have "c_read (nat sz) c w = (rs, w')" by (simp add: c_ops c_ReadBatch_def split: prod.splits)
  from c_read_spec[OF this] show "kw_out (cw_k w') = kw_out (cw_k w) @ rs \<and> cw_acked w' = cw_acked w \<and> cw_committed w' = cw_committed w
      \<and> (of_script (cw_file w) = [] \<longrightarrow> of_script (cw_file w') = [])" by simp
next
  fix c rs w w' and e :: gerr
  assume "oo_WriteBatch c_output c rs w = (Some e, w')"
  then show "of_script (cw_file w) \<noteq> [] \<and> kw_out (cw_k w') = kw_out (cw_k w) \<and> cw_acked w' = cw_acked w \<and> cw_committed w' = cw_committed w"
    using file_WriteBatch_calm[of "cw_file w" rs "cw_out w"] by (auto simp: c_ops c_WriteBatch_def Let_def split: prod.splits)
next
  fix c rs w w'
  assume "oo_WriteBatch c_output c rs w = (None, w')"
  then show "kw_out (cw_k w') = kw_out (cw_k w) \<and> cw_acked w' = cw_acked w @ rs \<and> cw_committed w' = cw_committed w
      \<and> (of_script (cw_file w) = [] \<longrightarrow> of_script (cw_file w') = [])"
    using file_WriteBatch_calm[of "cw_file w" rs "cw_out w"] by (auto simp: c_ops c_WriteBatch_def Let_def split: prod.splits)
next
  fix c sz w w' and e :: gerr
  assume "io_ReadBatch c_input c sz w = (Inl e, w')"
  then show "kw_out (cw_k w') = kw_out (cw_k w) \<and> cw_acked w' = cw_acked w \<and> cw_committed w' = cw_committed w
      \<and> (of_script (cw_file w) = [] \<longrightarrow> of_script (cw_file w') = [])" by (simp add: c_ops c_ReadBatch_def split: prod.splits)
qed (auto simp: c_ops c_Commit_def c_Close_def c_saved_def c_wait_def c_cancel_def c_timeout_def c_out_Close_def file_Close_def Let_def
    split: prod.splits if_splits)

section \<open>A run of the runner is a run of the input\<close>

definition k_path :: "k_world \<Rightarrow> k_world \<Rightarrow> bool" where
  "k_path w w' = (\<exists>xs. k_acts xs w = Some w')"

lemma k_path_refl [simp]: "k_path w w"
  unfolding k_path_def by (rule exI[of _ "[]"]) simp

lemma k_path_step: "k_path w0 w \<Longrightarrow> k_act a w = Some w' \<Longrightarrow> k_path w0 w'"
proof -
  assume "k_path w0 w" and a: "k_act a w = Some w'"
  then obtain xs where xs: "k_acts xs w0 = Some w" by (auto simp: k_path_def)
  have "k_acts (xs @ [a]) w0 = Some w'" using xs a by (induction xs arbitrary: w0) (auto split: option.splits)
  then show ?thesis unfolding k_path_def by blast
qed

lemma k_path_moves: "k_path w0 w \<Longrightarrow> k_path w0 (k_moves xs w)"
  by (induction xs arbitrary: w) (auto intro: k_path_step split: option.split)

lemma k_path_others: "k_path w0 (cw_k w) \<Longrightarrow> k_path w0 (cw_k (others w))"
  by (simp add: others_def k_path_moves)

lemma k_path_read: "k_path w0 (cw_k w) \<Longrightarrow> c_read n c w = (rs, w') \<Longrightarrow> k_path w0 (cw_k w')"
proof (induction n arbitrary: w rs w')
  case (Suc n)
  obtain us k where r: "ev_ReadBatch 1 None (kw_input (cw_k (others w))) = (us, k)" by fastforce
  show ?case
  proof (cases "c_done c (others w) \<and> cw_pick (others w) (cw_tick (others w)) \<or> us = []")
    case False
    let ?w = "(others w)\<lparr>cw_k := (cw_k (others w))\<lparr>kw_input := k, kw_out := kw_out (cw_k (others w)) @ us\<rparr>\<rparr>"
    obtain vs w2 where v: "c_read n c ?w = (vs, w2)" by fastforce
    have "w' = w2" using Suc.prems(2) False r v by (auto simp: Let_def split: list.splits if_splits)
    moreover have "k_act (KRead 1 None) (cw_k (others w)) = Some (cw_k ?w)" using r by simp
    then have "k_path w0 (cw_k ?w)" using k_path_step[OF k_path_others[OF Suc.prems(1)]] by blast
    ultimately show ?thesis using Suc.IH[OF _ v] by simp
  qed (use Suc.prems r k_path_others[OF Suc.prems(1)] in \<open>auto simp: Let_def split: if_splits\<close>)
qed simp

definition c_written :: "string \<Rightarrow> k_world \<Rightarrow> cworld \<Rightarrow> bool" where
  "c_written old w0 w =
     (k_path w0 (cw_k w) \<and> of_script (cw_file w) = [] \<and> of_text (cw_file w) = old @ concat (map entry_line (cw_acked w)))"

lemma c_written_others: "c_written old w0 w \<Longrightarrow> c_written old w0 (others w)"
  by (simp add: c_written_def k_path_others)

lemma c_written_saved:
  assumes "c_written old w0 w" "k_path w0 ((cw_k w)\<lparr>kw_input := k, kw_meta := snd res\<rparr>)"
  shows "c_written old w0 (snd (c_saved k res w))"
  using assms by (cases res) (simp add: c_written_def c_saved_def)

interpretation cw: stable c_env "plan_config p" c_input "c_written old w0" "c_written old w0" for p old w0
proof
  fix c sz w
  assume P: "c_written old w0 w"
  obtain rs w' where r: "c_read (nat sz) c w = (rs, w')" by fastforce
  with P c_read_spec[OF r] k_path_read[OF _ r, of w0] show "c_written old w0 (snd (io_ReadBatch c_input c sz w))"
    by (simp add: c_ops c_ReadBatch_def c_written_def)
next
  fix w
  assume P: "c_written old w0 w"
  let ?k = "cw_k (others w)"
  have k: "k_path w0 ?k" using P k_path_others by (simp add: c_written_def)
  have "k_path w0 (?k\<lparr>kw_input := kw_input ?k, kw_meta := snd (ev_Commit (kw_input ?k) (kw_meta ?k))\<rparr>)"
    by (rule k_path_step[OF k, of KCommit]) simp
  from c_written_saved[OF c_written_others[OF P] this] show "c_written old w0 (snd (io_Commit c_input w))"
    by (simp add: c_ops c_Commit_def Let_def)
  show "c_written old w0 (snd (io_Close c_input w))"
  proof -
    obtain k ok m where cl: "ev_Close (kw_input ?k) (kw_meta ?k) = (k, ok, m)" using prod_cases3 by blast
    have "k_path w0 (?k\<lparr>kw_input := k, kw_meta := m\<rparr>)" by (rule k_path_step[OF k, of KClose]) (simp add: cl)
    then show ?thesis using c_written_saved[OF c_written_others[OF P], of "(ok, m)" k] by (simp add: c_ops c_Close_def Let_def cl)
  qed
next
  fix outp c rs w
  assume "rc_Output (plan_config p) = Some outp" "c_written old w0 w"
  then show "c_written old w0 (snd (oo_WriteBatch outp c rs w))"
    using file_WriteBatch_calm[of "cw_file w" rs "cw_out w"] k_path_others[of w0 w]
    by (auto simp: c_ops c_written_def c_WriteBatch_def Let_def)
qed (auto simp: c_ops c_written_def c_wait_def c_cancel_def c_timeout_def c_out_Close_def file_Close_def Let_def
    intro: k_path_others split: prod.splits if_splits)

section \<open>Properties\<close>

definition c_fresh :: "cworld \<Rightarrow> bool" where
  "c_fresh w = (kw_out (cw_k w) = [] \<and> cw_acked w = [] \<and> cw_committed w = 0)"

lemma c_fresh_exact: "c_fresh w \<Longrightarrow> cl.exact p w"
  by (simp add: c_fresh_def cl.exact_def cl.xfs_def)

text \<open>The start of a runner: a fresh world with the event input of the plan, opened on the disk \<open>m\<close>.\<close>

definition c_start :: "ClusterPlan \<Rightarrow> metafs \<Rightarrow> cworld \<Rightarrow> bool" where
  "c_start p m w =
     (c_fresh w
      \<and> (case kp_Input p of
           EventInput nss path \<Rightarrow>
             cw_k w = \<lparr>kw_input = NewK8sEventInput m \<lparr>kc_Namespaces = nss, kc_ResourceVersionPath = path\<rparr>, kw_meta = m, kw_out = []\<rparr>
         | ObjectStateInput nss rs \<Rightarrow> False))"

definition cluster_runner :: "ClusterPlan \<Rightarrow> cworld Runner" where
  "cluster_runner p = New (plan_config p)"

lemma cluster_plan_BatchLen: "cluster_plan pem_ok cfg policy key = Inr p \<Longrightarrow> kp_BatchLen p \<noteq> 0"
proof -
  assume "cluster_plan pem_ok cfg policy key = Inr p"
  then have "kp_BatchLen p = (if in_BatchLen (cs_Input (cc_Spec policy)) = 0 then 1000 else in_BatchLen (cs_Input (cc_Spec policy)))"
    unfolding cluster_plan_def Let_def by (auto split: sum.splits)
  then show ?thesis by simp
qed

lemma cluster_runner_cfg:
  assumes "cluster_plan pem_ok cfg policy key = Inr p"
  shows "rn_cfg (cluster_runner p) = plan_config p"
  using cluster_plan_BatchLen[OF assms] by (simp add: cluster_runner_def New_def plan_config_def)


text \<open>Whatever writes and commits fail, the version saved when the loop ends is that of a record whose batch was acknowledged.\<close>

lemma cluster_loop_commits_sent:
  assumes "c_fresh w" "run_loop n c_env (plan_config p) sent w = Some (x, sent', w')"
  shows "\<exists>rs us. kw_out (cw_k w') = rs @ us \<and> cw_acked w' = concat (map (chain (kp_Transforms p)) rs) \<and> cw_committed w' \<le> length rs"
  using cl.run_loop_exact[OF c_fresh_exact[OF assms(1), of p] assms(2)]
  by (cases "x = WriteAborted") (auto simp: cl.pending_def cl.exact_def cl.xfs_def)

section \<open>A concrete run\<close>

text \<open>The goroutines list and watch a namespace before the first step and see a second Event while the first is written.\<close>

definition demo_plan :: ClusterPlan where
  "demo_plan = (case cluster_plan (\<lambda>s. True) demo_wcfg (demo_cluster ''k8sEvent'') ''p'' of
     Inr p \<Rightarrow> p | Inl e \<Rightarrow> \<lparr>kp_Name = [], kp_Started = [], kp_Input = EventInput [] [], kp_Transforms = [], kp_Output = FileOutput \<lparr>fo_path = [], fo_f = False\<rparr>,
       kp_BatchLen = 0\<rparr>)"

definition demo_version_path :: string where
  "demo_version_path = path_join [wc_MetaDir demo_wcfg, ''p'', ''resource-version'']"

definition demo_cworld :: cworld where
  "demo_cworld = \<lparr>cw_k = \<lparr>kw_input = NewK8sEventInput no_files \<lparr>kc_Namespaces = [], kc_ResourceVersionPath = demo_version_path\<rparr>,
       kw_meta = no_files, kw_out = []\<rparr>,
     cw_turns = (\<lambda>t. if t = 0 then [KCall 0, KList 0 (ListOk ''5'' []), KPush 0 False, KOpen 0 WatchOk, KEvent 0 (added ''6''), KPush 0 False, KCount 0]
       else if t = 2 then [KEvent 0 (added ''7''), KPush 0 False, KCount 0] else []),
     cw_cost = (\<lambda>t. 1), cw_pick = (\<lambda>t. True), cw_tick = 0, cw_now = 0, cw_stop = 100, cw_deadline = 0,
     cw_out = \<lparr>fo_path = ''/out'', fo_f = False\<rparr>, cw_file = \<lparr>of_text = [], of_script = []\<rparr>, cw_acked = [], cw_committed = 0\<rparr>"

lemma demo_cluster_run:
  "case Run 9 c_env (cluster_runner demo_plan) demo_cworld of None \<Rightarrow> False
   | Some (x, r, w) \<Rightarrow> map rec_Data (kw_out (cw_k w)) = [''{6}'', ''{7}''] \<and> os_ReadFile (kw_meta (cw_k w)) demo_version_path = Some ''7''"
  by code_simp


end
